(* ===== verification/Prelude.thy ===== *)
theory Prelude
  imports
    "HOL-Library.Word"
    "HOL-Library.AList"
    "HOL-Library.Multiset"
    "HOL-Library.List_Lexorder"
    "HOL-Library.Char_ord"
begin

text \<open>
  Shared vocabulary of the development: the machine types of the Go program, Go maps as
  association lists (with the map interface as a locale), \<^verbatim>\<open>sort.SliceStable\<close>, hexadecimal and
  little-endian encodings, and the generic lemmas about them that the components use.
\<close>

section \<open>Types\<close>

type_synonym byte = "8 word"
type_synonym bytes = "byte list"
type_synonym u64 = "64 word"
type_synonym u32 = "32 word"

text \<open>
  \<^verbatim>\<open>peer.ID\<close> is a Go string of raw bytes; \<^verbatim>\<open><\<close> on Go strings is byte-lexicographic, which is the
  order of \<^theory_text>\<open>List_Lexorder\<close> over \<^theory_text>\<open>Char_ord\<close>.
\<close>
type_synonym peer_id = string

text \<open>The errors the Go code returns, each a branch of the model.\<close>

datatype error =
    ErrNoActiveView
  | ErrClockDrift
  | ErrInvalidConfig string
  | ErrGroupNotFound
  | ErrAccessRevoked
  | ErrNoRows
  | ErrDB
  | ErrMsg string
  | ErrWrap string error

text \<open>Simplification sets of the development, filled by the components.\<close>

named_theorems coord_simps \<open>frame equations of the coordinator's operations\<close>

section \<open>Integers\<close>

text \<open>Go's \<^verbatim>\<open>int64\<close> arithmetic wraps around; values are kept as \<^typ>\<open>int\<close>.\<close>

definition wrap64 :: "int \<Rightarrow> int" where
  "wrap64 x = (x + 2 ^ 63) mod 2 ^ 64 - 2 ^ 63"

definition in_i64 :: "int \<Rightarrow> bool" where
  "in_i64 x \<longleftrightarrow> - (2 ^ 63) \<le> x \<and> x < 2 ^ 63"

text \<open>Go's integer division truncates towards zero.\<close>

definition go_div :: "int \<Rightarrow> int \<Rightarrow> int" where
  "go_div a b = sgn a * sgn b * (\<bar>a\<bar> div \<bar>b\<bar>)"

definition le64 :: "u64 \<Rightarrow> bytes" where
  "le64 w = map (\<lambda>i. ucast (drop_bit (8 * i) w)) [0..<8]"

section \<open>Strings and bytes\<close>

definition string_bytes :: "string \<Rightarrow> bytes" where
  "string_bytes s = map of_char s"

definition hex_digit :: "nat \<Rightarrow> char" where
  "hex_digit n = (if n < 10 then char_of (48 + n) else char_of (87 + n))"

definition hex_byte :: "byte \<Rightarrow> string" where
  "hex_byte b = [hex_digit (unat b div 16), hex_digit (unat b mod 16)]"

definition hex :: "bytes \<Rightarrow> string" where
  "hex bs = concat (map hex_byte bs)"

text \<open>White space as \<^verbatim>\<open>strings.TrimSpace\<close> sees it on ASCII text, and SQLite's \<^verbatim>\<open>trim\<close>.\<close>

definition is_space :: "char \<Rightarrow> bool" where
  "is_space c \<longleftrightarrow> (let n = (of_char c :: nat) in n = 32 \<or> (9 \<le> n \<and> n \<le> 13))"

definition TrimSpace :: "string \<Rightarrow> string" where
  "TrimSpace s = rev (dropWhile is_space (rev (dropWhile is_space s)))"

definition sql_trim :: "string \<Rightarrow> string" where
  "sql_trim s = rev (dropWhile (\<lambda>c. c = CHR '' '') (rev (dropWhile (\<lambda>c. c = CHR '' '') s)))"

section \<open>Go maps\<close>

text \<open>
  A Go map is an association list with distinct keys. Iteration follows the list; Go leaves the
  order open, so no result of the model may depend on it.
\<close>

type_synonym ('k, 'v) gomap = "('k \<times> 'v) list"

definition gget :: "('k, 'v) gomap \<Rightarrow> 'k \<Rightarrow> 'v option" where
  "gget m k = map_of m k"

definition gput :: "'k \<Rightarrow> 'v \<Rightarrow> ('k, 'v) gomap \<Rightarrow> ('k, 'v) gomap" where
  "gput k v m = AList.update k v m"

definition gdel :: "'k \<Rightarrow> ('k, 'v) gomap \<Rightarrow> ('k, 'v) gomap" where
  "gdel k m = AList.delete k m"

definition ghas :: "('k, 'v) gomap \<Rightarrow> 'k \<Rightarrow> bool" where
  "ghas m k \<longleftrightarrow> gget m k \<noteq> None"

definition gkeys :: "('k, 'v) gomap \<Rightarrow> 'k list" where
  "gkeys m = map fst m"

definition gmap_ok :: "('k, 'v) gomap \<Rightarrow> bool" where
  "gmap_ok m \<longleftrightarrow> distinct (map fst m)"

section \<open>Stable sorting\<close>

text \<open>
  \<^verbatim>\<open>sort.SliceStable(xs, less)\<close>: the stable sort by a strict weak order, as an insertion from the
  right that keeps an element before those it is not above.
\<close>

fun insert_by :: "('a \<Rightarrow> 'a \<Rightarrow> bool) \<Rightarrow> 'a \<Rightarrow> 'a list \<Rightarrow> 'a list" where
  "insert_by lt x [] = [x]"
| "insert_by lt x (y # ys) = (if lt y x then y # insert_by lt x ys else x # y # ys)"

definition SliceStable :: "('a \<Rightarrow> 'a \<Rightarrow> bool) \<Rightarrow> 'a list \<Rightarrow> 'a list" where
  "SliceStable lt xs = foldr (insert_by lt) xs []"

section \<open>Lemmas on integers and encodings\<close>

lemma wrap64_in: "in_i64 (wrap64 x)"
proof -
  have "0 \<le> (x + 2 ^ 63) mod 2 ^ 64" and "(x + 2 ^ 63) mod 2 ^ 64 < (2 ^ 64 :: int)"
    by simp_all
  then show ?thesis by (simp add: in_i64_def wrap64_def)
qed

lemma wrap64_id [simp]: "in_i64 x \<Longrightarrow> wrap64 x = x"
  by (simp add: in_i64_def wrap64_def)

lemma length_le64 [simp]: "length (le64 w) = 8"
  by (simp add: le64_def)


lemma unat_of_char [simp]: "unat (of_char c :: 8 word) = of_char c"
proof -
  have "(of_char c :: nat) < 2 ^ LENGTH(8)"
    using nat_of_char_less_256 [of c] by simp
  then show ?thesis
    by (metis of_nat_of_char of_nat_id take_bit_nat_eq_self unsigned_of_nat)
qed

lemma of_char_byte_inj: "inj (of_char :: char \<Rightarrow> 8 word)"
  by (rule injI) (metis of_char_eq_iff unat_of_char)

lemma string_bytes_inj: "string_bytes s = string_bytes t \<longleftrightarrow> s = t"
  by (auto simp: string_bytes_def inj_map_eq_map [OF of_char_byte_inj])

lemma hex_digit_inj: "m < 16 \<Longrightarrow> n < 16 \<Longrightarrow> hex_digit m = hex_digit n \<Longrightarrow> m = n"
proof -
  have d: "of_char (hex_digit k) = (if k < 10 then 48 + k else 87 + k)" if "k < 16" for k
    using that by (simp add: hex_digit_def)
  assume "m < 16" "n < 16" "hex_digit m = hex_digit n"
  then have "(if m < 10 then 48 + m else 87 + m) = (if n < 10 then 48 + n else 87 + n)"
    by (metis d)
  with \<open>m < 16\<close> \<open>n < 16\<close> show "m = n" by (auto split: if_splits)
qed

lemma hex_byte_inj: "hex_byte a = hex_byte b \<longleftrightarrow> a = b"
proof
  assume h: "hex_byte a = hex_byte b"
  have lt: "unat c div 16 < 16" "unat c mod 16 < 16" for c :: byte
    using unsigned_less [of c, where 'a = nat] by (simp_all add: less_mult_imp_div_less)
  from h have "unat a div 16 = unat b div 16" and "unat a mod 16 = unat b mod 16"
    by (auto simp: hex_byte_def dest: hex_digit_inj [OF lt(1) lt(1)] hex_digit_inj [OF lt(2) lt(2)])
  then have "unat a = unat b" by (metis div_mod_decomp)
  then show "a = b" by (simp add: word_unat_eq_iff)
qed simp

lemma hex_inj [simp]: "hex a = hex b \<longleftrightarrow> a = b"
proof
  assume "hex a = hex b"
  then show "a = b"
  proof (induction a arbitrary: b)
    case Nil
    then show ?case by (cases b) (auto simp: hex_def hex_byte_def)
  next
    case (Cons x xs)
    then obtain y ys where b: "b = y # ys"
      by (cases b) (auto simp: hex_def hex_byte_def)
    with Cons.prems have "hex_byte x @ hex xs = hex_byte y @ hex ys"
      by (simp add: hex_def)
    then have "hex_byte x = hex_byte y" and "hex xs = hex ys"
      by (simp_all add: hex_byte_def)
    then show ?case using Cons.IH b by (simp add: hex_byte_inj)
  qed
qed simp

section \<open>The map interface\<close>

text \<open>
  What the components rely on when they read and write a Go map: lookups after an insertion and a
  deletion, and that the representation invariant is kept.
\<close>

locale map_store =
  fixes get :: "'m \<Rightarrow> 'k \<Rightarrow> 'v option"
    and put :: "'k \<Rightarrow> 'v \<Rightarrow> 'm \<Rightarrow> 'm"
    and del :: "'k \<Rightarrow> 'm \<Rightarrow> 'm"
    and ok :: "'m \<Rightarrow> bool"
  assumes get_put: "get (put k v m) j = (if j = k then Some v else get m j)"
    and get_del: "get (del k m) j = (if j = k then None else get m j)"
    and ok_put: "ok m \<Longrightarrow> ok (put k v m)"
    and ok_del: "ok m \<Longrightarrow> ok (del k m)"
begin

lemma get_put_same: "get (put k v m) k = Some v"
  by (simp add: get_put)

lemma put_overwrites: "get (put k v (put k w m)) = get (put k v m)"
  by (simp add: get_put fun_eq_iff)

lemma del_put: "get (del k (put k v m)) = get (del k m)"
  by (simp add: get_put get_del fun_eq_iff)

lemma put_present: "get m k \<noteq> None \<Longrightarrow> get (put j v m) k \<noteq> None"
  by (simp add: get_put)

lemma ok_fold_del: "ok m \<Longrightarrow> ok (fold del ks m)"
  by (induction ks arbitrary: m) (simp_all add: ok_del)

lemma get_fold_del: "get (fold del ks m) j = (if j \<in> set ks then None else get m j)"
  by (induction ks arbitrary: m) (simp_all add: get_del)

end

interpretation gm: map_store gget gput gdel gmap_ok
  by unfold_locales
    (auto simp: gget_def gput_def gdel_def gmap_ok_def update_conv' delete_conv'
      intro: distinct_update distinct_delete)

lemmas gomap_simps [simp] = gm.get_put gm.get_del

lemma gmap_ok_empty [simp]: "gmap_ok []"
  by (simp add: gmap_ok_def)

lemmas gmap_ok_intros [intro] = gm.ok_put gm.ok_del

lemma gget_empty [simp]: "gget [] k = None"
  by (simp add: gget_def)

lemma gget_Cons: "gget ((k, v) # m) j = (if k = j then Some v else gget m j)"
  by (simp add: gget_def)

lemma ghas_gput [simp]: "ghas (gput k v m) j \<longleftrightarrow> j = k \<or> ghas m j"
  by (simp add: ghas_def)

lemma ghas_gdel [simp]: "ghas (gdel k m) j \<longleftrightarrow> j \<noteq> k \<and> ghas m j"
  by (simp add: ghas_def)

lemma ghas_empty [simp]: "\<not> ghas [] k"
  by (simp add: ghas_def)

lemma set_gkeys: "set (gkeys m) = {k. ghas m k}"
  by (auto simp: gkeys_def ghas_def gget_def map_of_eq_None_iff)

lemma set_gkeys_gput [simp]: "set (gkeys (gput k v m)) = insert k (set (gkeys m))"
  by (auto simp: set_gkeys)

lemma set_gkeys_gdel [simp]: "set (gkeys (gdel k m)) = set (gkeys m) - {k}"
  by (auto simp: set_gkeys)

lemma gget_in_set: "gget m k = Some v \<Longrightarrow> (k, v) \<in> set m"
  by (simp add: gget_def map_of_SomeD)

lemma gget_iff_in_set: "gmap_ok m \<Longrightarrow> gget m k = Some v \<longleftrightarrow> (k, v) \<in> set m"
  by (simp add: gget_def gmap_ok_def)

lemma gmap_ok_filter: "gmap_ok m \<Longrightarrow> gmap_ok (filter P m)"
  by (simp add: gmap_ok_def distinct_map_filter)

lemma gget_filter_key:
  "gget (filter (\<lambda>(k, v). P k) m) j = (if P j then gget m j else None)"
  by (induction m) (auto simp: gget_def)

lemma length_gput_fresh: "\<not> ghas m k \<Longrightarrow> length (gput k v m) = Suc (length m)"
  by (induction m) (auto simp: gput_def ghas_def gget_def split: if_splits)

lemma length_gput_old: "ghas m k \<Longrightarrow> length (gput k v m) = length m"
  by (induction m) (auto simp: gput_def ghas_def gget_def split: if_splits)

lemma distinct_filter_nth:
  "distinct (filter P (map f xs)) \<Longrightarrow> i < length xs \<Longrightarrow> j < length xs \<Longrightarrow> f (xs ! i) = f (xs ! j)
    \<Longrightarrow> P (f (xs ! i)) \<Longrightarrow> i = j"
proof (induction xs arbitrary: i j)
  case (Cons x xs)
  have "f x \<noteq> f (xs ! k)" if "P (f x)" "k < length xs" for k
    using Cons.prems(1) that nth_mem [of k xs] by (auto simp: image_iff)
  with Cons show ?case by (cases i; cases j) (force split: if_splits)+
qed simp

section \<open>Stable sorting by a strict weak order\<close>

lemma mset_insert_by [simp]: "mset (insert_by lt x ys) = add_mset x (mset ys)"
  by (induction ys) auto

lemma mset_SliceStable [simp]: "mset (SliceStable lt xs) = mset xs"
  by (induction xs) (auto simp: SliceStable_def)

lemma set_insert_by [simp]: "set (insert_by lt x ys) = insert x (set ys)"
  by (induction ys) auto

lemma set_SliceStable [simp]: "set (SliceStable lt xs) = set xs"
  by (metis mset_SliceStable set_mset_mset)

lemma length_SliceStable [simp]: "length (SliceStable lt xs) = length xs"
  by (metis mset_SliceStable size_mset)

lemma distinct_SliceStable [simp]: "distinct (SliceStable lt xs) = distinct xs"
  by (rule mset_eq_imp_distinct_iff) simp

lemma SliceStable_Nil [simp]: "SliceStable lt [] = []"
  by (simp add: SliceStable_def)

lemma SliceStable_Cons: "SliceStable lt (x # xs) = insert_by lt x (SliceStable lt xs)"
  by (simp add: SliceStable_def)

lemma SliceStable_eq_Nil [simp]: "SliceStable lt xs = [] \<longleftrightarrow> xs = []"
  by (metis length_0_conv length_SliceStable)

locale weak_order =
  fixes lt :: "'a \<Rightarrow> 'a \<Rightarrow> bool"
  assumes lt_asym: "lt x y \<Longrightarrow> \<not> lt y x"
    and not_lt_trans: "\<not> lt x y \<Longrightarrow> \<not> lt y z \<Longrightarrow> \<not> lt x z"
begin

lemma sorted_insert_by:
  "sorted_wrt (\<lambda>a b. \<not> lt b a) ys \<Longrightarrow> sorted_wrt (\<lambda>a b. \<not> lt b a) (insert_by lt x ys)"
proof (induction ys)
  case Nil
  then show ?case by simp
next
  case (Cons y ys)
  then show ?case
    by (auto dest: lt_asym not_lt_trans)
qed

lemma sorted_SliceStable: "sorted_wrt (\<lambda>a b. \<not> lt b a) (SliceStable lt xs)"
  by (induction xs) (simp_all add: SliceStable_Cons sorted_insert_by)

text \<open>
  On elements the order tells apart, the sorted list depends only on the multiset, so two nodes
  that received the same elements in different orders sort them alike.
\<close>

lemma sorted_unique:
  assumes "mset xs = mset ys"
    and "sorted_wrt (\<lambda>a b. \<not> lt b a) xs" and "sorted_wrt (\<lambda>a b. \<not> lt b a) ys"
    and "\<And>x y. x \<in> set xs \<Longrightarrow> y \<in> set xs \<Longrightarrow> \<not> lt x y \<Longrightarrow> \<not> lt y x \<Longrightarrow> x = y"
  shows "xs = ys"
  using assms
proof (induction xs arbitrary: ys)
  case Nil
  then show ?case by simp
next
  case (Cons x xs)
  then obtain y zs where ys: "ys = y # zs" by (cases ys) auto
  have sets: "set (x # xs) = set ys" using Cons.prems(1) by (metis set_mset_mset)
  have "x = y"
  proof (rule ccontr)
    assume "x \<noteq> y"
    then have "y \<in> set xs" and "x \<in> set zs" using sets ys by auto
    then have "\<not> lt y x" and "\<not> lt x y" using Cons.prems(2,3) ys by auto
    then have "x = y" using Cons.prems(4) \<open>y \<in> set xs\<close> by auto
    with \<open>x \<noteq> y\<close> show False by simp
  qed
  moreover have "xs = zs"
    using Cons ys \<open>x = y\<close> by auto
  ultimately show ?case using ys by simp
qed

lemma SliceStable_unique:
  assumes "mset xs = mset ys"
    and "\<And>x y. x \<in> set xs \<Longrightarrow> y \<in> set xs \<Longrightarrow> \<not> lt x y \<Longrightarrow> \<not> lt y x \<Longrightarrow> x = y"
  shows "SliceStable lt xs = SliceStable lt ys"
  by (rule sorted_unique) (use assms sorted_SliceStable in auto)

end

text \<open>Any linear order is such an order: byte strings, peer identifiers, timestamps.\<close>

interpretation linear: weak_order "(<) :: 'a::linorder \<Rightarrow> 'a \<Rightarrow> bool"
  by unfold_locales auto

end
