(* ===== verification/Epoch.thy ===== *)
theory Epoch
  imports Prelude
begin

text \<open>
  \<^verbatim>\<open>coordination/epoch.go\<close>: epoch validation and the \<^verbatim>\<open>EpochTracker\<close> with its buffer of messages
  from later epochs. The lemmas show that the tracker refines a queue of (epoch, message) pairs:
  nothing buffered for an epoch is lost, duplicated or reordered before the node reaches it.
\<close>

section \<open>Definitions\<close>

datatype EpochAction = ActionProcess | ActionRejectStale | ActionBufferFuture

definition ValidateEpoch :: "u64 \<Rightarrow> u64 \<Rightarrow> EpochAction" where
  "ValidateEpoch msgEpoch localEpoch =
    (if msgEpoch = localEpoch then ActionProcess
     else if msgEpoch < localEpoch then ActionRejectStale
     else ActionBufferFuture)"

record EpochTracker =
  et_epoch :: u64
  et_treeHash :: bytes
  et_futureBuffer :: "(u64, bytes list) gomap"

definition NewEpochTracker :: "u64 \<Rightarrow> bytes \<Rightarrow> EpochTracker" where
  "NewEpochTracker initialEpoch treeHash =
    \<lparr>et_epoch = initialEpoch, et_treeHash = treeHash, et_futureBuffer = []\<rparr>"

definition Current :: "EpochTracker \<Rightarrow> u64" where
  "Current et = et_epoch et"

definition TreeHash :: "EpochTracker \<Rightarrow> bytes" where
  "TreeHash et = et_treeHash et"

text \<open>A missing key of the buffer reads as the empty slice.\<close>

definition buffered_at :: "(u64, bytes list) gomap \<Rightarrow> u64 \<Rightarrow> bytes list" where
  "buffered_at m e = (case gget m e of None \<Rightarrow> [] | Some msgs \<Rightarrow> msgs)"

definition Advance :: "u64 \<Rightarrow> bytes \<Rightarrow> EpochTracker \<Rightarrow> bytes list \<times> EpochTracker" where
  "Advance newEpoch newTreeHash et =
    (let buffered = buffered_at (et_futureBuffer et) newEpoch;
         m = gdel newEpoch (et_futureBuffer et);
         m' = filter (\<lambda>(e, msgs). \<not> e \<le> newEpoch) m
     in (buffered, et\<lparr>et_epoch := newEpoch, et_treeHash := newTreeHash, et_futureBuffer := m'\<rparr>))"

definition Validate_et :: "u64 \<Rightarrow> EpochTracker \<Rightarrow> EpochAction" where
  "Validate_et msgEpoch et = ValidateEpoch msgEpoch (et_epoch et)"

definition BufferFuture :: "u64 \<Rightarrow> bytes \<Rightarrow> EpochTracker \<Rightarrow> EpochTracker" where
  "BufferFuture epoch rawEnvelope et =
    (if epoch \<le> et_epoch et then et
     else et\<lparr>et_futureBuffer :=
       gput epoch (buffered_at (et_futureBuffer et) epoch @ [rawEnvelope]) (et_futureBuffer et)\<rparr>)"

definition FutureBufferSize :: "EpochTracker \<Rightarrow> nat" where
  "FutureBufferSize et = sum_list (map (\<lambda>(e, msgs). length msgs) (et_futureBuffer et))"

section \<open>The abstract queue\<close>

text \<open>The contract: the current epoch and the pending messages in order of arrival.\<close>

record future_queue =
  fq_epoch :: u64
  fq_pending :: "(u64 \<times> bytes) list"

definition fq_buffer :: "u64 \<Rightarrow> bytes \<Rightarrow> future_queue \<Rightarrow> future_queue" where
  "fq_buffer e raw q = (if e \<le> fq_epoch q then q else q\<lparr>fq_pending := fq_pending q @ [(e, raw)]\<rparr>)"

definition fq_advance :: "u64 \<Rightarrow> future_queue \<Rightarrow> bytes list \<times> future_queue" where
  "fq_advance e q =
    (map snd (filter (\<lambda>p. fst p = e) (fq_pending q)),
     q\<lparr>fq_epoch := e, fq_pending := filter (\<lambda>p. e < fst p) (fq_pending q)\<rparr>)"

datatype tracker_op = OpBuffer u64 bytes | OpAdvance u64 bytes

fun tracker_exec :: "EpochTracker \<Rightarrow> tracker_op list \<Rightarrow> bytes list \<times> EpochTracker" where
  "tracker_exec et [] = ([], et)"
| "tracker_exec et (OpBuffer e raw # ops) = tracker_exec (BufferFuture e raw et) ops"
| "tracker_exec et (OpAdvance e th # ops) =
    (let (out, et') = Advance e th et; (outs, et'') = tracker_exec et' ops in (out @ outs, et''))"

fun queue_exec :: "future_queue \<Rightarrow> tracker_op list \<Rightarrow> bytes list \<times> future_queue" where
  "queue_exec q [] = ([], q)"
| "queue_exec q (OpBuffer e raw # ops) = queue_exec (fq_buffer e raw q) ops"
| "queue_exec q (OpAdvance e th # ops) =
    (let (out, q') = fq_advance e q; (outs, q'') = queue_exec q' ops in (out @ outs, q''))"

section \<open>Invariant and refinement\<close>

definition tracker_ok :: "EpochTracker \<Rightarrow> bool" where
  "tracker_ok et \<longleftrightarrow> gmap_ok (et_futureBuffer et) \<and> (\<forall>e. ghas (et_futureBuffer et) e \<longrightarrow> et_epoch et < e)"

definition queue_rel :: "EpochTracker \<Rightarrow> future_queue \<Rightarrow> bool" where
  "queue_rel et q \<longleftrightarrow> tracker_ok et \<and> et_epoch et = fq_epoch q \<and>
    (\<forall>p \<in> set (fq_pending q). fq_epoch q < fst p) \<and>
    (\<forall>e. buffered_at (et_futureBuffer et) e = map snd (filter (\<lambda>p. fst p = e) (fq_pending q)))"

lemma ValidateEpoch_iff [simp]:
  "ValidateEpoch m l = ActionProcess \<longleftrightarrow> m = l"
  "ValidateEpoch m l = ActionRejectStale \<longleftrightarrow> m < l"
  "ValidateEpoch m l = ActionBufferFuture \<longleftrightarrow> l < m"
  by (auto simp: ValidateEpoch_def)

lemma buffered_at_empty [simp]: "buffered_at [] e = []"
  by (simp add: buffered_at_def)

lemma buffered_at_put [simp]: "buffered_at (gput k v m) e = (if e = k then v else buffered_at m e)"
  by (simp add: buffered_at_def)

lemma buffered_at_advance:
  "buffered_at (filter (\<lambda>(e, msgs). \<not> e \<le> n) (gdel n m)) e = (if n < e then buffered_at m e else [])"
  using gget_filter_key [of "\<lambda>e. \<not> e \<le> n" "gdel n m" e]
  by (auto simp: buffered_at_def)

lemma tracker_ok_New [simp]: "tracker_ok (NewEpochTracker e th)"
  by (simp add: tracker_ok_def NewEpochTracker_def)

lemma tracker_ok_Buffer: "tracker_ok et \<Longrightarrow> tracker_ok (BufferFuture e raw et)"
  by (auto simp: tracker_ok_def BufferFuture_def)

lemma ghas_filter_key: "ghas (filter (\<lambda>(k, v). P k) m) j \<longleftrightarrow> P j \<and> ghas m j"
  by (auto simp: ghas_def gget_filter_key)

lemma tracker_ok_Advance: "tracker_ok et \<Longrightarrow> tracker_ok (snd (Advance e th et))"
  by (auto simp: tracker_ok_def Advance_def Let_def ghas_filter_key [of "\<lambda>k. \<not> k \<le> e"]
    intro: gmap_ok_filter)

lemma Advance_simps [simp]:
  "et_epoch (snd (Advance e th et)) = e"
  "et_treeHash (snd (Advance e th et)) = th"
  "fst (Advance e th et) = buffered_at (et_futureBuffer et) e"
  "buffered_at (et_futureBuffer (snd (Advance e th et))) k =
    (if e < k then buffered_at (et_futureBuffer et) k else [])"
  by (simp_all add: Advance_def Let_def buffered_at_advance)

lemma BufferFuture_simps [simp]:
  "et_epoch (BufferFuture e raw et) = et_epoch et"
  "et_treeHash (BufferFuture e raw et) = et_treeHash et"
  "buffered_at (et_futureBuffer (BufferFuture e raw et)) k =
    (if k = e \<and> et_epoch et < e then buffered_at (et_futureBuffer et) k @ [raw]
     else buffered_at (et_futureBuffer et) k)"
  by (auto simp: BufferFuture_def)

lemma queue_rel_Buffer: "queue_rel et q \<Longrightarrow> queue_rel (BufferFuture e raw et) (fq_buffer e raw q)"
  by (auto simp: queue_rel_def fq_buffer_def tracker_ok_Buffer)

lemma queue_rel_Advance:
  assumes "queue_rel et q"
  shows "fst (Advance e th et) = fst (fq_advance e q)"
    and "queue_rel (snd (Advance e th et)) (snd (fq_advance e q))"
proof -
  have f: "filter (\<lambda>p. e < fst p \<and> fst p = k) ps = (if e < k then filter (\<lambda>p. fst p = k) ps else [])"
    for k and ps :: "(u64 \<times> bytes) list"
    by (induction ps) auto
  show "fst (Advance e th et) = fst (fq_advance e q)"
    "queue_rel (snd (Advance e th et)) (snd (fq_advance e q))"
    using assms by (auto simp: queue_rel_def fq_advance_def tracker_ok_Advance f)
qed

lemma tracker_exec_refines:
  assumes "queue_rel et q"
  shows "fst (tracker_exec et ops) = fst (queue_exec q ops) \<and>
    queue_rel (snd (tracker_exec et ops)) (snd (queue_exec q ops))"
  using assms
proof (induction ops arbitrary: et q)
  case Nil
  then show ?case by simp
next
  case (Cons x ops)
  show ?case
  proof (cases x)
    case (OpBuffer e raw)
    then show ?thesis using Cons queue_rel_Buffer by simp
  next
    case (OpAdvance e th)
    then show ?thesis
      using Cons.IH [OF queue_rel_Advance(2) [OF Cons.prems, of e th]]
        queue_rel_Advance(1) [OF Cons.prems, of e th]
      by (simp add: case_prod_beta Let_def del: Advance_simps(3))
  qed
qed

text \<open>
  C37: Over any sequence of \<^verbatim>\<open>BufferFuture\<close> and \<^verbatim>\<open>Advance\<close> calls, a new \<^verbatim>\<open>EpochTracker\<close> behaves as
  the queue: each \<^verbatim>\<open>Advance\<close> hands out exactly the messages buffered for the epoch it reaches, in
  order of arrival, messages of later epochs stay, and no key of the buffer is ever at or below
  the current epoch.
\<close>

theorem epoch_tracker_refines_queue:
  "fst (tracker_exec (NewEpochTracker e0 th) ops) =
     fst (queue_exec \<lparr>fq_epoch = e0, fq_pending = []\<rparr> ops) \<and>
   queue_rel (snd (tracker_exec (NewEpochTracker e0 th) ops))
     (snd (queue_exec \<lparr>fq_epoch = e0, fq_pending = []\<rparr> ops))"
proof (rule tracker_exec_refines)
  show "queue_rel (NewEpochTracker e0 th) \<lparr>fq_epoch = e0, fq_pending = []\<rparr>"
    by (simp add: queue_rel_def NewEpochTracker_def tracker_ok_def)
qed

section \<open>The size of the buffer\<close>

lemma sum_gdel: "gmap_ok m \<Longrightarrow> sum_list (map (\<lambda>(e, msgs). length msgs) m) =
    length (buffered_at m k) + sum_list (map (\<lambda>(e, msgs). length msgs) (gdel k m))"
proof (induction m)
  case Nil
  then show ?case by (simp add: gdel_def)
next
  case (Cons p m)
  obtain e msgs where p: "p = (e, msgs)" by force
  show ?case
  proof (cases "e = k")
    case True
    with Cons.prems p have "gdel k m = m"
      by (simp add: gmap_ok_def gdel_def delete_notin_dom image_iff)
    then show ?thesis using p True by (simp add: gdel_def buffered_at_def gget_def)
  next
    case False
    then show ?thesis using Cons p by (simp add: gmap_ok_def gdel_def buffered_at_def gget_def)
  qed
qed

lemma sum_filter_le: "sum_list (map f (filter P xs)) \<le> (sum_list (map f xs) :: nat)"
  by (induction xs) auto

lemma FutureBufferSize_Advance:
  assumes "tracker_ok et"
  shows "length (fst (Advance e th et)) + FutureBufferSize (snd (Advance e th et)) \<le> FutureBufferSize et"
  using assms sum_gdel [of "et_futureBuffer et" e] sum_filter_le
  by (simp add: tracker_ok_def FutureBufferSize_def Advance_def Let_def)

lemma FutureBufferSize_Buffer:
  assumes "tracker_ok et"
  shows "FutureBufferSize (BufferFuture e raw et) \<le> Suc (FutureBufferSize et)"
proof -
  have u: "AList.delete e (AList.update e v m) = AList.delete e m" for v and m :: "(u64 \<times> bytes list) list"
    by (induction m) auto
  show ?thesis
    using assms sum_gdel [of "et_futureBuffer et" e]
      sum_gdel [of "gput e (buffered_at (et_futureBuffer et) e @ [raw]) (et_futureBuffer et)" e]
    by (auto simp: tracker_ok_def FutureBufferSize_def BufferFuture_def gdel_def gput_def u gm.ok_put [unfolded gput_def]
      buffered_at_put [unfolded gput_def])
qed

end
