(* ===== verification/Metrics.thy ===== *)
theory Metrics
  imports Prelude
begin

text \<open>
  The measurements of \<^verbatim>\<open>coordination/metrics.go\<close>: seven \<^verbatim>\<open>int64\<close> counters and three lists of durations.
  The mutex makes each method one step. The lemma at the end relates a snapshot to the calls made since
  the last reset.
\<close>

record Metrics =
  mt_commitsIssued :: int
  mt_proposalsReceived :: int
  mt_duplicateEpochDetected :: int
  mt_epochFinalizations :: "int list"
  mt_externalJoins :: "int list"
  mt_tokenElections :: "int list"
  mt_commitBytesTotal :: int
  mt_partitionsDetected :: int
  mt_forkHealingsAttempted :: int
  mt_forkHealingsSucceeded :: int

definition NewMetrics :: Metrics where
  "NewMetrics = \<lparr>mt_commitsIssued = 0, mt_proposalsReceived = 0, mt_duplicateEpochDetected = 0,
     mt_epochFinalizations = [], mt_externalJoins = [], mt_tokenElections = [], mt_commitBytesTotal = 0,
     mt_partitionsDetected = 0, mt_forkHealingsAttempted = 0, mt_forkHealingsSucceeded = 0\<rparr>"

definition IncrCommitsIssued :: "Metrics \<Rightarrow> Metrics" where
  "IncrCommitsIssued m = m\<lparr>mt_commitsIssued := wrap64 (mt_commitsIssued m + 1)\<rparr>"

definition IncrProposalsReceived :: "Metrics \<Rightarrow> Metrics" where
  "IncrProposalsReceived m = m\<lparr>mt_proposalsReceived := wrap64 (mt_proposalsReceived m + 1)\<rparr>"

definition IncrDuplicateEpochDetected :: "Metrics \<Rightarrow> Metrics" where
  "IncrDuplicateEpochDetected m = m\<lparr>mt_duplicateEpochDetected := wrap64 (mt_duplicateEpochDetected m + 1)\<rparr>"

definition RecordEpochFinalization :: "int \<Rightarrow> Metrics \<Rightarrow> Metrics" where
  "RecordEpochFinalization d m = m\<lparr>mt_epochFinalizations := mt_epochFinalizations m @ [d]\<rparr>"

definition RecordExternalJoin :: "int \<Rightarrow> Metrics \<Rightarrow> Metrics" where
  "RecordExternalJoin d m = m\<lparr>mt_externalJoins := mt_externalJoins m @ [d]\<rparr>"

definition RecordTokenElection :: "int \<Rightarrow> Metrics \<Rightarrow> Metrics" where
  "RecordTokenElection d m = m\<lparr>mt_tokenElections := mt_tokenElections m @ [d]\<rparr>"

definition AddCommitBytes :: "int \<Rightarrow> Metrics \<Rightarrow> Metrics" where
  "AddCommitBytes n m = m\<lparr>mt_commitBytesTotal := wrap64 (mt_commitBytesTotal m + n)\<rparr>"

definition IncrPartitionsDetected :: "Metrics \<Rightarrow> Metrics" where
  "IncrPartitionsDetected m = m\<lparr>mt_partitionsDetected := wrap64 (mt_partitionsDetected m + 1)\<rparr>"

definition IncrForkHealingsAttempted :: "Metrics \<Rightarrow> Metrics" where
  "IncrForkHealingsAttempted m = m\<lparr>mt_forkHealingsAttempted := wrap64 (mt_forkHealingsAttempted m + 1)\<rparr>"

definition IncrForkHealingsSucceeded :: "Metrics \<Rightarrow> Metrics" where
  "IncrForkHealingsSucceeded m = m\<lparr>mt_forkHealingsSucceeded := wrap64 (mt_forkHealingsSucceeded m + 1)\<rparr>"

record MetricsSnapshot =
  CommitsIssued :: int
  ProposalsReceived :: int
  DuplicateEpochDetected :: int
  EpochFinalizations :: "int list"
  ExternalJoins :: "int list"
  TokenElections :: "int list"
  CommitBytesTotal :: int
  PartitionsDetected :: int
  ForkHealingsAttempted :: int
  ForkHealingsSucceeded :: int

definition Snapshot :: "Metrics \<Rightarrow> MetricsSnapshot" where
  "Snapshot m =
    \<lparr>CommitsIssued = mt_commitsIssued m, ProposalsReceived = mt_proposalsReceived m,
     DuplicateEpochDetected = mt_duplicateEpochDetected m,
     EpochFinalizations = mt_epochFinalizations m, ExternalJoins = mt_externalJoins m,
     TokenElections = mt_tokenElections m, CommitBytesTotal = mt_commitBytesTotal m,
     PartitionsDetected = mt_partitionsDetected m, ForkHealingsAttempted = mt_forkHealingsAttempted m,
     ForkHealingsSucceeded = mt_forkHealingsSucceeded m\<rparr>"

definition Reset_metrics :: "Metrics \<Rightarrow> Metrics" where
  "Reset_metrics m =
    m\<lparr>mt_commitsIssued := 0, mt_proposalsReceived := 0, mt_duplicateEpochDetected := 0,
      mt_epochFinalizations := [], mt_externalJoins := [], mt_tokenElections := [],
      mt_commitBytesTotal := 0, mt_partitionsDetected := 0, mt_forkHealingsAttempted := 0,
      mt_forkHealingsSucceeded := 0\<rparr>"

section \<open>What a snapshot counts\<close>

datatype metric_op = CommitIssued | ProposalReceived | DuplicateEpoch | EpochFinalization int
  | ExternalJoinTook int | TokenElection int | CommitBytes int | PartitionDetected
  | HealAttempted | HealSucceeded | MetricsReset

fun metric_step :: "metric_op \<Rightarrow> Metrics \<Rightarrow> Metrics" where
  "metric_step CommitIssued m = IncrCommitsIssued m"
| "metric_step ProposalReceived m = IncrProposalsReceived m"
| "metric_step DuplicateEpoch m = IncrDuplicateEpochDetected m"
| "metric_step (EpochFinalization d) m = RecordEpochFinalization d m"
| "metric_step (ExternalJoinTook d) m = RecordExternalJoin d m"
| "metric_step (TokenElection d) m = RecordTokenElection d m"
| "metric_step (CommitBytes n) m = AddCommitBytes n m"
| "metric_step PartitionDetected m = IncrPartitionsDetected m"
| "metric_step HealAttempted m = IncrForkHealingsAttempted m"
| "metric_step HealSucceeded m = IncrForkHealingsSucceeded m"
| "metric_step MetricsReset m = Reset_metrics m"

definition since_reset :: "metric_op list \<Rightarrow> metric_op list" where
  "since_reset ops = rev (takeWhile (\<lambda>q. q \<noteq> MetricsReset) (rev ops))"

definition calls :: "metric_op \<Rightarrow> metric_op list \<Rightarrow> int" where
  "calls q ops = int (length (filter (\<lambda>p. p = q) ops))"

definition report_of :: "metric_op list \<Rightarrow> MetricsSnapshot" where
  "report_of ops =
    \<lparr>CommitsIssued = wrap64 (calls CommitIssued ops), ProposalsReceived = wrap64 (calls ProposalReceived ops),
     DuplicateEpochDetected = wrap64 (calls DuplicateEpoch ops),
     EpochFinalizations = [d. EpochFinalization d \<leftarrow> ops], ExternalJoins = [d. ExternalJoinTook d \<leftarrow> ops],
     TokenElections = [d. TokenElection d \<leftarrow> ops],
     CommitBytesTotal = wrap64 (sum_list [n. CommitBytes n \<leftarrow> ops]),
     PartitionsDetected = wrap64 (calls PartitionDetected ops),
     ForkHealingsAttempted = wrap64 (calls HealAttempted ops),
     ForkHealingsSucceeded = wrap64 (calls HealSucceeded ops)\<rparr>"

lemmas metric_defs =
  IncrCommitsIssued_def IncrProposalsReceived_def IncrDuplicateEpochDetected_def RecordEpochFinalization_def
  RecordExternalJoin_def RecordTokenElection_def AddCommitBytes_def IncrPartitionsDetected_def
  IncrForkHealingsAttempted_def IncrForkHealingsSucceeded_def Reset_metrics_def

lemma wrap64_add: "wrap64 (wrap64 a + b) = wrap64 (a + b)"
proof -
  have "wrap64 a + b + 2 ^ 63 = (a + 2 ^ 63) mod 2 ^ 64 + b" by (simp add: wrap64_def)
  also have "(\<dots>) mod 2 ^ 64 = (a + 2 ^ 63 + b) mod 2 ^ 64" by (rule mod_add_left_eq)
  also have "a + 2 ^ 63 + b = a + b + 2 ^ 63" by simp
  finally show ?thesis by (simp only: wrap64_def)
qed

lemma since_reset_snoc: "since_reset (ops @ [q]) = (if q = MetricsReset then [] else since_reset ops @ [q])"
  by (simp add: since_reset_def)

lemma calls_snoc: "calls q (ops @ [p]) = calls q ops + (if p = q then 1 else 0)"
  by (simp add: calls_def)

lemma wrap64_0 [simp]: "wrap64 0 = 0"
  by (simp add: wrap64_def)

lemma report_snoc:
  "Snapshot m = report_of xs \<Longrightarrow> q \<noteq> MetricsReset \<Longrightarrow> Snapshot (metric_step q m) = report_of (xs @ [q])"
  by (cases q) (simp_all add: Snapshot_def report_of_def metric_defs calls_snoc wrap64_add)

lemma report_reset: "Snapshot (Reset_metrics m) = report_of []"
  by (simp add: Snapshot_def report_of_def Reset_metrics_def calls_def)

text \<open>
  After any sequence of calls on a fresh collector, a snapshot reports exactly the calls made since the
  last \<^verbatim>\<open>Reset\<close>: each counter their number and the byte total their sum, reduced to 64 bits, and each
  list of durations the recorded ones in order.
\<close>

theorem metrics_snapshot_spec: "Snapshot (fold metric_step ops NewMetrics) = report_of (since_reset ops)"
proof (induction ops rule: rev_induct)
  case Nil
  then show ?case by (simp add: Snapshot_def report_of_def NewMetrics_def since_reset_def calls_def)
next
  case (snoc q ops)
  then show ?case by (cases "q = MetricsReset") (simp_all add: since_reset_snoc report_snoc report_reset)
qed

end
