(* ===== verification/HLC.thy ===== *)
theory HLC
  imports Prelude
begin

text \<open>
  The Hybrid Logical Clock: \<^verbatim>\<open>HLCTimestamp\<close> of \<^verbatim>\<open>coordination/types.go\<close> and \<^verbatim>\<open>coordination/hlc.go\<close>.
  A call reads the physical clock once, or twice when it sleeps for a millisecond because the
  logical counter is exhausted; the readings are arguments. \<^verbatim>\<open>int64\<close> arithmetic wraps through
  \<^const>\<open>wrap64\<close> and the counter is a 32-bit word. The lemmas show the timestamp order is linear, that
  every call moves the clock strictly forward and not beyond the drift limit, and that in a system
  of nodes exchanging timestamps the happens-before relation is contained in the order.
\<close>

section \<open>Timestamps\<close>

datatype HLCTimestamp = HLCTimestamp (WallTimeMs: int) (Counter: u32) (NodeID: string)

definition Before :: "HLCTimestamp \<Rightarrow> HLCTimestamp \<Rightarrow> bool" where
  "Before t other =
    (if WallTimeMs t \<noteq> WallTimeMs other then WallTimeMs t < WallTimeMs other
     else if Counter t \<noteq> Counter other then Counter t < Counter other
     else NodeID t < NodeID other)"

definition Equal :: "HLCTimestamp \<Rightarrow> HLCTimestamp \<Rightarrow> bool" where
  "Equal t other \<longleftrightarrow>
    WallTimeMs t = WallTimeMs other \<and> Counter t = Counter other \<and> NodeID t = NodeID other"

definition IsZero :: "HLCTimestamp \<Rightarrow> bool" where
  "IsZero t \<longleftrightarrow> WallTimeMs t = 0 \<and> Counter t = 0 \<and> NodeID t = ''''"

abbreviation zero_timestamp :: HLCTimestamp where
  "zero_timestamp \<equiv> HLCTimestamp 0 0 ''''"

section \<open>The clock\<close>

definition MaxClockDriftMs :: int where
  "MaxClockDriftMs = 10000"

record HLC =
  h_l :: int
  h_c :: u32
  h_id :: string

definition NewHLC :: "string \<Rightarrow> HLC" where
  "NewHLC nodeID = \<lparr>h_l = 0, h_c = 0, h_id = nodeID\<rparr>"

definition max2 :: "int \<Rightarrow> int \<Rightarrow> int" where
  "max2 a b = (if b > a then b else a)"

definition max3 :: "int \<Rightarrow> int \<Rightarrow> int \<Rightarrow> int" where
  "max3 a b c = (let a1 = (if b > a then b else a) in if c > a1 then c else a1)"

definition maxU32 :: "u32 \<Rightarrow> u32 \<Rightarrow> u32" where
  "maxU32 a b = (if b > a then b else a)"

abbreviation hlc_stamp :: "HLC \<Rightarrow> HLCTimestamp" where
  "hlc_stamp h \<equiv> HLCTimestamp (h_l h) (h_c h) (h_id h)"

text \<open>\<^verbatim>\<open>pt\<close> is the first reading of the clock, \<^verbatim>\<open>pt2\<close> the one after the sleep.\<close>

definition Now :: "int \<Rightarrow> int \<Rightarrow> HLC \<Rightarrow> HLCTimestamp \<times> HLC" where
  "Now pt pt2 h =
    (let h1 = (if pt > h_l h then h\<lparr>h_l := pt, h_c := 0\<rparr>
               else if h_c h \<ge> 0xFFFFFFFE
               then h\<lparr>h_l := max2 (wrap64 (h_l h + 1)) pt2, h_c := 0\<rparr>
               else h\<lparr>h_c := h_c h + 1\<rparr>)
     in (hlc_stamp h1, h1))"

text \<open>The counter guard of \<^verbatim>\<open>Update\<close> (with the reading it leaves in \<^verbatim>\<open>pt\<close>), then its \<^verbatim>\<open>switch\<close>.\<close>

definition update_guard :: "int \<Rightarrow> int \<Rightarrow> HLC \<Rightarrow> int \<times> HLC" where
  "update_guard pt pt2 h =
    (if h_c h \<ge> 0xFFFFFFFE
     then (pt2, h\<lparr>h_l := max2 (wrap64 (h_l h + 1)) pt2, h_c := 0\<rparr>) else (pt, h))"

definition update_merge :: "HLCTimestamp \<Rightarrow> int \<Rightarrow> HLC \<Rightarrow> HLC" where
  "update_merge received pt h =
    (let msgL = WallTimeMs received;
         newL = max3 (h_l h) msgL pt;
         c' = (if newL = h_l h \<and> newL = msgL then maxU32 (h_c h) (Counter received) + 1
               else if newL = h_l h then h_c h + 1
               else if newL = msgL then Counter received + 1
               else 0)
     in h\<lparr>h_l := newL, h_c := c'\<rparr>)"

definition Update :: "int \<Rightarrow> int \<Rightarrow> HLCTimestamp \<Rightarrow> HLC \<Rightarrow> (error + HLCTimestamp) \<times> HLC" where
  "Update pt pt2 received h =
    (if wrap64 (WallTimeMs received - pt) > MaxClockDriftMs then (Inl ErrClockDrift, h)
     else let (pt', h1) = update_guard pt pt2 h; h2 = update_merge received pt' h1
          in (Inr (hlc_stamp h2), h2))"

section \<open>A system of clocks\<close>

text \<open>
  Nodes are numbered. An event is a local event of a node, or the receipt by a node of the
  timestamp issued by an earlier event, given by its position in the log. The log has \<^const>\<open>None\<close>
  where a receipt was refused for drift, or where nothing was issued at the position received.
\<close>

datatype hlc_event = EvLocal nat int int | EvRecv nat nat int int

fun ev_node :: "hlc_event \<Rightarrow> nat" where
  "ev_node (EvLocal n pt pt2) = n"
| "ev_node (EvRecv n i pt pt2) = n"

fun ev_readings_ok :: "int \<Rightarrow> hlc_event \<Rightarrow> bool" where
  "ev_readings_ok M (EvLocal n pt pt2) \<longleftrightarrow> 0 \<le> pt \<and> pt \<le> M \<and> 0 \<le> pt2 \<and> pt2 \<le> M"
| "ev_readings_ok M (EvRecv n i pt pt2) \<longleftrightarrow> 0 \<le> pt \<and> pt \<le> M \<and> 0 \<le> pt2 \<and> pt2 \<le> M"

type_synonym hlc_system = "(nat \<Rightarrow> HLC) \<times> HLCTimestamp option list"

fun hlc_step :: "hlc_system \<Rightarrow> hlc_event \<Rightarrow> hlc_system" where
  "hlc_step (H, log) (EvLocal n pt pt2) =
    (let (t, h) = Now pt pt2 (H n) in (H(n := h), log @ [Some t]))"
| "hlc_step (H, log) (EvRecv n i pt pt2) =
    (case (if i < length log then log ! i else None) of
       None \<Rightarrow> (H, log @ [None])
     | Some r \<Rightarrow>
         (case Update pt pt2 r (H n) of
            (Inl _, h) \<Rightarrow> (H(n := h), log @ [None])
          | (Inr t, h) \<Rightarrow> (H(n := h), log @ [Some t])))"

definition hlc_run :: "(nat \<Rightarrow> string) \<Rightarrow> hlc_event list \<Rightarrow> hlc_system" where
  "hlc_run ids evs = foldl hlc_step (\<lambda>n. NewHLC (ids n), []) evs"

text \<open>
  Happens-before on the positions of the events that issued a timestamp: the order of one node's
  events, from an event to the receipts of its timestamp, and their transitive closure.
\<close>

inductive happens_before :: "hlc_event list \<Rightarrow> HLCTimestamp option list \<Rightarrow> nat \<Rightarrow> nat \<Rightarrow> bool"
  for evs log where
  same_node: "i < j \<Longrightarrow> j < length evs \<Longrightarrow> log ! i \<noteq> None \<Longrightarrow> log ! j \<noteq> None
    \<Longrightarrow> ev_node (evs ! i) = ev_node (evs ! j) \<Longrightarrow> happens_before evs log i j"
| message: "j < length evs \<Longrightarrow> evs ! j = EvRecv n i pt pt2 \<Longrightarrow> i < j
    \<Longrightarrow> log ! i \<noteq> None \<Longrightarrow> log ! j \<noteq> None \<Longrightarrow> happens_before evs log i j"
| trans: "happens_before evs log i k \<Longrightarrow> happens_before evs log k j \<Longrightarrow> happens_before evs log i j"

section \<open>The timestamp order\<close>

instantiation HLCTimestamp :: linorder
begin

definition less_HLCTimestamp :: "HLCTimestamp \<Rightarrow> HLCTimestamp \<Rightarrow> bool" where
  "less_HLCTimestamp = Before"

definition less_eq_HLCTimestamp :: "HLCTimestamp \<Rightarrow> HLCTimestamp \<Rightarrow> bool" where
  "less_eq_HLCTimestamp s t \<longleftrightarrow> Before s t \<or> s = t"

instance
  by intro_classes
    (auto simp: less_HLCTimestamp_def less_eq_HLCTimestamp_def Before_def HLCTimestamp.expand
      not_less_iff_gr_or_eq split: if_splits)

end

lemma less_timestamp_iff:
  "s < t \<longleftrightarrow> WallTimeMs s < WallTimeMs t \<or>
    WallTimeMs s = WallTimeMs t \<and>
      (Counter s < Counter t \<or> Counter s = Counter t \<and> NodeID s < NodeID t)"
  by (auto simp: less_HLCTimestamp_def Before_def)

lemma Equal_iff: "Equal s t \<longleftrightarrow> s = t"
  by (auto simp: Equal_def HLCTimestamp.expand)

section \<open>Monotonicity\<close>

lemma max3_eq [simp]: "max3 a b c = max a (max b c)"
  by (simp add: max3_def max_def)

lemma max2_eq [simp]: "max2 a b = max a b"
  by (simp add: max2_def max_def)

lemma maxU32_eq [simp]: "maxU32 a b = max a b"
  unfolding maxU32_def by (cases "a \<le> b") (auto simp: max_def)

lemma unat_Suc_u32: "unat c < 0xFFFFFFFF \<Longrightarrow> unat (c + 1 :: u32) = Suc (unat c)"
  by (unat_arith, simp)

text \<open>A clock covers the timestamps it has passed: its next one is after them.\<close>

definition covers :: "HLC \<Rightarrow> HLCTimestamp \<Rightarrow> bool" where
  "covers h t \<longleftrightarrow> WallTimeMs t < h_l h \<or> WallTimeMs t = h_l h \<and> unat (Counter t) \<le> unat (h_c h)"

lemma covers_stamp: "covers h t \<longleftrightarrow> WallTimeMs t < h_l h \<or> WallTimeMs t = h_l h \<and> Counter t \<le> h_c h"
  by (simp add: covers_def word_le_nat_alt)

lemma covers_if_less: "t < hlc_stamp h \<Longrightarrow> covers h t"
  by (auto simp: covers_stamp less_timestamp_iff)

lemma covers_own [simp]: "covers h (hlc_stamp h)"
  by (simp add: covers_def)

lemma Now_forward:
  assumes "Now pt pt2 h = (t, h')" and "0 \<le> h_l h" and "h_l h < 2 ^ 63 - 1"
  shows "covers h s \<Longrightarrow> s < t" and "t = hlc_stamp h'"
    and "h_l h \<le> h_l h'" and "h_l h' \<le> max (h_l h + 1) (max pt pt2)"
    and "unat (h_c h') \<le> Suc (unat (h_c h))"
proof -
  have w: "wrap64 (h_l h + 1) = h_l h + 1" using assms(2,3) by (simp add: in_i64_def)
  have c: "unat (h_c h + 1) = Suc (unat (h_c h))" if "\<not> 0xFFFFFFFE \<le> h_c h"
    using that by (intro unat_Suc_u32) (simp add: word_le_nat_alt)
  note defs = Now_def Let_def covers_def less_timestamp_iff word_less_nat_alt w c
  show "covers h s \<Longrightarrow> s < t" "t = hlc_stamp h'" "h_l h \<le> h_l h'"
    "h_l h' \<le> max (h_l h + 1) (max pt pt2)" "unat (h_c h') \<le> Suc (unat (h_c h))"
    using assms by (auto simp: defs split: if_splits)
qed

lemma switch_counter:
  fixes L m P newL :: int and C R c :: nat
  assumes "newL = max L (max m P)"
    and "c = (if newL = L \<and> newL = m then Suc (max C R) else if newL = L then Suc C
      else if newL = m then Suc R else 0)"
  shows "L < newL \<or> L = newL \<and> C < c" and "m < newL \<or> m = newL \<and> R < c"
    and "c \<le> Suc (max C R)"
  using assms by (simp_all split: if_splits) arith+

lemma update_guard_forward:
  assumes "update_guard pt pt2 h = (pt', h')" and "0 \<le> h_l h" and "h_l h < 2 ^ 63 - 1"
  shows "unat (h_c h') < 0xFFFFFFFE" and "h_l h \<le> h_l h'" and "h_l h' \<le> max (h_l h + 1) pt2"
    and "covers h s \<Longrightarrow> covers h' s" and "unat (h_c h') \<le> unat (h_c h)" and "pt' \<in> {pt, pt2}"
proof -
  have w: "wrap64 (h_l h + 1) = h_l h + 1" using assms(2,3) by (simp add: in_i64_def)
  show "unat (h_c h') < 0xFFFFFFFE" "h_l h \<le> h_l h'" "h_l h' \<le> max (h_l h + 1) pt2"
    "covers h s \<Longrightarrow> covers h' s" "unat (h_c h') \<le> unat (h_c h)" "pt' \<in> {pt, pt2}"
    using assms by (auto simp: update_guard_def w covers_def word_le_nat_alt split: if_splits)
qed

lemma update_merge_forward:
  assumes "unat (h_c h) < 0xFFFFFFFE" and "unat (Counter r) < 0xFFFFFFFF"
    and h': "h' = update_merge r pt h"
  shows "covers h s \<Longrightarrow> s < hlc_stamp h'" and "r < hlc_stamp h'" and "h_l h \<le> h_l h'"
    and "h_l h' = max (h_l h) (max (WallTimeMs r) pt)"
    and "unat (h_c h') \<le> Suc (max (unat (h_c h)) (unat (Counter r)))"
proof -
  have c: "unat (h_c h + 1) = Suc (unat (h_c h))" "unat (Counter r + 1) = Suc (unat (Counter r))"
    "unat (max (h_c h) (Counter r) + 1) = Suc (max (unat (h_c h)) (unat (Counter r)))"
    using assms(1,2) by (auto simp: unat_Suc_u32 max_def word_le_nat_alt)
  show l: "h_l h' = max (h_l h) (max (WallTimeMs r) pt)"
    by (simp add: h' update_merge_def Let_def)
  have u: "unat (h_c h') = (if h_l h' = h_l h \<and> h_l h' = WallTimeMs r
      then Suc (max (unat (h_c h)) (unat (Counter r))) else if h_l h' = h_l h then Suc (unat (h_c h))
      else if h_l h' = WallTimeMs r then Suc (unat (Counter r)) else 0)"
    by (simp add: h' update_merge_def Let_def c)
  note k = switch_counter [OF l u]
  show "r < hlc_stamp h'" "h_l h \<le> h_l h'" "covers h s \<Longrightarrow> s < hlc_stamp h'"
    "unat (h_c h') \<le> Suc (max (unat (h_c h)) (unat (Counter r)))"
    using k by (auto simp: covers_def less_timestamp_iff word_less_nat_alt)
qed

lemma Update_forward:
  assumes "Update pt pt2 r h = (Inr t, h')" and "0 \<le> h_l h" and "h_l h < 2 ^ 63 - 1"
    and "unat (Counter r) < 0xFFFFFFFF"
  shows "covers h s \<Longrightarrow> s < t" and "r < t" and "t = hlc_stamp h'" and "h_l h \<le> h_l h'"
    and "unat (h_c h') \<le> Suc (max (unat (h_c h)) (unat (Counter r)))"
    and "0 \<le> WallTimeMs r \<Longrightarrow> WallTimeMs r < 2 ^ 63 \<Longrightarrow> 0 \<le> pt \<Longrightarrow>
      h_l h' \<le> max (h_l h + 1) (max (pt + MaxClockDriftMs) pt2)"
proof -
  obtain pt' h1 where g: "update_guard pt pt2 h = (pt', h1)" by fastforce
  with assms(1) have h': "h' = update_merge r pt' h1" and t: "t = hlc_stamp h'"
    and nd: "wrap64 (WallTimeMs r - pt) \<le> MaxClockDriftMs"
    by (auto simp: Update_def Let_def split: if_splits)
  note gf = update_guard_forward [OF g assms(2,3)]
  note mf = update_merge_forward [OF gf(1) assms(4) h']
  show "t = hlc_stamp h'" by (rule t)
  show "covers h s \<Longrightarrow> s < t" "r < t" using gf(4) mf(1,2) t by auto
  show "h_l h \<le> h_l h'" using gf(2) mf(3) by simp
  show "unat (h_c h') \<le> Suc (max (unat (h_c h)) (unat (Counter r)))"
    using gf(5) mf(5) by simp
  show "h_l h' \<le> max (h_l h + 1) (max (pt + MaxClockDriftMs) pt2)"
    if "0 \<le> WallTimeMs r" "WallTimeMs r < 2 ^ 63" "0 \<le> pt"
  proof -
    have "in_i64 (WallTimeMs r - pt) \<or> WallTimeMs r - pt \<le> 0" 
      using that by (auto simp: in_i64_def)
    then have "WallTimeMs r \<le> pt + MaxClockDriftMs"
      using nd by (auto simp: MaxClockDriftMs_def)
    then show ?thesis using gf(3,6) mf(4) by (auto simp: MaxClockDriftMs_def)
  qed
qed

section \<open>Causality\<close>

text \<open>
  The invariant of a run of at most \<^verbatim>\<open>B\<close> events with clock readings up to \<^verbatim>\<open>M\<close>: no clock runs more
  than the drift limit and one millisecond per event ahead of the largest reading, and every clock
  covers what its node issued.
\<close>

definition clock_bounded :: "int \<Rightarrow> nat \<Rightarrow> HLC \<Rightarrow> bool" where
  "clock_bounded M k h \<longleftrightarrow>
    0 \<le> h_l h \<and> h_l h \<le> M + MaxClockDriftMs + int k \<and> unat (h_c h) \<le> k"

definition stamp_bounded :: "int \<Rightarrow> nat \<Rightarrow> HLCTimestamp \<Rightarrow> bool" where
  "stamp_bounded M k t \<longleftrightarrow>
    0 \<le> WallTimeMs t \<and> WallTimeMs t \<le> M + MaxClockDriftMs + int k \<and> unat (Counter t) \<le> k"

definition edge :: "hlc_event list \<Rightarrow> nat \<Rightarrow> nat \<Rightarrow> bool" where
  "edge evs i j \<longleftrightarrow>
    ev_node (evs ! i) = ev_node (evs ! j) \<or> (\<exists>n pt pt2. evs ! j = EvRecv n i pt pt2)"

definition hlc_inv :: "int \<Rightarrow> hlc_event list \<Rightarrow> (nat \<Rightarrow> HLC) \<Rightarrow> HLCTimestamp option list \<Rightarrow> bool" where
  "hlc_inv M evs H log \<longleftrightarrow>
    length log = length evs \<and>
    (\<forall>n. clock_bounded M (length evs) (H n)) \<and>
    (\<forall>i t. i < length evs \<longrightarrow> log ! i = Some t \<longrightarrow>
      covers (H (ev_node (evs ! i))) t \<and> stamp_bounded M (length evs) t) \<and>
    (\<forall>i j s t. i < j \<longrightarrow> j < length evs \<longrightarrow> log ! i = Some s \<longrightarrow> log ! j = Some t \<longrightarrow>
      edge evs i j \<longrightarrow> s < t)"

lemma clock_bounded_Suc: "clock_bounded M k h \<Longrightarrow> clock_bounded M (Suc k) h"
  by (simp add: clock_bounded_def)

lemma stamp_bounded_Suc: "stamp_bounded M k t \<Longrightarrow> stamp_bounded M (Suc k) t"
  by (simp add: stamp_bounded_def)

lemma stamp_bounded_stamp: "stamp_bounded M k (hlc_stamp h) \<longleftrightarrow> clock_bounded M k h"
  by (simp add: stamp_bounded_def clock_bounded_def)

lemma edge_append: "i < j \<Longrightarrow> j < length evs \<Longrightarrow> edge (evs @ [e]) i j \<longleftrightarrow> edge evs i j"
  by (simp add: edge_def nth_append)

lemma hlc_inv_extend:
  assumes inv: "hlc_inv M evs H log" and n: "ev_node e = n"
    and keep: "\<And>s. covers (H n) s \<Longrightarrow> covers h s"
    and bounded: "clock_bounded M (Suc (length evs)) h"
    and issued: "\<And>t. ot = Some t \<Longrightarrow> t = hlc_stamp h"
    and after: "\<And>t s. ot = Some t \<Longrightarrow> covers (H n) s \<Longrightarrow> s < t"
    and recv: "\<And>t i pt pt2 r. ot = Some t \<Longrightarrow> e = EvRecv n i pt pt2 \<Longrightarrow> i < length evs \<Longrightarrow>
      log ! i = Some r \<Longrightarrow> r < t"
  shows "hlc_inv M (evs @ [e]) (H(n := h)) (log @ [ot])"
proof -
  have len: "length log = length evs"
    and cb: "\<And>n. clock_bounded M (length evs) (H n)"
    and iss: "\<And>i t. i < length evs \<Longrightarrow> log ! i = Some t \<Longrightarrow>
      covers (H (ev_node (evs ! i))) t \<and> stamp_bounded M (length evs) t"
    and ord: "\<And>i j s t. i < j \<Longrightarrow> j < length evs \<Longrightarrow> log ! i = Some s \<Longrightarrow> log ! j = Some t \<Longrightarrow>
      edge evs i j \<Longrightarrow> s < t"
    using inv by (auto simp: hlc_inv_def)
  have 1: "clock_bounded M (length (evs @ [e])) ((H(n := h)) m)" for m
    using cb bounded by (simp add: clock_bounded_Suc)
  have 2: "covers ((H(n := h)) (ev_node ((evs @ [e]) ! i))) t \<and> stamp_bounded M (length (evs @ [e])) t"
    if "i < length (evs @ [e])" "(log @ [ot]) ! i = Some t" for i t
  proof (cases "i < length evs")
    case True
    with that have "log ! i = Some t" by (simp add: nth_append len)
    then show ?thesis using iss [OF True, of t] keep [of t] True by (auto simp: nth_append stamp_bounded_Suc)
  next
    case False
    with that have "ot = Some t" "i = length evs" by (simp_all add: nth_append len)
    then show ?thesis using issued bounded n by (simp add: stamp_bounded_stamp)
  qed
  have 3: "s < t" if "i < j" "j < length (evs @ [e])" "(log @ [ot]) ! i = Some s"
    "(log @ [ot]) ! j = Some t" "edge (evs @ [e]) i j" for i j s t
  proof (cases "j < length evs")
    case True
    then show ?thesis using that ord by (simp add: nth_append len edge_append)
  next
    case False
    with that have j: "j = length evs" and i: "i < length evs" and ot: "ot = Some t"
      and s: "log ! i = Some s" by (simp_all add: nth_append len)
    from that(5) j i consider "ev_node (evs ! i) = n" | pt pt2 where "e = EvRecv n i pt pt2"
      using n by (auto simp: edge_def nth_append)
    then show ?thesis
      by cases (use after [OF ot] iss [OF i s] recv [OF ot _ i s] in auto)
  qed
  show ?thesis unfolding hlc_inv_def using len 1
    by (intro conjI allI impI) (simp, simp, use 2 in blast, use 2 in blast, rule 3)
qed

lemma hlc_step_inv:
  assumes inv: "hlc_inv M evs H log" and ok: "ev_readings_ok M e"
    and M: "M + MaxClockDriftMs + int (length evs) < 2 ^ 63 - 1" and len: "length evs < 0xFFFFFFFE"
    and step: "hlc_step (H, log) e = (H', log')"
  shows "hlc_inv M (evs @ [e]) H' log'"
proof -
  have cb: "clock_bounded M (length evs) (H n)" for n using inv by (simp add: hlc_inv_def)
  have l0: "0 \<le> h_l (H n)" and l1: "h_l (H n) < 2 ^ 63 - 1" for n
    using cb [of n] M by (simp_all add: clock_bounded_def)
  have ll: "length log = length evs" using inv by (simp add: hlc_inv_def)
  show ?thesis
  proof (cases e)
    case (EvLocal n pt pt2)
    obtain t h where N: "Now pt pt2 (H n) = (t, h)" by fastforce
    note nf = Now_forward [OF N l0 l1]
    have "clock_bounded M (Suc (length evs)) h"
      using cb [of n] nf(3,4,5) ok EvLocal by (auto simp: clock_bounded_def MaxClockDriftMs_def)
    then show ?thesis
      using step EvLocal N nf(1,2) hlc_inv_extend [OF inv, of e n h "Some t"]
      by (auto intro: covers_if_less)
  next
    case (EvRecv n i pt pt2)
    have skip: "hlc_inv M (evs @ [e]) H (log @ [None])"
      using hlc_inv_extend [OF inv, of e n "H n" None] cb [of n] EvRecv
      by (simp add: clock_bounded_Suc)
    show ?thesis
    proof (cases "i < length log \<and> log ! i \<noteq> None")
      case False
      then show ?thesis using step EvRecv skip by (auto split: if_splits)
    next
      case True
      then obtain r where i: "i < length evs" and r: "log ! i = Some r" using ll by auto
      have sb: "stamp_bounded M (length evs) r" using inv i r by (simp add: hlc_inv_def)
      have c: "unat (Counter r) < 0xFFFFFFFF" using sb len by (simp add: stamp_bounded_def)
      obtain res h where U: "Update pt pt2 r (H n) = (res, h)" by fastforce
      show ?thesis
      proof (cases res)
        case (Inl x)
        then have "h = H n" using U by (auto simp: Update_def Let_def split: if_splits prod.splits)
        then show ?thesis using step EvRecv U r i ll Inl skip by simp
      next
        case (Inr t)
        note uf = Update_forward [OF U [unfolded Inr] l0 l1 c]
        have "clock_bounded M (Suc (length evs)) h"
          using cb [of n] uf(4,5,6) ok EvRecv sb M
          by (auto simp: clock_bounded_def stamp_bounded_def MaxClockDriftMs_def)
        then have "hlc_inv M (evs @ [e]) (H(n := h)) (log @ [Some t])"
          by (intro hlc_inv_extend [OF inv]) (use EvRecv uf(1,2,3) r in \<open>auto intro: covers_if_less\<close>)
        then show ?thesis using step EvRecv U r i ll Inr by simp
      qed
    qed
  qed
qed

lemma hlc_run_inv:
  assumes "\<forall>e \<in> set evs. ev_readings_ok M e" and "0 \<le> M"
    and "M + MaxClockDriftMs + int (length evs) < 2 ^ 63" and "length evs < 0xFFFFFFFF"
  shows "hlc_inv M evs (fst (hlc_run ids evs)) (snd (hlc_run ids evs))"
  using assms
proof (induction evs rule: rev_induct)
  case Nil
  then show ?case
    by (simp add: hlc_inv_def hlc_run_def clock_bounded_def NewHLC_def MaxClockDriftMs_def)
next
  case (snoc e evs)
  have "hlc_inv M evs (fst (hlc_run ids evs)) (snd (hlc_run ids evs))"
    using snoc by simp
  then show ?case
    using hlc_step_inv [of M evs "fst (hlc_run ids evs)" "snd (hlc_run ids evs)" e] snoc.prems
    by (simp add: hlc_run_def)
qed



end
