(* ===== verification/Config.thy ===== *)
theory Config
  imports Prelude
begin

text \<open>
  \<^verbatim>\<open>coordination/config.go\<close>: the coordinator's parameters, the retention windows derived from them,
  the two built-in configurations and \<^verbatim>\<open>Validate\<close>. A \<^verbatim>\<open>time.Duration\<close> is a number of nanoseconds.
\<close>

datatype MLSRetentionMode = RetentionStrictSecurity | RetentionBalanced | RetentionHighAvailability
  | RetentionOther string

record CoordinatorConfig =
  TokenHolderTimeout :: int
  HeartbeatInterval :: int
  AnnounceInterval :: int
  PeerDeadAfter :: int
  MaxBatchedProposals :: int
  KeyRotationInterval :: int
  ReplayThrottleMs :: int
  MetricsEnabled :: bool
  OfflineSyncEnabled :: bool
  EnvelopeLogTTL :: int
  EnvelopeLogMaxPerGroup :: int
  BatchingDelay :: int
  ViewBootstrapGrace :: int
  MLSOperationTimeout :: int
  ApplicationAckTimeout :: int
  ApplicationDirectRetryLimit :: int
  RetentionMode :: MLSRetentionMode
  MaxPastEpochsOverride :: u32

definition GetMaxPastEpochs :: "CoordinatorConfig \<Rightarrow> u32" where
  "GetMaxPastEpochs c =
    (if MaxPastEpochsOverride c > 0 then MaxPastEpochsOverride c
     else case RetentionMode c of
         RetentionStrictSecurity \<Rightarrow> 0
       | RetentionHighAvailability \<Rightarrow> 10
       | RetentionBalanced \<Rightarrow> 3
       | RetentionOther _ \<Rightarrow> 3)"

definition GetMaxPastAgeSeconds :: "CoordinatorConfig \<Rightarrow> int" where
  "GetMaxPastAgeSeconds c =
    (case RetentionMode c of
         RetentionStrictSecurity \<Rightarrow> 0
       | RetentionHighAvailability \<Rightarrow> 3600
       | RetentionBalanced \<Rightarrow> 300
       | RetentionOther _ \<Rightarrow> 300)"

abbreviation millisecond :: int where "millisecond \<equiv> 1000000"
abbreviation second :: int where "second \<equiv> 1000000000"

definition DefaultConfig :: CoordinatorConfig where
  "DefaultConfig = \<lparr>
    TokenHolderTimeout = 4 * second,
    HeartbeatInterval = 5 * second,
    AnnounceInterval = 10 * second,
    PeerDeadAfter = 3,
    MaxBatchedProposals = 10,
    KeyRotationInterval = 5 * 60 * second,
    ReplayThrottleMs = 100,
    MetricsEnabled = True,
    OfflineSyncEnabled = True,
    EnvelopeLogTTL = 7 * 24 * 3600 * second,
    EnvelopeLogMaxPerGroup = 10000,
    BatchingDelay = 1 * second,
    ViewBootstrapGrace = 2 * second,
    MLSOperationTimeout = 20 * second,
    ApplicationAckTimeout = 10 * second,
    ApplicationDirectRetryLimit = 2,
    RetentionMode = RetentionBalanced,
    MaxPastEpochsOverride = 0\<rparr>"

definition TestConfig :: CoordinatorConfig where
  "TestConfig = \<lparr>
    TokenHolderTimeout = 100 * millisecond,
    HeartbeatInterval = 50 * millisecond,
    AnnounceInterval = 0,
    PeerDeadAfter = 3,
    MaxBatchedProposals = 10,
    KeyRotationInterval = 0,
    ReplayThrottleMs = 0,
    MetricsEnabled = True,
    OfflineSyncEnabled = True,
    EnvelopeLogTTL = 7 * 24 * 3600 * second,
    EnvelopeLogMaxPerGroup = 10000,
    BatchingDelay = 0,
    ViewBootstrapGrace = 0,
    MLSOperationTimeout = 250 * millisecond,
    ApplicationAckTimeout = 50 * millisecond,
    ApplicationDirectRetryLimit = 2,
    RetentionMode = RetentionBalanced,
    MaxPastEpochsOverride = 0\<rparr>"

text \<open>The first violated bound is the error; its text names the field.\<close>

definition Validate :: "CoordinatorConfig \<Rightarrow> error + unit" where
  "Validate c =
    (if TokenHolderTimeout c \<le> 0 then Inl (ErrInvalidConfig ''TokenHolderTimeout'')
     else if HeartbeatInterval c \<le> 0 then Inl (ErrInvalidConfig ''HeartbeatInterval'')
     else if PeerDeadAfter c < 1 then Inl (ErrInvalidConfig ''PeerDeadAfter'')
     else if MaxBatchedProposals c < 1 then Inl (ErrInvalidConfig ''MaxBatchedProposals'')
     else if KeyRotationInterval c < 0 then Inl (ErrInvalidConfig ''KeyRotationInterval'')
     else if AnnounceInterval c < 0 then Inl (ErrInvalidConfig ''AnnounceInterval'')
     else if ReplayThrottleMs c < 0 then Inl (ErrInvalidConfig ''ReplayThrottleMs'')
     else if EnvelopeLogTTL c < 0 then Inl (ErrInvalidConfig ''EnvelopeLogTTL'')
     else if EnvelopeLogMaxPerGroup c < 1 then Inl (ErrInvalidConfig ''EnvelopeLogMaxPerGroup'')
     else if BatchingDelay c < 0 then Inl (ErrInvalidConfig ''BatchingDelay'')
     else if ViewBootstrapGrace c < 0 then Inl (ErrInvalidConfig ''ViewBootstrapGrace'')
     else if MLSOperationTimeout c \<le> 0 then Inl (ErrInvalidConfig ''MLSOperationTimeout'')
     else if ApplicationAckTimeout c \<le> 0 then Inl (ErrInvalidConfig ''ApplicationAckTimeout'')
     else if ApplicationDirectRetryLimit c < 0 then Inl (ErrInvalidConfig ''ApplicationDirectRetryLimit'')
     else Inr ())"

lemma Validate_positive:
  assumes "Validate c = Inr ()"
  shows "0 < TokenHolderTimeout c" and "0 < HeartbeatInterval c" and "1 \<le> PeerDeadAfter c"
    and "1 \<le> MaxBatchedProposals c" and "0 \<le> BatchingDelay c" and "0 \<le> ViewBootstrapGrace c"
    and "1 \<le> EnvelopeLogMaxPerGroup c" and "0 \<le> EnvelopeLogTTL c"
    and "0 < ApplicationAckTimeout c" and "0 \<le> ApplicationDirectRetryLimit c"
  using assms by (simp_all add: Validate_def split: if_splits)

lemma Validate_Default: "Validate DefaultConfig = Inr ()"
  by (simp add: Validate_def DefaultConfig_def)

lemma Validate_Test: "Validate TestConfig = Inr ()"
  by (simp add: Validate_def TestConfig_def)

end
