(* ===== verification/ActiveView.thy ===== *)
theory ActiveView
  imports Config
begin

text \<open>
  \<^verbatim>\<open>coordination/active_view.go\<close>: the set of peers seen alive. An operation that may call the
  \<^verbatim>\<open>onChange\<close> callback returns the argument of that call, if it is made, for the caller to run after
  the view's lock is released. The lemmas show that the local node is never evicted, that a silent
  peer is evicted at its \<^verbatim>\<open>PeerDeadAfter\<close>-th check and not before, and that the member list is a
  function of the member set alone.
\<close>

section \<open>Definitions\<close>

record ActiveView =
  av_cfg :: CoordinatorConfig
  av_localID :: peer_id
  av_members :: "(peer_id, int) gomap"  \<comment> \<open>\<^verbatim>\<open>memberState.missedChecks\<close>\<close>

definition NewActiveView :: "CoordinatorConfig \<Rightarrow> peer_id \<Rightarrow> ActiveView" where
  "NewActiveView cfg localID = \<lparr>av_cfg = cfg, av_localID = localID, av_members = [(localID, 0)]\<rparr>"

definition sortedMembersLocked :: "ActiveView \<Rightarrow> peer_id list" where
  "sortedMembersLocked av = SliceStable (<) (gkeys (av_members av))"

definition seed_one :: "peer_id \<Rightarrow> ActiveView \<Rightarrow> ActiveView" where
  "seed_one pid av =
    (if pid = '''' then av
     else if ghas (av_members av) pid then av
     else av\<lparr>av_members := gput pid 0 (av_members av)\<rparr>)"

definition Seed :: "peer_id list \<Rightarrow> ActiveView \<Rightarrow> ActiveView" where
  "Seed ids av = fold seed_one ids av"

text \<open>Result: newly added, the members passed to \<^verbatim>\<open>onChange\<close> if it fires, the view.\<close>

definition RecordHeartbeat :: "peer_id \<Rightarrow> ActiveView \<Rightarrow> bool \<times> peer_id list option \<times> ActiveView" where
  "RecordHeartbeat pid av =
    (let av' = av\<lparr>av_members := gput pid 0 (av_members av)\<rparr> in
     if ghas (av_members av) pid then (False, None, av')
     else (True, Some (sortedMembersLocked av'), av'))"

text \<open>One iteration of the loop over the members: the evicted so far and the entries kept.\<close>

fun check_members :: "peer_id \<Rightarrow> int \<Rightarrow> (peer_id, int) gomap \<Rightarrow> peer_id list \<times> (peer_id, int) gomap" where
  "check_members localID deadAfter [] = ([], [])"
| "check_members localID deadAfter ((pid, missed) # ms) =
    (let (evicted, kept) = check_members localID deadAfter ms in
     if pid = localID then (evicted, (pid, missed) # kept)
     else if missed + 1 \<ge> deadAfter then (pid # evicted, kept)
     else (evicted, (pid, missed + 1) # kept))"

definition CheckLiveness :: "ActiveView \<Rightarrow> peer_id list \<times> peer_id list option \<times> ActiveView" where
  "CheckLiveness av =
    (let (evicted, ms) = check_members (av_localID av) (PeerDeadAfter (av_cfg av)) (av_members av);
         av' = av\<lparr>av_members := ms\<rparr>
     in (evicted, if evicted \<noteq> [] then Some (sortedMembersLocked av') else None, av'))"

definition Evict :: "peer_id \<Rightarrow> ActiveView \<Rightarrow> peer_id list option \<times> ActiveView" where
  "Evict pid av =
    (if pid = av_localID av then (None, av)
     else if \<not> ghas (av_members av) pid then (None, av)
     else let av' = av\<lparr>av_members := gdel pid (av_members av)\<rparr>
          in (Some (sortedMembersLocked av'), av'))"

definition Members :: "ActiveView \<Rightarrow> peer_id list" where
  "Members av = sortedMembersLocked av"

definition Contains :: "ActiveView \<Rightarrow> peer_id \<Rightarrow> bool" where
  "Contains av pid = ghas (av_members av) pid"

definition Size :: "ActiveView \<Rightarrow> nat" where
  "Size av = length (av_members av)"

section \<open>The operations as a sequence\<close>

datatype view_op = OpSeed "peer_id list" | OpHeartbeat peer_id | OpCheck | OpEvict peer_id

fun view_step :: "view_op \<Rightarrow> ActiveView \<Rightarrow> ActiveView" where
  "view_step (OpSeed ids) av = Seed ids av"
| "view_step (OpHeartbeat pid) av = snd (snd (RecordHeartbeat pid av))"
| "view_step OpCheck av = snd (snd (CheckLiveness av))"
| "view_step (OpEvict pid) av = snd (Evict pid av)"

definition view_ok :: "ActiveView \<Rightarrow> bool" where
  "view_ok av \<longleftrightarrow> gmap_ok (av_members av) \<and> ghas (av_members av) (av_localID av)"

section \<open>Members\<close>

lemma set_Members [simp]: "set (Members av) = {pid. Contains av pid}"
  by (simp add: Members_def sortedMembersLocked_def Contains_def set_gkeys)

lemma sorted_Members: "sorted (Members av)"
  using linear.sorted_SliceStable [of "gkeys (av_members av)"]
  by (simp add: Members_def sortedMembersLocked_def not_less)

lemma distinct_Members: "view_ok av \<Longrightarrow> distinct (Members av)"
  by (simp add: Members_def sortedMembersLocked_def view_ok_def gmap_ok_def gkeys_def)

section \<open>The invariant\<close>

lemma check_members_get:
  "gmap_ok ms \<Longrightarrow> gget (snd (check_members l d ms)) j =
    (case gget ms j of None \<Rightarrow> None
     | Some n \<Rightarrow> if j = l then Some n else if n + 1 \<ge> d then None else Some (n + 1))"
proof (induction ms)
  case Nil
  then show ?case by simp
next
  case (Cons p ms)
  obtain i n where p: "p = (i, n)" by force
  from Cons.prems p have ok: "gmap_ok ms" and i: "gget ms i = None"
    by (auto simp: gmap_ok_def gget_def map_of_eq_None_iff)
  have IH: "gget (snd (check_members l d ms)) j = (case gget ms j of None \<Rightarrow> None
     | Some n \<Rightarrow> if j = l then Some n else if n + 1 \<ge> d then None else Some (n + 1))"
    using Cons.IH ok by simp
  show ?case using IH i by (cases "i = j") (auto simp: p gget_Cons case_prod_beta Let_def)
qed

lemma check_members_keys: "set (map fst (snd (check_members l d ms))) \<subseteq> set (map fst ms)"
proof (induction ms)
  case (Cons p ms)
  then show ?case by (cases p) (simp add: case_prod_beta Let_def subset_insertI2)
qed simp

lemma check_members_ok: "gmap_ok ms \<Longrightarrow> gmap_ok (snd (check_members l d ms))"
proof (induction ms)
  case (Cons p ms)
  then show ?case
    using check_members_keys [of l d ms]
    by (cases p) (auto simp: gmap_ok_def case_prod_beta Let_def)
qed simp

lemma check_members_evicted:
  "gmap_ok ms \<Longrightarrow> set (fst (check_members l d ms)) =
    {j. ghas ms j \<and> \<not> ghas (snd (check_members l d ms)) j}"
proof (induction ms)
  case (Cons p ms)
  obtain i n where p: "p = (i, n)" by force
  from Cons.prems p have ok: "gmap_ok ms" and i: "gget ms i = None"
    by (auto simp: gmap_ok_def gget_def map_of_eq_None_iff)
  have no: "gget (snd (check_members l d ms)) i = None" using check_members_get [OF ok] i by simp
  show ?case using Cons.IH [OF ok] i no by (auto simp: p gget_Cons case_prod_beta Let_def ghas_def)
qed (simp add: ghas_def)

lemma seed_one_ok: "view_ok av \<Longrightarrow> view_ok (seed_one pid av)"
  by (auto simp: view_ok_def seed_one_def)

lemma seed_one_simps [simp]:
  "av_localID (seed_one pid av) = av_localID av" "av_cfg (seed_one pid av) = av_cfg av"
  by (simp_all add: seed_one_def)

lemma Seed_ok: "view_ok av \<Longrightarrow> view_ok (Seed pids av)"
  unfolding Seed_def by (induction pids arbitrary: av) (simp_all add: seed_one_ok)

lemma Seed_simps [simp]:
  "av_localID (Seed pids av) = av_localID av" "av_cfg (Seed pids av) = av_cfg av"
  unfolding Seed_def by (induction pids arbitrary: av) simp_all

lemma view_step_simps [simp]:
  "av_localID (view_step x av) = av_localID av" "av_cfg (view_step x av) = av_cfg av"
  by (cases x; simp add: RecordHeartbeat_def CheckLiveness_def Evict_def Let_def case_prod_beta)+

lemma view_step_ok: "view_ok av \<Longrightarrow> view_ok (view_step x av)"
proof (cases x)
  case OpCheck
  assume "view_ok av"
  then show ?thesis
    by (auto simp: OpCheck view_ok_def CheckLiveness_def case_prod_beta Let_def check_members_ok
      ghas_def check_members_get)
next
  case (OpEvict pid)
  assume "view_ok av"
  then show ?thesis by (auto simp: OpEvict view_ok_def Evict_def Let_def)
next
  case (OpHeartbeat pid)
  assume "view_ok av"
  then show ?thesis by (auto simp: OpHeartbeat view_ok_def RecordHeartbeat_def Let_def)
qed (simp add: Seed_ok)

lemma view_run_ok: "view_ok (fold view_step ops (NewActiveView cfg l))"
proof -
  have "view_ok av \<Longrightarrow> view_ok (fold view_step ops av)" for av
    by (induction ops arbitrary: av) (simp_all add: view_step_ok)
  moreover have "view_ok (NewActiveView cfg l)"
    by (simp add: NewActiveView_def view_ok_def gmap_ok_def ghas_def gget_def)
  ultimately show ?thesis .
qed

lemma view_run_local [simp]: "av_localID (fold view_step ops av) = av_localID av"
  by (induction ops arbitrary: av) simp_all

text \<open>
  C38: After any sequence of seeding, heartbeats, liveness checks and evictions the local node is
  in the view, \<^verbatim>\<open>Members\<close> is strictly sorted, and two nodes whose views have the same members
  return the same list, whatever the order in which they learnt of them.
\<close>

theorem active_view_members:
  assumes v1: "v1 = fold view_step ops1 (NewActiveView cfg1 l1)"
    and v2: "v2 = fold view_step ops2 (NewActiveView cfg2 l2)"
  shows "l1 \<in> set (Members v1) \<and> sorted_wrt (<) (Members v1) \<and> set (Members v1) = {p. Contains v1 p} \<and>
    ((\<forall>p. Contains v1 p = Contains v2 p) \<longrightarrow> Members v1 = Members v2)"
proof -
  have ok: "view_ok v1" "view_ok v2" unfolding v1 v2 by (rule view_run_ok)+
  have "av_localID v1 = l1" by (simp add: v1 NewActiveView_def)
  then have "l1 \<in> set (Members v1)" using ok(1) by (simp add: view_ok_def Contains_def)
  moreover have "sorted_wrt (<) (Members v1)"
    using sorted_Members distinct_Members [OF ok(1)] by (simp add: strict_sorted_iff)
  moreover have "Members v1 = Members v2" if "\<forall>p. Contains v1 p = Contains v2 p"
    using that sorted_Members distinct_Members ok by (intro sorted_distinct_set_unique) simp_all
  ultimately show ?thesis by simp
qed

theorem active_view_members_witness:
  "Members (fold view_step [OpHeartbeat ''b'', OpHeartbeat ''c''] (NewActiveView TestConfig ''a'')) =
   Members (fold view_step [OpSeed [''c'', ''d''], OpEvict ''d'', OpHeartbeat ''a''] (NewActiveView TestConfig ''b''))"
  by (rule active_view_members [OF refl refl, THEN conjunct2, THEN conjunct2, THEN conjunct2, rule_format])
    (auto simp: Contains_def NewActiveView_def RecordHeartbeat_def Seed_def seed_one_def Evict_def Let_def
      ghas_def gget_Cons)

section \<open>Eviction\<close>

lemma CheckLiveness_get:
  assumes "view_ok av"
  shows "gget (av_members (snd (snd (CheckLiveness av)))) j =
    (case gget (av_members av) j of None \<Rightarrow> None
     | Some n \<Rightarrow> if j = av_localID av then Some n
               else if n + 1 \<ge> PeerDeadAfter (av_cfg av) then None else Some (n + 1))"
  using assms check_members_get [of "av_members av"]
  by (simp add: CheckLiveness_def view_ok_def case_prod_beta Let_def)

lemma checks_missed:
  assumes "view_ok av" and "gget (av_members av) p = Some 0" and "p \<noteq> av_localID av"
    and "1 \<le> PeerDeadAfter (av_cfg av)"
  shows "view_ok ((view_step OpCheck ^^ k) av) \<and> av_cfg ((view_step OpCheck ^^ k) av) = av_cfg av \<and>
    av_localID ((view_step OpCheck ^^ k) av) = av_localID av \<and>
    gget (av_members ((view_step OpCheck ^^ k) av)) p =
      (if int k < PeerDeadAfter (av_cfg av) then Some (int k) else None)"
proof (induction k)
  case 0
  then show ?case using assms by simp
next
  case (Suc k)
  define w where "w = (view_step OpCheck ^^ k) av"
  have w: "(view_step OpCheck ^^ Suc k) av = view_step OpCheck w"
    by (simp add: w_def del: view_step.simps)
  from Suc have "view_ok w" "av_cfg w = av_cfg av" "av_localID w = av_localID av"
    "gget (av_members w) p = (if int k < PeerDeadAfter (av_cfg av) then Some (int k) else None)"
    by (simp_all add: w_def del: view_step.simps)
  moreover from this have "gget (av_members (view_step OpCheck w)) p =
      (if int (Suc k) < PeerDeadAfter (av_cfg av) then Some (int (Suc k)) else None)"
    using CheckLiveness_get [of w p] assms by auto
  ultimately show ?case unfolding w using view_step_ok by (simp del: view_step.simps)
qed

text \<open>
  A remote peer that sent a heartbeat is still in the view after \<^verbatim>\<open>k\<close> further liveness checks
  without one exactly when \<^verbatim>\<open>k < PeerDeadAfter\<close>; the check that evicts it reports it.
\<close>

theorem peer_evicted_after_missed_checks:
  assumes "view_ok av" and "Validate (av_cfg av) = Inr ()" and "p \<noteq> av_localID av"
  shows "(Contains ((view_step OpCheck ^^ k) (view_step (OpHeartbeat p) av)) p
      \<longleftrightarrow> int k < PeerDeadAfter (av_cfg av)) \<and>
    (p \<in> set (fst (CheckLiveness ((view_step OpCheck ^^ k) (view_step (OpHeartbeat p) av))))
      \<longleftrightarrow> int k + 1 = PeerDeadAfter (av_cfg av))"
proof -
  let ?av = "view_step (OpHeartbeat p) av" and ?w = "(view_step OpCheck ^^ k) (view_step (OpHeartbeat p) av)"
  have d: "1 \<le> PeerDeadAfter (av_cfg av)" using Validate_positive assms(2) by simp
  have g: "gget (av_members ?av) p = Some 0" by (simp add: RecordHeartbeat_def Let_def)
  have c: "view_ok ?w" "av_cfg ?w = av_cfg av" "av_localID ?w = av_localID av"
    "gget (av_members ?w) p = (if int k < PeerDeadAfter (av_cfg av) then Some (int k) else None)"
    using checks_missed [of ?av p k] g assms d view_step_ok by (simp_all del: view_step.simps)
  have 1: "Contains ?w p \<longleftrightarrow> int k < PeerDeadAfter (av_cfg av)"
    using c(4) by (simp add: Contains_def ghas_def)
  have "p \<in> set (fst (CheckLiveness ?w)) \<longleftrightarrow>
      ghas (av_members ?w) p \<and> gget (av_members (snd (snd (CheckLiveness ?w)))) p = None"
    using check_members_evicted [of "av_members ?w"] c(1)
    by (simp add: CheckLiveness_def case_prod_beta Let_def view_ok_def ghas_def)
  then have "p \<in> set (fst (CheckLiveness ?w)) \<longleftrightarrow> int k + 1 = PeerDeadAfter (av_cfg av)"
    using c assms(3) by (auto simp: CheckLiveness_get ghas_def)
  with 1 show ?thesis by blast
qed

theorem peer_evicted_after_missed_checks_witness:
  "Contains ((view_step OpCheck ^^ 2) (view_step (OpHeartbeat ''b'') (NewActiveView DefaultConfig ''a''))) ''b''
   \<and> \<not> Contains ((view_step OpCheck ^^ 3) (view_step (OpHeartbeat ''b'') (NewActiveView DefaultConfig ''a''))) ''b''"
  using peer_evicted_after_missed_checks [of "NewActiveView DefaultConfig ''a''" "''b''" 2]
    peer_evicted_after_missed_checks [of "NewActiveView DefaultConfig ''a''" "''b''" 3]
    view_run_ok [of "[]" DefaultConfig "''a''"]
  by (simp add: NewActiveView_def Validate_Default) (simp add: DefaultConfig_def)

end
