(* ===== verification/SingleWriter.thy ===== *)
theory SingleWriter
  imports ActiveView
begin

text \<open>
  \<^verbatim>\<open>coordination/single_writer.go\<close>: the election of the Token Holder and the buffer of proposals.
  SHA-256 and \<^verbatim>\<open>peer.ID.String\<close> are parameters. The view is the coordinator's, so the operations that
  read it take it as an argument. The lemmas show the election picks the least hash of the eligible
  members whatever the order of the list, that nodes with the same view and pending proposals agree
  on the holder, that the buffer keeps its bound and never holds two proposals with one reference,
  and that failover reaches every eligible node.
\<close>

section \<open>Election\<close>

fun hashLess :: "bytes \<Rightarrow> bytes \<Rightarrow> bool" where
  "hashLess (a # as) (b # bs) = (if a \<noteq> b then a < b else hashLess as bs)"
| "hashLess _ _ = False"

definition holder_hash :: "(bytes \<Rightarrow> bytes) \<Rightarrow> string \<Rightarrow> u64 \<Rightarrow> peer_id \<Rightarrow> bytes" where
  "holder_hash sha256 groupID epoch pid = sha256 (string_bytes groupID @ le64 epoch @ string_bytes pid)"

fun holder_loop :: "(bytes \<Rightarrow> bytes) \<Rightarrow> string \<Rightarrow> u64 \<Rightarrow> peer_id list \<Rightarrow> peer_id \<Rightarrow> bytes \<Rightarrow> bool \<Rightarrow> peer_id" where
  "holder_loop sha256 groupID epoch [] best bestHash first = best"
| "holder_loop sha256 groupID epoch (pid # pids) best bestHash first =
    (let candidate = holder_hash sha256 groupID epoch pid in
     if first \<or> hashLess candidate bestHash
     then holder_loop sha256 groupID epoch pids pid candidate False
     else holder_loop sha256 groupID epoch pids best bestHash first)"

definition ComputeTokenHolder :: "(bytes \<Rightarrow> bytes) \<Rightarrow> string \<Rightarrow> peer_id list \<Rightarrow> u64 \<Rightarrow> error + peer_id" where
  "ComputeTokenHolder sha256 groupID activeView epoch =
    (if activeView = [] then Inl ErrNoActiveView
     else Inr (holder_loop sha256 groupID epoch activeView '''' (replicate 32 0) True))"

section \<open>Proposals\<close>

text \<open>\<^verbatim>\<open>ProposalType\<close> is an \<^verbatim>\<open>int\<close> that arrives from the wire, so values other than the four exist.\<close>

type_synonym ProposalType = int

definition ProposalAdd :: ProposalType where "ProposalAdd = 0"
definition ProposalRemove :: ProposalType where "ProposalRemove = 1"
definition ProposalUpdate :: ProposalType where "ProposalUpdate = 2"
definition ProposalJoin :: ProposalType where "ProposalJoin = 3"

record BufferedProposal =
  bp_Type :: ProposalType
  bp_Data :: bytes
  bp_ProposalRef :: bytes
  bp_OperationID :: string
  bp_TargetPeerID :: string
  bp_RequestID :: string
  bp_GroupType :: string
  bp_CategoryID :: string
  bp_KeyPackageHash :: bytes

definition proposalRefLess :: "BufferedProposal \<Rightarrow> BufferedProposal \<Rightarrow> bool" where
  "proposalRefLess a b =
    (if bp_ProposalRef a = [] \<or> bp_ProposalRef b = [] then
       (if length (bp_ProposalRef a) \<noteq> length (bp_ProposalRef b)
        then length (bp_ProposalRef a) > length (bp_ProposalRef b)
        else if bp_Type a \<noteq> bp_Type b then bp_Type a < bp_Type b
        else bp_Data a < bp_Data b)
     else bp_ProposalRef a < bp_ProposalRef b)"

section \<open>The single writer\<close>

type_synonym AuthorizedCommittersProvider =
  "string \<Rightarrow> u64 \<Rightarrow> BufferedProposal list \<Rightarrow> error + peer_id list"

record SingleWriter =
  sw_localID :: peer_id
  sw_epoch :: u64
  sw_proposals :: "BufferedProposal list"
  sw_cfg :: CoordinatorConfig
  sw_groupID :: string
  sw_authorized :: "AuthorizedCommittersProvider option"
  sw_suspended :: "peer_id list"  \<comment> \<open>\<^verbatim>\<open>map[peer.ID]struct{}\<close>\<close>

definition NewSingleWriter :: "peer_id \<Rightarrow> u64 \<Rightarrow> CoordinatorConfig \<Rightarrow> SingleWriter" where
  "NewSingleWriter localID epoch cfg =
    \<lparr>sw_localID = localID, sw_epoch = epoch, sw_proposals = [], sw_cfg = cfg, sw_groupID = '''',
     sw_authorized = None, sw_suspended = []\<rparr>"

definition SetAuthorizedCommitters ::
  "string \<Rightarrow> AuthorizedCommittersProvider option \<Rightarrow> SingleWriter \<Rightarrow> SingleWriter" where
  "SetAuthorizedCommitters groupID provider sw = sw\<lparr>sw_groupID := groupID, sw_authorized := provider\<rparr>"

definition Suspend :: "peer_id \<Rightarrow> SingleWriter \<Rightarrow> SingleWriter" where
  "Suspend pid sw = sw\<lparr>sw_suspended := List.insert pid (sw_suspended sw)\<rparr>"

definition filterSuspended :: "peer_id list \<Rightarrow> peer_id list \<Rightarrow> peer_id list" where
  "filterSuspended candidates suspended =
    (if suspended = [] \<or> candidates = [] then candidates
     else filter (\<lambda>pid. pid \<notin> set suspended) candidates)"

definition intersectPeerIDs :: "peer_id list \<Rightarrow> peer_id list \<Rightarrow> peer_id list" where
  "intersectPeerIDs active authorized =
    (if active = [] \<or> authorized = [] then []
     else let allowed = filter (\<lambda>pid. pid \<noteq> '''') authorized
          in filter (\<lambda>pid. pid \<in> set allowed) active)"

definition filterRemovedByBatch ::
  "(peer_id \<Rightarrow> string) \<Rightarrow> peer_id list \<Rightarrow> BufferedProposal list \<Rightarrow> peer_id list" where
  "filterRemovedByBatch pidString candidates batch =
    (if candidates = [] \<or> batch = [] then candidates
     else let removed = map bp_TargetPeerID
                (filter (\<lambda>p. \<not> (bp_Type p \<noteq> ProposalRemove \<or> bp_TargetPeerID p = '''')) batch)
          in if removed = [] then candidates
             else filter (\<lambda>pid. pidString pid \<notin> set removed) candidates)"

definition computeHolder ::
  "(bytes \<Rightarrow> bytes) \<Rightarrow> (peer_id \<Rightarrow> string) \<Rightarrow> peer_id list \<Rightarrow> u64 \<Rightarrow> string \<Rightarrow> BufferedProposal list
    \<Rightarrow> AuthorizedCommittersProvider option \<Rightarrow> peer_id list \<Rightarrow> error + peer_id" where
  "computeHolder sha256 pidString activeView epoch groupID batch provider suspended =
    (case (case provider of
             None \<Rightarrow> Inr activeView
           | Some prov \<Rightarrow>
               (case prov groupID epoch batch of
                  Inl err \<Rightarrow> Inl err
                | Inr authorized \<Rightarrow> Inr (intersectPeerIDs activeView authorized))) of
       Inl err \<Rightarrow> Inl err
     | Inr eligible \<Rightarrow>
         ComputeTokenHolder sha256 groupID
           (filterSuspended (filterRemovedByBatch pidString eligible batch) suspended) epoch)"

definition snapshotNextBatchLocked :: "SingleWriter \<Rightarrow> BufferedProposal list" where
  "snapshotNextBatchLocked sw =
    (if sw_proposals sw = [] then []
     else let batch = SliceStable proposalRefLess (sw_proposals sw) in
       if int (length batch) > MaxBatchedProposals (sw_cfg sw)
       then take (nat (MaxBatchedProposals (sw_cfg sw))) batch else batch)"

definition SnapshotNextBatch :: "SingleWriter \<Rightarrow> BufferedProposal list" where
  "SnapshotNextBatch sw = snapshotNextBatchLocked sw"

definition CurrentTokenHolder ::
  "(bytes \<Rightarrow> bytes) \<Rightarrow> (peer_id \<Rightarrow> string) \<Rightarrow> ActiveView \<Rightarrow> SingleWriter \<Rightarrow> error + peer_id" where
  "CurrentTokenHolder sha256 pidString av sw =
    computeHolder sha256 pidString (Members av) (sw_epoch sw) (sw_groupID sw)
      (snapshotNextBatchLocked sw) (sw_authorized sw) (sw_suspended sw)"

definition IsTokenHolder ::
  "(bytes \<Rightarrow> bytes) \<Rightarrow> (peer_id \<Rightarrow> string) \<Rightarrow> ActiveView \<Rightarrow> SingleWriter \<Rightarrow> bool" where
  "IsTokenHolder sha256 pidString av sw =
    (case computeHolder sha256 pidString (Members av) (sw_epoch sw) (sw_groupID sw)
            (snapshotNextBatchLocked sw) (sw_authorized sw) (sw_suspended sw) of
       Inl err \<Rightarrow> False
     | Inr holder \<Rightarrow> holder = sw_localID sw)"

definition HolderForBatch ::
  "(bytes \<Rightarrow> bytes) \<Rightarrow> (peer_id \<Rightarrow> string) \<Rightarrow> ActiveView \<Rightarrow> BufferedProposal list \<Rightarrow> SingleWriter
    \<Rightarrow> error + peer_id" where
  "HolderForBatch sha256 pidString av batch sw =
    computeHolder sha256 pidString (Members av) (sw_epoch sw) (sw_groupID sw) batch
      (sw_authorized sw) (sw_suspended sw)"

definition BufferProposal :: "BufferedProposal \<Rightarrow> SingleWriter \<Rightarrow> SingleWriter" where
  "BufferProposal p sw =
    (if bp_ProposalRef p \<noteq> [] \<and> (\<exists>q \<in> set (sw_proposals sw). bp_ProposalRef q = bp_ProposalRef p) then sw
     else if int (length (sw_proposals sw)) \<ge> MaxBatchedProposals (sw_cfg sw) then sw
     else sw\<lparr>sw_proposals := sw_proposals sw @ [p]\<rparr>)"

definition DrainBatchByRefs :: "bytes list \<Rightarrow> SingleWriter \<Rightarrow> BufferedProposal list \<times> SingleWriter" where
  "DrainBatchByRefs refs sw =
    (if refs = [] \<or> sw_proposals sw = [] then ([], sw)
     else (SliceStable proposalRefLess (filter (\<lambda>p. bp_ProposalRef p \<in> set refs) (sw_proposals sw)),
           sw\<lparr>sw_proposals := filter (\<lambda>p. bp_ProposalRef p \<notin> set refs) (sw_proposals sw)\<rparr>))"

definition DrainBatchByData :: "bytes list \<Rightarrow> SingleWriter \<Rightarrow> BufferedProposal list \<times> SingleWriter" where
  "DrainBatchByData datas sw =
    (if datas = [] \<or> sw_proposals sw = [] then ([], sw)
     else (filter (\<lambda>p. bp_Data p \<in> set datas) (sw_proposals sw),
           sw\<lparr>sw_proposals := filter (\<lambda>p. bp_Data p \<notin> set datas) (sw_proposals sw)\<rparr>))"

definition DrainProposals :: "SingleWriter \<Rightarrow> BufferedProposal list \<times> SingleWriter" where
  "DrainProposals sw =
    (if sw_proposals sw = [] then ([], sw) else (sw_proposals sw, sw\<lparr>sw_proposals := []\<rparr>))"

definition ProposalCount :: "SingleWriter \<Rightarrow> nat" where
  "ProposalCount sw = length (sw_proposals sw)"

definition AdvanceEpoch :: "u64 \<Rightarrow> SingleWriter \<Rightarrow> SingleWriter" where
  "AdvanceEpoch newEpoch sw = sw\<lparr>sw_epoch := newEpoch, sw_proposals := [], sw_suspended := []\<rparr>"

text \<open>One round of failover: the holder that did not commit in time is suspended.\<close>

definition failover_round ::
  "(bytes \<Rightarrow> bytes) \<Rightarrow> (peer_id \<Rightarrow> string) \<Rightarrow> ActiveView \<Rightarrow> SingleWriter \<Rightarrow> SingleWriter" where
  "failover_round sha256 pidString av sw =
    (case CurrentTokenHolder sha256 pidString av sw of
       Inl err \<Rightarrow> sw
     | Inr holder \<Rightarrow> if holder = sw_localID sw then sw else Suspend holder sw)"

text \<open>The members that policy and the pending batch leave for election, before suspensions.\<close>

definition candidates ::
  "(peer_id \<Rightarrow> string) \<Rightarrow> ActiveView \<Rightarrow> SingleWriter \<Rightarrow> BufferedProposal list \<Rightarrow> error + peer_id set" where
  "candidates pidString av sw batch =
    (case (case sw_authorized sw of None \<Rightarrow> Inr {p. Contains av p}
           | Some prov \<Rightarrow> (case prov (sw_groupID sw) (sw_epoch sw) batch of
               Inl err \<Rightarrow> Inl err
             | Inr auth \<Rightarrow> Inr {p. Contains av p \<and> p \<in> set auth \<and> p \<noteq> ''''})) of
       Inl err \<Rightarrow> Inl err
     | Inr ps \<Rightarrow> Inr {p \<in> ps. \<not> (\<exists>q \<in> set batch. bp_Type q = ProposalRemove \<and>
                                bp_TargetPeerID q \<noteq> '''' \<and> bp_TargetPeerID q = pidString p)})"

definition sw_ok :: "SingleWriter \<Rightarrow> bool" where
  "sw_ok sw \<longleftrightarrow>
    int (length (sw_proposals sw)) \<le> max 0 (MaxBatchedProposals (sw_cfg sw)) \<and>
    distinct (filter (\<lambda>r. r \<noteq> []) (map bp_ProposalRef (sw_proposals sw)))"

section \<open>The election contract\<close>

text \<open>
  What the protocol relies on: a non-empty list of candidates elects the one with the least hash.
  The hash is required to have the length of SHA-256 digests.
\<close>

locale token_election =
  fixes H :: "peer_id \<Rightarrow> bytes"
    and elect :: "peer_id list \<Rightarrow> error + peer_id"
  assumes elect_Nil: "elect [] = Inl ErrNoActiveView"
    and elect_some: "vs \<noteq> [] \<Longrightarrow> \<exists>h. elect vs = Inr h"
    and elect_mem: "elect vs = Inr h \<Longrightarrow> h \<in> set vs"
    and elect_least: "(\<And>p. length (H p) = 32) \<Longrightarrow> elect vs = Inr h \<Longrightarrow> p \<in> set vs \<Longrightarrow> H h \<le> H p"
begin

lemma elect_error_iff: "(\<exists>err. elect vs = Inl err) \<longleftrightarrow> vs = []"
  by (metis elect_Nil elect_some sum.simps(4))

lemma elect_stable:
  assumes "\<And>p. length (H p) = 32" and "inj_on H (set vs)"
    and "elect vs = Inr h" and "set ws \<subseteq> set vs" and "h \<in> set ws"
  shows "elect ws = Inr h"
proof -
  obtain k where k: "elect ws = Inr k" using elect_some assms(5) by (metis empty_iff empty_set)
  then have "k \<in> set ws" by (rule elect_mem)
  have "H k \<le> H h" using elect_least [OF assms(1) k assms(5)] .
  moreover have "H h \<le> H k" using elect_least [OF assms(1,3)] \<open>k \<in> set ws\<close> assms(4) by blast
  ultimately have "H h = H k" by simp
  then have "h = k" using assms(2,4,5) \<open>k \<in> set ws\<close> by (meson inj_onD subset_iff)
  then show ?thesis using k by simp
qed

lemma elect_order_independent:
  assumes "\<And>p. length (H p) = 32" and "inj_on H (set vs)" and "set vs = set ws"
  shows "elect vs = elect ws"
proof (cases "vs = []")
  case True
  then show ?thesis using assms(3) by simp
next
  case False
  then obtain h where h: "elect vs = Inr h" using elect_some by blast
  then have "elect ws = Inr h" using elect_stable [OF assms(1,2) h] assms(3) elect_mem by blast
  then show ?thesis using h by simp
qed

lemma elect_only: "set vs = {me} \<Longrightarrow> elect vs = Inr me"
  by (metis elect_mem elect_some empty_set insert_not_empty singletonD)

end

lemma hashLess_iff: "length a = length b \<Longrightarrow> hashLess a b \<longleftrightarrow> a < b"
  by (induction a b rule: list_induct2) auto

lemma holder_loop_mem:
  "holder_loop sha g e ps b bh f \<in> set ps \<or> (holder_loop sha g e ps b bh f = b \<and> (f \<longrightarrow> ps = []))"
  by (induction sha g e ps b bh f rule: holder_loop.induct) (auto simp: Let_def)

lemma holder_loop_least:
  assumes "\<And>p. length (holder_hash sha g e p) = 32"
  shows "f = False \<Longrightarrow> bh = holder_hash sha g e b \<Longrightarrow>
    (\<forall>p \<in> insert b (set ps). holder_hash sha g e (holder_loop sha g e ps b bh f) \<le> holder_hash sha g e p)"
proof (induction ps arbitrary: b bh f)
  case Nil
  then show ?case by simp
next
  case (Cons p ps)
  show ?case
  proof (cases "hashLess (holder_hash sha g e p) bh")
    case True
    then have "holder_hash sha g e p < holder_hash sha g e b"
      using Cons.prems assms by (simp add: hashLess_iff)
    with True Cons.IH [OF refl refl, of p] Cons.prems show ?thesis
      by (auto simp: Let_def intro: order_trans [OF _ less_imp_le])
  next
    case False
    then have "holder_hash sha g e b \<le> holder_hash sha g e p"
      using Cons.prems assms by (simp add: hashLess_iff)
    with False Cons.IH [OF refl refl, of b] Cons.prems show ?thesis
      by (auto simp: Let_def intro: order_trans)
  qed
qed

interpretation el: token_election "holder_hash sha g e" "\<lambda>vs. ComputeTokenHolder sha g vs e" for sha g e
proof
  fix vs h p
  show "ComputeTokenHolder sha g [] e = Inl ErrNoActiveView" by (simp add: ComputeTokenHolder_def)
  show "\<exists>h. ComputeTokenHolder sha g vs e = Inr h" if "vs \<noteq> []"
    using that by (simp add: ComputeTokenHolder_def)
  show "h \<in> set vs" if "ComputeTokenHolder sha g vs e = Inr h"
    using that holder_loop_mem [of sha g e vs "''''" "replicate 32 0" True]
    by (auto simp: ComputeTokenHolder_def split: if_splits)
  show "holder_hash sha g e h \<le> holder_hash sha g e p"
    if "\<And>p. length (holder_hash sha g e p) = 32" "ComputeTokenHolder sha g vs e = Inr h" "p \<in> set vs"
  proof (cases vs)
    case (Cons v us)
    then have h: "h = holder_loop sha g e us v (holder_hash sha g e v) False"
      using that(2) by (simp add: ComputeTokenHolder_def Let_def)
    then show ?thesis using holder_loop_least [OF that(1), where b = v and ps = us] that(3) Cons by auto
  qed (use that(3) in simp)
qed

section \<open>The order of proposals\<close>

interpretation pr: weak_order proposalRefLess
  by unfold_locales (auto simp: proposalRefLess_def split: if_splits)

lemma proposalRefLess_tie:
  "bp_ProposalRef a \<noteq> [] \<Longrightarrow> bp_ProposalRef b \<noteq> [] \<Longrightarrow> \<not> proposalRefLess a b \<Longrightarrow> \<not> proposalRefLess b a
    \<Longrightarrow> bp_ProposalRef a = bp_ProposalRef b"
  by (simp add: proposalRefLess_def)

section \<open>The buffer\<close>

lemma sw_ok_New [simp]: "sw_ok (NewSingleWriter l e cfg)"
  by (simp add: sw_ok_def NewSingleWriter_def)

lemma sw_ok_Buffer: "sw_ok sw \<Longrightarrow> sw_ok (BufferProposal p sw)"
  by (auto simp: sw_ok_def BufferProposal_def)

lemma sw_ok_filter:
  assumes "sw_ok sw" shows "sw_ok (sw\<lparr>sw_proposals := filter P (sw_proposals sw)\<rparr>)"
proof -
  have "distinct (map bp_ProposalRef (filter (\<lambda>x. P x \<and> bp_ProposalRef x \<noteq> []) (sw_proposals sw)))"
    using assms distinct_map_filter
      [of bp_ProposalRef "filter (\<lambda>x. bp_ProposalRef x \<noteq> []) (sw_proposals sw)" P]
    by (simp add: sw_ok_def filter_map o_def conj_commute)
  moreover have "int (length (filter P (sw_proposals sw))) \<le> max 0 (MaxBatchedProposals (sw_cfg sw))"
    using assms length_filter_le [of P "sw_proposals sw"] unfolding sw_ok_def by linarith
  ultimately show ?thesis using assms by (auto simp: sw_ok_def filter_map o_def conj_commute)
qed

lemma sw_ok_Drain:
  "sw_ok sw \<Longrightarrow> sw_ok (snd (DrainBatchByRefs refs sw))"
  "sw_ok sw \<Longrightarrow> sw_ok (snd (DrainBatchByData datas sw))"
  "sw_ok sw \<Longrightarrow> sw_ok (snd (DrainProposals sw))"
  by (auto simp: DrainBatchByRefs_def DrainBatchByData_def DrainProposals_def sw_ok_filter)
    (simp add: sw_ok_def)

lemma sw_ok_other:
  "sw_ok (AdvanceEpoch e sw)" "sw_ok (Suspend p sw) = sw_ok sw"
  "sw_ok (SetAuthorizedCommitters g prov sw) = sw_ok sw"
  by (simp_all add: sw_ok_def AdvanceEpoch_def Suspend_def SetAuthorizedCommitters_def)

lemma snapshot_not_truncated:
  "sw_ok sw \<Longrightarrow> snapshotNextBatchLocked sw = SliceStable proposalRefLess (sw_proposals sw)"
  by (cases "sw_proposals sw") (auto simp: snapshotNextBatchLocked_def sw_ok_def Let_def max_def split: if_splits)

lemma mset_partition: "mset (filter P xs) + mset (filter (\<lambda>x. \<not> P x) xs) = mset xs"
  by (induction xs) auto

datatype buffer_op = OpBufferProposal BufferedProposal | OpDrainRefs "bytes list"
  | OpDrainData "bytes list" | OpDrainAll | OpAdvanceEpoch u64 | OpSuspend peer_id

fun buffer_step :: "buffer_op \<Rightarrow> SingleWriter \<Rightarrow> SingleWriter" where
  "buffer_step (OpBufferProposal p) sw = BufferProposal p sw"
| "buffer_step (OpDrainRefs refs) sw = snd (DrainBatchByRefs refs sw)"
| "buffer_step (OpDrainData datas) sw = snd (DrainBatchByData datas sw)"
| "buffer_step OpDrainAll sw = snd (DrainProposals sw)"
| "buffer_step (OpAdvanceEpoch e) sw = AdvanceEpoch e sw"
| "buffer_step (OpSuspend p) sw = Suspend p sw"

lemma buffer_step_ok: "sw_ok sw \<Longrightarrow> sw_ok (buffer_step x sw)"
  by (cases x) (simp_all add: sw_ok_Buffer sw_ok_Drain sw_ok_other)

lemma buffer_step_cfg [simp]: "sw_cfg (buffer_step x sw) = sw_cfg sw"
  by (cases x) (simp_all add: BufferProposal_def DrainBatchByRefs_def DrainBatchByData_def
    DrainProposals_def AdvanceEpoch_def Suspend_def)

lemma buffer_run_ok: "sw_ok sw \<Longrightarrow> sw_ok (fold buffer_step ops sw)"
  by (induction ops arbitrary: sw) (simp_all add: buffer_step_ok)

lemma buffer_run_cfg [simp]: "sw_cfg (fold buffer_step ops sw) = sw_cfg sw"
  by (induction ops arbitrary: sw) simp_all

text \<open>
  C36: After any sequence of buffering, draining, suspending and epoch changes, a single writer
  holds at most \<^verbatim>\<open>MaxBatchedProposals\<close> proposals, no two with the same non-empty reference, and the
  batch it snapshots is the whole buffer, sorted; draining a set of references splits the buffer
  into the drained and the remaining proposals without loss.
\<close>

theorem proposal_buffer_invariant:
  assumes "Validate cfg = Inr ()" and "sw = fold buffer_step ops (NewSingleWriter l e cfg)"
  shows "int (ProposalCount sw) \<le> MaxBatchedProposals cfg \<and>
    (\<forall>i < ProposalCount sw. \<forall>j < ProposalCount sw.
       bp_ProposalRef (sw_proposals sw ! i) = bp_ProposalRef (sw_proposals sw ! j) \<longrightarrow>
       bp_ProposalRef (sw_proposals sw ! i) \<noteq> [] \<longrightarrow> i = j) \<and>
    mset (SnapshotNextBatch sw) = mset (sw_proposals sw) \<and>
    sorted_wrt (\<lambda>a b. \<not> proposalRefLess b a) (SnapshotNextBatch sw) \<and>
    mset (fst (DrainBatchByRefs refs sw)) + mset (sw_proposals (snd (DrainBatchByRefs refs sw)))
      = mset (sw_proposals sw)"
proof -
  have ok: "sw_ok sw" using assms(2) buffer_run_ok by simp
  have cfg: "sw_cfg sw = cfg" using assms(2) by (simp add: NewSingleWriter_def)
  have "1 \<le> MaxBatchedProposals cfg" using Validate_positive(4) [OF assms(1)] .
  then have 1: "int (ProposalCount sw) \<le> MaxBatchedProposals cfg"
    using ok cfg by (simp add: sw_ok_def ProposalCount_def)
  have 2: "i = j" if "i < length (sw_proposals sw)" "j < length (sw_proposals sw)"
    "bp_ProposalRef (sw_proposals sw ! i) = bp_ProposalRef (sw_proposals sw ! j)"
    "bp_ProposalRef (sw_proposals sw ! i) \<noteq> []" for i j
    by (rule distinct_filter_nth [of "\<lambda>r. r \<noteq> []" bp_ProposalRef "sw_proposals sw"])
      (use ok that in \<open>simp_all add: sw_ok_def\<close>)
  have 3: "mset (fst (DrainBatchByRefs refs sw)) + mset (sw_proposals (snd (DrainBatchByRefs refs sw)))
      = mset (sw_proposals sw)"
    by (simp add: DrainBatchByRefs_def mset_partition)
  show ?thesis
    using 1 2 3 ok pr.sorted_SliceStable
    by (simp add: SnapshotNextBatch_def snapshot_not_truncated ProposalCount_def sw_ok_def)
qed

theorem proposal_buffer_invariant_witness:
  "int (ProposalCount (fold buffer_step [OpBufferProposal \<lparr>bp_Type = 0, bp_Data = [1], bp_ProposalRef = [2],
      bp_OperationID = '''', bp_TargetPeerID = '''', bp_RequestID = '''', bp_GroupType = '''',
      bp_CategoryID = '''', bp_KeyPackageHash = []\<rparr>] (NewSingleWriter ''a'' 0 DefaultConfig)))
    \<le> MaxBatchedProposals DefaultConfig"
  using proposal_buffer_invariant [OF Validate_Default refl] by blast

section \<open>The holder\<close>

text \<open>The list the election runs on, and that its members are the candidates not suspended.\<close>

definition eligible_list :: "(peer_id \<Rightarrow> string) \<Rightarrow> ActiveView \<Rightarrow> SingleWriter \<Rightarrow> BufferedProposal list \<Rightarrow> error + peer_id list" where
  "eligible_list pidString av sw batch =
    (case (case sw_authorized sw of None \<Rightarrow> Inr (Members av)
           | Some prov \<Rightarrow> (case prov (sw_groupID sw) (sw_epoch sw) batch of
               Inl err \<Rightarrow> Inl err | Inr auth \<Rightarrow> Inr (intersectPeerIDs (Members av) auth))) of
       Inl err \<Rightarrow> Inl err
     | Inr eligible \<Rightarrow> Inr (filterSuspended (filterRemovedByBatch pidString eligible batch) (sw_suspended sw)))"

lemma set_filterSuspended [simp]: "set (filterSuspended ps s) = set ps - set s"
  by (auto simp: filterSuspended_def)

lemma set_intersectPeerIDs [simp]: "set (intersectPeerIDs ps auth) = {p \<in> set ps. p \<in> set auth \<and> p \<noteq> ''''}"
  by (auto simp: intersectPeerIDs_def Let_def)

lemma set_filterRemovedByBatch [simp]:
  "set (filterRemovedByBatch pidString ps batch) =
    {p \<in> set ps. \<not> (\<exists>q \<in> set batch. bp_Type q = ProposalRemove \<and> bp_TargetPeerID q \<noteq> '''' \<and>
       bp_TargetPeerID q = pidString p)}"
  by (auto simp: filterRemovedByBatch_def Let_def filter_empty_conv image_iff)

lemma computeHolder_eligible:
  "HolderForBatch sha pidString av batch sw =
    (case eligible_list pidString av sw batch of
       Inl err \<Rightarrow> Inl err | Inr vs \<Rightarrow> ComputeTokenHolder sha (sw_groupID sw) vs (sw_epoch sw))"
  by (auto simp: HolderForBatch_def computeHolder_def eligible_list_def split: option.splits sum.splits)

lemma CurrentTokenHolder_batch:
  "CurrentTokenHolder sha pidString av sw = HolderForBatch sha pidString av (snapshotNextBatchLocked sw) sw"
  by (simp add: CurrentTokenHolder_def HolderForBatch_def)

lemma IsTokenHolder_iff:
  "IsTokenHolder sha pidString av sw \<longleftrightarrow> CurrentTokenHolder sha pidString av sw = Inr (sw_localID sw)"
  by (auto simp: IsTokenHolder_def CurrentTokenHolder_def split: sum.splits)

lemma eligible_list_set:
  "candidates pidString av sw batch = Inr C \<Longrightarrow>
    \<exists>vs. eligible_list pidString av sw batch = Inr vs \<and> set vs = C - set (sw_suspended sw)"
  by (auto simp: candidates_def eligible_list_def split: option.splits sum.splits)


text \<open>A 32-byte function in the place of SHA-256, for concrete runs.\<close>

definition sample_sha :: "bytes \<Rightarrow> bytes" where
  "sample_sha x = replicate 31 0 @ [last (0 # x)]"

lemma length_sample_sha [simp]: "length (sample_sha x) = 32"
  by (simp add: sample_sha_def)


lemma eligible_list_cong:
  assumes "Members av1 = Members av2" and "sw_authorized sw1 = sw_authorized sw2"
    and "sw_groupID sw1 = sw_groupID sw2" and "sw_epoch sw1 = sw_epoch sw2"
    and "set (sw_suspended sw1) = set (sw_suspended sw2)"
  shows "eligible_list pidString av1 sw1 batch = eligible_list pidString av2 sw2 batch"
proof -
  have "filterSuspended ps (sw_suspended sw1) = filterSuspended ps (sw_suspended sw2)" for ps
    using assms(5) by (auto simp: filterSuspended_def)
  then show ?thesis using assms(1-4)
    by (simp add: eligible_list_def cong: option.case_cong sum.case_cong)
qed

lemma snapshot_agrees:
  assumes "sw_ok sw1" and "sw_ok sw2" and "mset (sw_proposals sw1) = mset (sw_proposals sw2)"
    and "\<And>p. p \<in> set (sw_proposals sw1) \<Longrightarrow> bp_ProposalRef p \<noteq> []"
  shows "SnapshotNextBatch sw1 = SnapshotNextBatch sw2"
proof -
  have "x = y" if xy: "x \<in> set (sw_proposals sw1)" "y \<in> set (sw_proposals sw1)"
    "\<not> proposalRefLess x y" "\<not> proposalRefLess y x" for x y
  proof -
    have r: "bp_ProposalRef x = bp_ProposalRef y" using proposalRefLess_tie that assms(4) by blast
    obtain i j where i: "i < length (sw_proposals sw1)" "x = sw_proposals sw1 ! i"
      and j: "j < length (sw_proposals sw1)" "y = sw_proposals sw1 ! j"
      using xy(1,2) unfolding in_set_conv_nth by auto
    have "i = j"
      by (rule distinct_filter_nth [of "\<lambda>r. r \<noteq> []" bp_ProposalRef "sw_proposals sw1"])
        (use assms(1) assms(4) [OF that(1)] r in \<open>simp_all add: sw_ok_def i(1) j(1) i(2) [symmetric] j(2) [symmetric]\<close>)
    then show ?thesis using i j by simp
  qed
  then show ?thesis
    using pr.SliceStable_unique [OF assms(3)] assms(1,2)
    by (simp add: SnapshotNextBatch_def snapshot_not_truncated)
qed



section \<open>Failover\<close>

lemma Suspend_simps [simp]:
  "sw_localID (Suspend p sw) = sw_localID sw" "sw_epoch (Suspend p sw) = sw_epoch sw"
  "sw_groupID (Suspend p sw) = sw_groupID sw" "sw_authorized (Suspend p sw) = sw_authorized sw"
  "sw_proposals (Suspend p sw) = sw_proposals sw" "sw_cfg (Suspend p sw) = sw_cfg sw"
  "set (sw_suspended (Suspend p sw)) = insert p (set (sw_suspended sw))"
  by (simp_all add: Suspend_def)

lemma snapshot_Suspend [simp]: "snapshotNextBatchLocked (Suspend p sw) = snapshotNextBatchLocked sw"
  by (simp add: snapshotNextBatchLocked_def Let_def)

lemma candidates_Suspend [simp]: "candidates pidString av (Suspend p sw) batch = candidates pidString av sw batch"
  by (simp add: candidates_def cong: option.case_cong)

lemma finite_candidates: "candidates pidString av sw batch = Inr C \<Longrightarrow> finite C"
proof -
  have "finite {p. Contains av p}" using finite_set [of "Members av"] by simp
  then show "candidates pidString av sw batch = Inr C \<Longrightarrow> finite C"
    by (auto simp: candidates_def split: option.splits sum.splits)
qed

lemma holder_mem:
  assumes "candidates pidString av sw (snapshotNextBatchLocked sw) = Inr C"
    and "C - set (sw_suspended sw) \<noteq> {}"
  shows "\<exists>h \<in> C - set (sw_suspended sw). CurrentTokenHolder sha pidString av sw = Inr h"
proof -
  obtain vs where vs: "eligible_list pidString av sw (snapshotNextBatchLocked sw) = Inr vs"
    "set vs = C - set (sw_suspended sw)"
    using eligible_list_set [OF assms(1)] by blast
  then have "vs \<noteq> []" using assms(2) by auto
  then obtain h where "ComputeTokenHolder sha (sw_groupID sw) vs (sw_epoch sw) = Inr h"
    using el.elect_some by blast
  then show ?thesis
    using vs el.elect_mem by (auto simp: CurrentTokenHolder_batch computeHolder_eligible)
qed

lemma failover_reaches:
  assumes "candidates pidString av sw (snapshotNextBatchLocked sw) = Inr C"
    and "sw_localID sw \<in> C - set (sw_suspended sw)"
    and "card (C - set (sw_suspended sw)) \<le> Suc n"
  shows "IsTokenHolder sha pidString av ((failover_round sha pidString av ^^ n) sw)"
  using assms
proof (induction n arbitrary: sw)
  case 0
  have "finite (C - set (sw_suspended sw))" using finite_candidates 0(1) by blast
  then have "\<forall>x \<in> C - set (sw_suspended sw). \<forall>y \<in> C - set (sw_suspended sw). x = y"
    using 0(3) card_le_Suc0_iff_eq by blast
  then have "C - set (sw_suspended sw) = {sw_localID sw}" using 0(2) by auto
  then show ?case using holder_mem [OF 0(1), of sha] by (simp add: IsTokenHolder_iff)
next
  case (Suc n)
  obtain h where h: "h \<in> C - set (sw_suspended sw)" "CurrentTokenHolder sha pidString av sw = Inr h"
    using holder_mem [OF Suc.prems(1)] Suc.prems(2) by blast
  show ?case
  proof (cases "h = sw_localID sw")
    case True
    then have "failover_round sha pidString av sw = sw" using h by (simp add: failover_round_def)
    then have "(failover_round sha pidString av ^^ m) sw = sw" for m by (induction m) simp_all
    from this [of "Suc n"] show ?thesis using True h by (simp add: IsTokenHolder_iff del: funpow.simps)
  next
    case False
    then have r: "failover_round sha pidString av sw = Suspend h sw" using h by (simp add: failover_round_def)
    have "finite (C - set (sw_suspended sw))" using finite_candidates Suc.prems(1) by blast
    then have "card (C - set (sw_suspended (Suspend h sw))) < card (C - set (sw_suspended sw))"
      using h by (intro psubset_card_mono) auto
    then have "IsTokenHolder sha pidString av ((failover_round sha pidString av ^^ n) (Suspend h sw))"
      using Suc False by (intro Suc.IH) auto
    then show ?thesis using r by (simp add: funpow_swap1)
  qed
qed

text \<open>
  C15: Failover is live. If the local node is a candidate that nobody suspended, then after fewer
  rounds of suspending the current holder than there are candidates it is the Token Holder itself.
\<close>

theorem failover_elects_local:
  assumes "candidates pidString av sw (SnapshotNextBatch sw) = Inr C"
    and "sw_localID sw \<in> C" and "sw_localID sw \<notin> set (sw_suspended sw)"
  shows "\<exists>n < card C. IsTokenHolder sha256 pidString av ((failover_round sha256 pidString av ^^ n) sw)"
proof -
  have fin: "finite C" using finite_candidates assms(1) by blast
  then have "0 < card C" using assms(2) card_gt_0_iff by blast
  moreover have "card (C - set (sw_suspended sw)) \<le> Suc (card C - 1)"
    using card_mono [OF fin, of "C - set (sw_suspended sw)"] by auto
  ultimately show ?thesis
    using failover_reaches [of pidString av sw C "card C - 1" sha256] assms
    by (intro exI [of _ "card C - 1"]) (auto simp: SnapshotNextBatch_def)
qed

theorem failover_elects_local_witness:
  "\<exists>n < 2. IsTokenHolder sample_sha (\<lambda>p. p) (view_step (OpHeartbeat ''b'') (NewActiveView DefaultConfig ''a''))
    ((failover_round sample_sha (\<lambda>p. p) (view_step (OpHeartbeat ''b'') (NewActiveView DefaultConfig ''a'')) ^^ n)
      (NewSingleWriter ''a'' 7 DefaultConfig))"
proof -
  let ?av = "view_step (OpHeartbeat ''b'') (NewActiveView DefaultConfig ''a'')"
    and ?sw = "NewSingleWriter ''a'' 7 DefaultConfig"
  have "candidates (\<lambda>p. p) ?av ?sw (SnapshotNextBatch ?sw) = Inr {''a'', ''b''}"
    by (auto simp: candidates_def NewSingleWriter_def Contains_def NewActiveView_def RecordHeartbeat_def
      Let_def ghas_def gget_Cons SnapshotNextBatch_def snapshotNextBatchLocked_def)
  from failover_elects_local [OF this, of sample_sha] show ?thesis
    by (simp add: NewSingleWriter_def numeral_2_eq_2 del: view_step.simps)
qed

end
