(* ===== verification/ForkDetector.thy ===== *)
theory ForkDetector
  imports Prelude
begin

text \<open>
  \<^verbatim>\<open>coordination/fork_healing.go\<close>: the comparison of branches and the detector that collects the
  announcements of peers. The lemmas show that the comparison is consistent between the two sides
  (and where it is not), that a branch whose commit was found invalid is never chosen, and what an
  event of the detector says.
\<close>

section \<open>Announcements and their comparison\<close>

datatype BranchResult = BranchLocal | BranchRemote | BranchEqual

record GroupStateAnnouncement =
  gsa_TreeHash :: bytes
  gsa_MemberCount :: int
  gsa_Epoch :: u64
  gsa_CommitHash :: bytes
  gsa_HistoryHash :: bytes

definition branchKey :: "GroupStateAnnouncement \<Rightarrow> string" where
  "branchKey ann = ''h:'' @ hex (gsa_HistoryHash ann)"

definition sameBranch :: "GroupStateAnnouncement \<Rightarrow> GroupStateAnnouncement \<Rightarrow> bool" where
  "sameBranch a b \<longleftrightarrow> branchKey a = branchKey b"

text \<open>\<^verbatim>\<open>bytes.Compare\<close> is the byte-lexicographic order.\<close>

definition compareBranchWeightWithSupport ::
  "GroupStateAnnouncement \<Rightarrow> GroupStateAnnouncement \<Rightarrow> nat \<Rightarrow> nat \<Rightarrow> bool \<Rightarrow> bool \<Rightarrow> BranchResult" where
  "compareBranchWeightWithSupport loc remote localSupport remoteSupport localInvalid remoteInvalid =
    (if sameBranch loc remote then BranchEqual
     else if localInvalid \<noteq> remoteInvalid then (if localInvalid then BranchRemote else BranchLocal)
     else if localSupport \<noteq> remoteSupport then (if localSupport > remoteSupport then BranchLocal else BranchRemote)
     else if gsa_MemberCount loc \<noteq> gsa_MemberCount remote
       then (if gsa_MemberCount loc > gsa_MemberCount remote then BranchLocal else BranchRemote)
     else if gsa_Epoch loc \<noteq> gsa_Epoch remote
       then (if gsa_Epoch loc > gsa_Epoch remote then BranchLocal else BranchRemote)
     else if gsa_CommitHash loc > gsa_CommitHash remote then BranchLocal
     else if gsa_CommitHash loc < gsa_CommitHash remote then BranchRemote
     else if gsa_TreeHash loc < gsa_TreeHash remote then BranchLocal
     else BranchRemote)"

definition CompareBranchWeight :: "GroupStateAnnouncement \<Rightarrow> GroupStateAnnouncement \<Rightarrow> BranchResult" where
  "CompareBranchWeight loc remote = compareBranchWeightWithSupport loc remote 1 1 False False"

section \<open>The detector\<close>

record branchInfo =
  bi_announcement :: GroupStateAnnouncement
  bi_peers :: "peer_id list"  \<comment> \<open>\<^verbatim>\<open>map[peer.ID]struct{}\<close>\<close>
  bi_firstSeenAt :: int

record ForkDetector =
  fd_local :: "GroupStateAnnouncement option"
  fd_known :: "(string, branchInfo) gomap"
  fd_invalidCommits :: "string list"  \<comment> \<open>\<^verbatim>\<open>map[string]struct{}\<close>\<close>

record ForkEvent =
  fe_GroupID :: string
  fe_RemotePeer :: peer_id
  fe_LocalAnnounce :: GroupStateAnnouncement
  fe_RemoteAnnounce :: GroupStateAnnouncement
  fe_RemoteEpoch :: u64
  fe_Result :: BranchResult
  fe_NeedExternalJoin :: bool
  fe_WinnerPeers :: "peer_id list"
  fe_PartitionStartedAt :: int

definition NewForkDetector :: ForkDetector where
  "NewForkDetector = \<lparr>fd_local = None, fd_known = [], fd_invalidCommits = []\<rparr>"

definition UpdateLocal :: "GroupStateAnnouncement \<Rightarrow> ForkDetector \<Rightarrow> ForkDetector" where
  "UpdateLocal ann fd =
    (let fd1 = (case fd_local fd of
                  Some l \<Rightarrow> if gsa_Epoch ann > gsa_Epoch l then fd\<lparr>fd_known := []\<rparr> else fd
                | None \<Rightarrow> fd)
     in fd1\<lparr>fd_local := Some ann\<rparr>)"

definition branchSupportLocked :: "GroupStateAnnouncement \<Rightarrow> ForkDetector \<Rightarrow> nat" where
  "branchSupportLocked ann fd =
    1 + (case gget (fd_known fd) (branchKey ann) of None \<Rightarrow> 0 | Some bi \<Rightarrow> length (bi_peers bi))"

definition isInvalidCommitLocked :: "bytes \<Rightarrow> ForkDetector \<Rightarrow> bool" where
  "isInvalidCommitLocked commitHash fd =
    (if commitHash = [] then False else hex commitHash \<in> set (fd_invalidCommits fd))"

text \<open>The branch entry after an announcement, with the announcing peer among its peers.\<close>

definition observe_branch :: "int \<Rightarrow> peer_id \<Rightarrow> GroupStateAnnouncement \<Rightarrow> ForkDetector \<Rightarrow> branchInfo" where
  "observe_branch observedAt from ann fd =
    (let bi = (case gget (fd_known fd) (branchKey ann) of
                 None \<Rightarrow> \<lparr>bi_announcement = ann, bi_peers = [], bi_firstSeenAt = observedAt\<rparr>
               | Some bi \<Rightarrow> bi\<lparr>bi_announcement := ann\<rparr>)
     in bi\<lparr>bi_peers := List.insert from (bi_peers bi)\<rparr>)"

definition ProcessRemote ::
  "int \<Rightarrow> peer_id \<Rightarrow> u64 \<Rightarrow> GroupStateAnnouncement \<Rightarrow> ForkDetector \<Rightarrow> ForkEvent option \<times> ForkDetector" where
  "ProcessRemote observedAt from remoteEpoch ann fd =
    (case fd_local fd of
       None \<Rightarrow> (None, fd)
     | Some loc \<Rightarrow>
        (let bi = observe_branch observedAt from ann fd;
             fd' = fd\<lparr>fd_known := gput (branchKey ann) bi (fd_known fd)\<rparr>
         in if sameBranch ann loc then (None, fd')
            else
              let result = compareBranchWeightWithSupport loc ann
                    (branchSupportLocked loc fd') (length (bi_peers bi))
                    (isInvalidCommitLocked (gsa_CommitHash loc) fd')
                    (isInvalidCommitLocked (gsa_CommitHash ann) fd')
              in (Some \<lparr>fe_GroupID = '''', fe_RemotePeer = from, fe_LocalAnnounce = loc,
                        fe_RemoteAnnounce = ann, fe_RemoteEpoch = remoteEpoch, fe_Result = result,
                        fe_NeedExternalJoin = (result = BranchRemote),
                        fe_WinnerPeers = from # filter (\<lambda>p. p \<noteq> from) (bi_peers bi),
                        fe_PartitionStartedAt = bi_firstSeenAt bi\<rparr>, fd')))"

text \<open>The loop takes the first branch that lists the peer, in the iteration order of the map.\<close>

definition CompareWithPeer :: "peer_id \<Rightarrow> ForkDetector \<Rightarrow> BranchResult \<times> GroupStateAnnouncement option" where
  "CompareWithPeer from fd =
    (case fd_local fd of
       None \<Rightarrow> (BranchRemote, None)
     | Some loc \<Rightarrow>
        (case find (\<lambda>(key, bi). from \<in> set (bi_peers bi)) (fd_known fd) of
           None \<Rightarrow> (BranchRemote, None)
         | Some (key, bi) \<Rightarrow>
            (compareBranchWeightWithSupport loc (bi_announcement bi)
               (branchSupportLocked loc fd) (length (bi_peers bi))
               (isInvalidCommitLocked (gsa_CommitHash loc) fd)
               (isInvalidCommitLocked (gsa_CommitHash (bi_announcement bi)) fd),
             Some (bi_announcement bi))))"

definition KnownBranches :: "ForkDetector \<Rightarrow> nat" where
  "KnownBranches fd = length (fd_known fd)"

definition MarkInvalidCommit :: "bytes \<Rightarrow> ForkDetector \<Rightarrow> ForkDetector" where
  "MarkInvalidCommit commitHash fd =
    (if commitHash = [] then fd
     else fd\<lparr>fd_invalidCommits := List.insert (hex commitHash) (fd_invalidCommits fd)\<rparr>)"

definition Reset :: "ForkDetector \<Rightarrow> ForkDetector" where
  "Reset fd = fd\<lparr>fd_known := []\<rparr>"

datatype detector_op = OpUpdateLocal GroupStateAnnouncement
  | OpRemote int peer_id u64 GroupStateAnnouncement | OpMarkInvalid bytes | OpReset

fun detector_step :: "detector_op \<Rightarrow> ForkDetector \<Rightarrow> ForkDetector" where
  "detector_step (OpUpdateLocal ann) fd = UpdateLocal ann fd"
| "detector_step (OpRemote t p e ann) fd = snd (ProcessRemote t p e ann fd)"
| "detector_step (OpMarkInvalid h) fd = MarkInvalidCommit h fd"
| "detector_step OpReset fd = Reset fd"

section \<open>The comparison\<close>

lemma sameBranch_iff [simp]: "sameBranch a b \<longleftrightarrow> gsa_HistoryHash a = gsa_HistoryHash b"
  by (simp add: sameBranch_def branchKey_def)

lemma branchKey_inj [simp]: "branchKey a = branchKey b \<longleftrightarrow> gsa_HistoryHash a = gsa_HistoryHash b"
  by (simp add: branchKey_def)

text \<open>A branch as it is weighed: its announcement, its support and whether its commit is invalid.\<close>

type_synonym branch = "GroupStateAnnouncement \<times> nat \<times> bool"

definition beats :: "branch \<Rightarrow> branch \<Rightarrow> bool" where
  "beats a b \<longleftrightarrow> (case (a, b) of ((l, ls, li), (r, rs, ri)) \<Rightarrow>
    compareBranchWeightWithSupport l r ls rs li ri = BranchLocal)"

definition weight_tie :: "branch \<Rightarrow> branch \<Rightarrow> bool" where
  "weight_tie a b \<longleftrightarrow> (case (a, b) of ((l, ls, li), (r, rs, ri)) \<Rightarrow>
    li = ri \<and> ls = rs \<and> gsa_MemberCount l = gsa_MemberCount r \<and> gsa_Epoch l = gsa_Epoch r \<and>
    gsa_CommitHash l = gsa_CommitHash r \<and> gsa_TreeHash l = gsa_TreeHash r)"

lemma beats_iff:
  "beats (l, ls, li) (r, rs, ri) \<longleftrightarrow> gsa_HistoryHash l \<noteq> gsa_HistoryHash r \<and>
    (\<not> li \<and> ri \<or> li = ri \<and> (ls > rs \<or> ls = rs \<and>
      (gsa_MemberCount l > gsa_MemberCount r \<or> gsa_MemberCount l = gsa_MemberCount r \<and>
        (gsa_Epoch l > gsa_Epoch r \<or> gsa_Epoch l = gsa_Epoch r \<and>
          (gsa_CommitHash l > gsa_CommitHash r \<or> gsa_CommitHash l = gsa_CommitHash r \<and>
            gsa_TreeHash l < gsa_TreeHash r)))))"
  by (auto simp: beats_def compareBranchWeightWithSupport_def)

lemma lex_step:
  fixes a b c :: "'a::linorder"
  assumes "a > b \<or> a = b \<and> P" and "b > c \<or> b = c \<and> Q" and "P \<Longrightarrow> Q \<Longrightarrow> R"
  shows "a > c \<or> a = c \<and> R"
  using assms by auto

lemma beats_trans:
  assumes "beats (l, ls, li) (r, rs, ri)" and "beats (r, rs, ri) (x, xs, xi)"
    and "gsa_HistoryHash l \<noteq> gsa_HistoryHash x"
  shows "beats (l, ls, li) (x, xs, xi)"
proof -
  let ?rest = "\<lambda>l (ls :: nat) r rs. ls > rs \<or> ls = rs \<and>
      (gsa_MemberCount l > gsa_MemberCount r \<or> gsa_MemberCount l = gsa_MemberCount r \<and>
        (gsa_Epoch l > gsa_Epoch r \<or> gsa_Epoch l = gsa_Epoch r \<and>
          (gsa_CommitHash l > gsa_CommitHash r \<or> gsa_CommitHash l = gsa_CommitHash r \<and>
            gsa_TreeHash l < gsa_TreeHash r)))"
  have R: "?rest l ls x xs" if "?rest l ls r rs" "?rest r rs x xs"
    using that
    apply -
    apply (erule (1) lex_step)+
    apply (rule less_trans)
     apply assumption+
    done
  have v1: "\<not> li \<and> ri \<or> li = ri \<and> ?rest l ls r rs" using assms(1) unfolding beats_iff by (rule conjunct2)
  have v2: "\<not> ri \<and> xi \<or> ri = xi \<and> ?rest r rs x xs" using assms(2) unfolding beats_iff by (rule conjunct2)
  have "\<not> li \<and> xi \<or> li = xi \<and> ?rest l ls x xs" using v1 v2 R by blast
  then show ?thesis using assms(3) unfolding beats_iff by blast
qed

lemma lex_flip:
  fixes a b :: "'a::linorder"
  shows "(a = b \<Longrightarrow> P \<longleftrightarrow> \<not> Q) \<Longrightarrow> (a > b \<or> a = b \<and> P) \<longleftrightarrow> \<not> (b > a \<or> b = a \<and> Q)"
  by auto

lemma beats_flip:
  assumes "gsa_HistoryHash l \<noteq> gsa_HistoryHash r" and "\<not> weight_tie (l, ls, li) (r, rs, ri)"
  shows "beats (l, ls, li) (r, rs, ri) \<longleftrightarrow> \<not> beats (r, rs, ri) (l, ls, li)"
proof (cases "li = ri")
  case True
  let ?rest = "\<lambda>l (ls :: nat) r rs. ls > rs \<or> ls = rs \<and>
      (gsa_MemberCount l > gsa_MemberCount r \<or> gsa_MemberCount l = gsa_MemberCount r \<and>
        (gsa_Epoch l > gsa_Epoch r \<or> gsa_Epoch l = gsa_Epoch r \<and>
          (gsa_CommitHash l > gsa_CommitHash r \<or> gsa_CommitHash l = gsa_CommitHash r \<and>
            gsa_TreeHash l < gsa_TreeHash r)))"
  have "?rest l ls r rs \<longleftrightarrow> \<not> ?rest r rs l ls"
    using assms(2) True by (intro lex_flip) (auto simp: weight_tie_def)
  then show ?thesis using assms(1) True unfolding beats_iff by metis
next
  case False
  then show ?thesis using assms(1) by (auto simp: beats_iff)
qed

lemma result_beats:
  assumes "gsa_HistoryHash l \<noteq> gsa_HistoryHash r"
  shows "compareBranchWeightWithSupport l r ls rs li ri = BranchLocal \<longleftrightarrow> beats (l, ls, li) (r, rs, ri)"
    and "compareBranchWeightWithSupport l r ls rs li ri = BranchRemote \<longleftrightarrow> \<not> beats (l, ls, li) (r, rs, ri)"
proof -
  have "compareBranchWeightWithSupport l r ls rs li ri \<noteq> BranchEqual"
    using assms by (simp add: compareBranchWeightWithSupport_def)
  then show "compareBranchWeightWithSupport l r ls rs li ri = BranchLocal \<longleftrightarrow> beats (l, ls, li) (r, rs, ri)"
    "compareBranchWeightWithSupport l r ls rs li ri = BranchRemote \<longleftrightarrow> \<not> beats (l, ls, li) (r, rs, ri)"
    by (cases "compareBranchWeightWithSupport l r ls rs li ri"; simp add: beats_def)+
qed



text \<open>
  Where everything but the history ties, both sides give their branch up: the last test of the
  comparison answers \<^verbatim>\<open>BranchRemote\<close> for equal tree hashes, whichever side asks.
\<close>

lemma branch_tie_both_yield:
  assumes "weight_tie (l, ls, li) (r, rs, ri)" and "gsa_HistoryHash l \<noteq> gsa_HistoryHash r"
  shows "compareBranchWeightWithSupport l r ls rs li ri = BranchRemote"
    and "compareBranchWeightWithSupport r l rs ls ri li = BranchRemote"
  using assms by (auto simp: weight_tie_def compareBranchWeightWithSupport_def)

section \<open>Events\<close>

lemma ProcessRemote_simps [simp]:
  "fd_local (snd (ProcessRemote t p e ann fd)) = fd_local fd"
  "fd_invalidCommits (snd (ProcessRemote t p e ann fd)) = fd_invalidCommits fd"
  by (auto simp: ProcessRemote_def Let_def split: option.splits)

lemma UpdateLocal_simps [simp]:
  "fd_local (UpdateLocal ann fd) = Some ann"
  "fd_invalidCommits (UpdateLocal ann fd) = fd_invalidCommits fd"
  by (auto simp: UpdateLocal_def Let_def split: option.splits)

lemma detector_step_invalid:
  "set (fd_invalidCommits fd) \<subseteq> set (fd_invalidCommits (detector_step x fd))"
  by (cases x) (auto simp: MarkInvalidCommit_def Reset_def)

lemma detector_run_invalid:
  "set (fd_invalidCommits fd) \<subseteq> set (fd_invalidCommits (fold detector_step ops fd))"
proof (induction ops arbitrary: fd)
  case (Cons x ops)
  then show ?case using detector_step_invalid [of fd x] by fastforce
qed simp

lemma event_shape:
  assumes "ProcessRemote t p e ann fd = (Some ev, fd')"
  shows "fe_RemotePeer ev = p" "fe_RemoteAnnounce ev = ann" "fd_local fd = Some (fe_LocalAnnounce ev)"
    "gsa_HistoryHash ann \<noteq> gsa_HistoryHash (fe_LocalAnnounce ev)"
    "fe_NeedExternalJoin ev \<longleftrightarrow> fe_Result ev = BranchRemote" "fe_RemoteEpoch ev = e"
    "fe_Result ev = compareBranchWeightWithSupport (fe_LocalAnnounce ev) ann
       (branchSupportLocked (fe_LocalAnnounce ev) fd') (length (bi_peers (observe_branch t p ann fd)))
       (isInvalidCommitLocked (gsa_CommitHash (fe_LocalAnnounce ev)) fd')
       (isInvalidCommitLocked (gsa_CommitHash ann) fd')"
    "fe_PartitionStartedAt ev = bi_firstSeenAt (observe_branch t p ann fd)"
    "fe_WinnerPeers ev = p # filter (\<lambda>q. q \<noteq> p) (bi_peers (observe_branch t p ann fd))"
    "fd_known fd' = gput (branchKey ann) (observe_branch t p ann fd) (fd_known fd)"
    "fd_invalidCommits fd' = fd_invalidCommits fd"
  using assms by (auto simp: ProcessRemote_def Let_def split: option.splits if_splits)



section \<open>The detector as a log of announcements\<close>

text \<open>
  The contract: the local announcement and the announcements received since the branches were last
  cleared, as (time, peer, history hash).
\<close>

type_synonym announce_log = "GroupStateAnnouncement option \<times> (int \<times> peer_id \<times> bytes) list"

fun log_step :: "detector_op \<Rightarrow> announce_log \<Rightarrow> announce_log" where
  "log_step (OpUpdateLocal ann) (loc, log) =
    (Some ann, case loc of Some l \<Rightarrow> if gsa_Epoch ann > gsa_Epoch l then [] else log | None \<Rightarrow> log)"
| "log_step (OpRemote t p e ann) (loc, log) =
    (loc, case loc of None \<Rightarrow> log | Some l \<Rightarrow> log @ [(t, p, gsa_HistoryHash ann)])"
| "log_step (OpMarkInvalid h) (loc, log) = (loc, log)"
| "log_step OpReset (loc, log) = (loc, [])"

definition on_branch :: "bytes \<Rightarrow> (int \<times> peer_id \<times> bytes) list \<Rightarrow> (int \<times> peer_id \<times> bytes) list" where
  "on_branch h log = filter (\<lambda>(t, p, g). g = h) log"

definition branch_of_log :: "bytes \<Rightarrow> (int \<times> peer_id \<times> bytes) list \<Rightarrow> branchInfo option \<Rightarrow> bool" where
  "branch_of_log h log b \<longleftrightarrow>
    (case b of
       None \<Rightarrow> on_branch h log = []
     | Some bi \<Rightarrow> on_branch h log \<noteq> [] \<and> bi_firstSeenAt bi = fst (hd (on_branch h log)) \<and>
         distinct (bi_peers bi) \<and> set (bi_peers bi) = (\<lambda>(t, p, g). p) ` set (on_branch h log) \<and>
         gsa_HistoryHash (bi_announcement bi) = h)"

definition log_rel :: "ForkDetector \<Rightarrow> announce_log \<Rightarrow> bool" where
  "log_rel fd lg \<longleftrightarrow> fd_local fd = fst lg \<and>
    (\<forall>h. branch_of_log h (snd lg) (gget (fd_known fd) (''h:'' @ hex h)))"

lemma on_branch_append [simp]:
  "on_branch h (log @ [(t, p, g)]) = (if g = h then on_branch h log @ [(t, p, g)] else on_branch h log)"
  by (simp add: on_branch_def)

lemma on_branch_empty [simp]: "on_branch h [] = []"
  by (simp add: on_branch_def)

lemma branch_of_log_observe:
  assumes "branch_of_log (gsa_HistoryHash ann) log (gget (fd_known fd) (branchKey ann))"
  shows "branch_of_log (gsa_HistoryHash ann) (log @ [(t, p, gsa_HistoryHash ann)])
    (Some (observe_branch t p ann fd))"
  using assms
  by (auto simp: branch_of_log_def observe_branch_def Let_def split: option.splits)

lemma branch_of_log_other:
  "h \<noteq> g \<Longrightarrow> branch_of_log h (log @ [(t, p, g)]) b \<longleftrightarrow> branch_of_log h log b"
  by (simp add: branch_of_log_def cong: option.case_cong)

lemma log_rel_step: "log_rel fd lg \<Longrightarrow> log_rel (detector_step x fd) (log_step x lg)"
proof -
  obtain loc log where lg: "lg = (loc, log)" by force
  assume R: "log_rel fd lg"
  show ?thesis
  proof (cases x)
    case (OpUpdateLocal ann)
    then show ?thesis using R lg
      by (auto simp: log_rel_def UpdateLocal_def Let_def branch_of_log_def on_branch_def split: option.splits)
  next
    case (OpRemote t p e ann)
    have o: "branch_of_log (gsa_HistoryHash ann) (log @ [(t, p, gsa_HistoryHash ann)])
        (Some (observe_branch t p ann fd))"
      using R lg by (intro branch_of_log_observe) (simp add: log_rel_def branchKey_def)
    show ?thesis
      using R lg OpRemote o
      by (auto simp: log_rel_def ProcessRemote_def Let_def branchKey_def branch_of_log_other split: option.splits)
  next
    case (OpMarkInvalid h)
    then show ?thesis using R lg by (auto simp: log_rel_def MarkInvalidCommit_def)
  next
    case OpReset
    then show ?thesis using R lg
      by (auto simp: log_rel_def Reset_def branch_of_log_def on_branch_def)
  qed
qed

lemma log_rel_run: "log_rel fd lg \<Longrightarrow> log_rel (fold detector_step ops fd) (fold log_step ops lg)"
  by (induction ops arbitrary: fd lg) (simp_all add: log_rel_step)

lemma log_rel_New: "log_rel NewForkDetector (None, [])"
  by (simp add: log_rel_def NewForkDetector_def branch_of_log_def on_branch_def)

text \<open>
  C25: What a fork event says, after any history of the detector: it is raised exactly when a local
  announcement is set and the history hashes differ; the node must rejoin exactly when its branch
  does not beat the remote one, the remote support being the number of distinct peers that announced
  that history since the branches were last cleared; the peers to heal from are those peers, the
  announcing one first; and the start of the partition is the first of those announcements.
\<close>

theorem fork_event_spec:
  assumes "fd = fold detector_step ops NewForkDetector"
    and "(loc, log) = fold log_step ops (None, [])"
    and "seen = on_branch (gsa_HistoryHash ann) (log @ [(t, p, gsa_HistoryHash ann)])"
    and "P = (\<lambda>(t, q, g). q) ` set seen"
  shows "(case ProcessRemote t p e ann fd of
      (None, _) \<Rightarrow> loc = None \<or> (\<exists>l. loc = Some l \<and> gsa_HistoryHash l = gsa_HistoryHash ann)
    | (Some ev, fd') \<Rightarrow> \<exists>l. loc = Some l \<and> gsa_HistoryHash l \<noteq> gsa_HistoryHash ann \<and>
        (fe_NeedExternalJoin ev \<longleftrightarrow> \<not> beats (l, branchSupportLocked l fd', isInvalidCommitLocked (gsa_CommitHash l) fd)
           (ann, card P, isInvalidCommitLocked (gsa_CommitHash ann) fd)) \<and>
        hd (fe_WinnerPeers ev) = p \<and> distinct (fe_WinnerPeers ev) \<and> set (fe_WinnerPeers ev) = P \<and>
        fe_PartitionStartedAt ev = fst (hd seen))"
proof -
  have R: "log_rel fd (loc, log)" using log_rel_run [OF log_rel_New] assms(1,2) by simp
  then have loc: "fd_local fd = loc" by (simp add: log_rel_def)
  have "branch_of_log (gsa_HistoryHash ann) (log @ [(t, p, gsa_HistoryHash ann)]) (Some (observe_branch t p ann fd))"
    using R by (intro branch_of_log_observe) (simp add: log_rel_def branchKey_def)
  then have o: "bi_firstSeenAt (observe_branch t p ann fd) = fst (hd seen)"
    "distinct (bi_peers (observe_branch t p ann fd))" "set (bi_peers (observe_branch t p ann fd)) = P"
    by (simp_all add: branch_of_log_def assms(3,4))
  have card: "length (bi_peers (observe_branch t p ann fd)) = card P"
    using o(2,3) distinct_card by metis
  have p: "p \<in> P" using assms(3,4) by (force simp: on_branch_def)
  show ?thesis
  proof (cases "ProcessRemote t p e ann fd")
    case (Pair oev fd')
    show ?thesis
    proof (cases oev)
      case None
      then show ?thesis using Pair loc
        by (auto simp: ProcessRemote_def Let_def split: option.splits if_splits)
    next
      case (Some ev)
      note ev = event_shape [OF Pair [unfolded Some]]
      have "isInvalidCommitLocked h fd' = isInvalidCommitLocked h fd" for h
        using ev(11) by (simp add: isInvalidCommitLocked_def)
      then have "fe_Result ev = BranchRemote \<longleftrightarrow>
        \<not> beats (fe_LocalAnnounce ev, branchSupportLocked (fe_LocalAnnounce ev) fd',
            isInvalidCommitLocked (gsa_CommitHash (fe_LocalAnnounce ev)) fd)
           (ann, card P, isInvalidCommitLocked (gsa_CommitHash ann) fd)"
        using ev(4,7) card by (simp add: result_beats(2))
      moreover have "insert p {q \<in> P. q \<noteq> p} = P" using p by auto
      ultimately show ?thesis
        using Pair Some loc ev(3,4,5,8,9) o by (auto simp del: sameBranch_iff)
    qed
  qed
qed

theorem fork_event_spec_witness:
  "\<exists>loc ann ev fd'. ProcessRemote 9 ''q'' 4 ann
      (fold detector_step [OpUpdateLocal loc, OpRemote 5 ''p'' 4 ann] NewForkDetector) = (Some ev, fd') \<and>
    fe_PartitionStartedAt ev = 5 \<and> set (fe_WinnerPeers ev) = {''p'', ''q''}"
proof -
  define loc where "loc = \<lparr>gsa_TreeHash = [1], gsa_MemberCount = 3, gsa_Epoch = 4, gsa_CommitHash = [9], gsa_HistoryHash = [1]\<rparr>"
  define ann where "ann = \<lparr>gsa_TreeHash = [2], gsa_MemberCount = 8, gsa_Epoch = 4, gsa_CommitHash = [7], gsa_HistoryHash = [2]\<rparr>"
  let ?ops = "[OpUpdateLocal loc, OpRemote 5 ''p'' 4 ann]"
  have lg: "(Some loc, [(5, ''p'', [2])]) = fold log_step ?ops (None, [])" by (simp add: ann_def)
  have seen: "on_branch (gsa_HistoryHash ann) ([(5, ''p'', [2])] @ [(9, ''q'', gsa_HistoryHash ann)]) =
      [(5, ''p'', [2]), (9, ''q'', [2])]"
    unfolding on_branch_append by (simp add: ann_def on_branch_def)
  note spec = fork_event_spec [OF refl lg refl refl, of ann 9 "''q''" 4]
  obtain oev fd' where r: "ProcessRemote 9 ''q'' 4 ann (fold detector_step ?ops NewForkDetector) = (oev, fd')"
    by force
  have "gsa_HistoryHash loc \<noteq> gsa_HistoryHash ann" by (simp add: ann_def loc_def)
  then have "oev \<noteq> None" using spec unfolding r prod.case by (cases oev) simp_all
  then obtain ev where "oev = Some ev" by blast
  have "fe_PartitionStartedAt ev = 5 \<and> set (fe_WinnerPeers ev) = {''p'', ''q''}"
    using spec unfolding r \<open>oev = Some ev\<close> prod.case option.case seen by auto
  then show ?thesis using r \<open>oev = Some ev\<close>
    by (intro exI [of _ loc] exI [of _ ann] exI [of _ ev] exI [of _ fd']) (simp only: simp_thms)
qed

end
