(* ===== verification/Wire.thy ===== *)
theory Wire
  imports HLC SingleWriter ForkDetector
begin

text \<open>
  The data of \<^verbatim>\<open>coordination/types.go\<close>: envelopes and their payloads, the rows the coordinator persists,
  the states of a replayed envelope, and the helpers of \<^verbatim>\<open>coordinator_helpers.go\<close> that convert between
  them. Names of a record's fields carry a prefix for the record. A \<^verbatim>\<open>time.Time\<close> is a number of
  nanoseconds since the Unix epoch; pointers that may be nil are options; a nil and an empty byte slice
  are told apart only where the code does.
\<close>

section \<open>Time\<close>

type_synonym time = int

definition zero_time :: time where
  "zero_time = - 62135596800 * 1000000000"

definition UnixMilli :: "time \<Rightarrow> int" where
  "UnixMilli t = t div 1000000"

definition Unix :: "time \<Rightarrow> int" where
  "Unix t = t div 1000000000"

section \<open>Wire messages\<close>

datatype MessageType =
    MsgProposal | MsgCommit | MsgHeartbeat | MsgAnnounce | MsgEpochNotify | MsgApplication
  | MsgApplicationBatched | MsgDeliveryAck | MsgHistoryQuery | MsgHistoryReply
  | MsgOther string

record Envelope =
  env_Type :: MessageType
  env_GroupID :: string
  env_Epoch :: u64
  env_From :: string
  env_Timestamp :: HLCTimestamp
  env_Payload :: bytes

record ProposalMsg =
  pm_ProposalType :: ProposalType
  pm_Data :: bytes
  pm_ProposalRef :: bytes
  pm_OperationID :: string
  pm_TargetPeerID :: string
  pm_TargetIdentity :: bytes
  pm_RequestID :: string
  pm_GroupType :: string
  pm_CategoryID :: string
  pm_KeyPackageHash :: bytes

record AddCommitDelivery =
  ad_OperationID :: string
  ad_TargetPeerID :: string
  ad_RequestID :: string
  ad_GroupType :: string
  ad_CategoryID :: string
  ad_KeyPackageHash :: bytes
  ad_WelcomeHash :: bytes

record CommitMsg =
  cm_CommitData :: bytes
  cm_WelcomeData :: bytes
  cm_NewTreeHash :: bytes
  cm_AddDeliveries :: "AddCommitDelivery list"
  cm_IncludedProposals :: "ProposalMsg list"
  cm_CommittedProposalRefs :: "bytes list"

record HistoryQueryMsg =
  hq_Epoch :: u64

record HistoryReplyMsg =
  hr_Epoch :: u64
  hr_HistoryHash :: bytes
  hr_Known :: bool

text \<open>\<^verbatim>\<open>ApplicationMsg\<close> and \<^verbatim>\<open>BatchedApplicationMsg\<close> carry a ciphertext, \<^verbatim>\<open>DeliveryAckMsg\<close> a hash.\<close>

record ApplicationEventPayload =
  ap_EventID :: string
  ap_Plaintext :: bytes
  ap_HLC :: bytes

type_synonym BatchedPlaintext = "ApplicationEventPayload list"

section \<open>Persistent rows\<close>

definition RoleCreator :: string where "RoleCreator = ''creator''"
definition RoleMember :: string where "RoleMember = ''member''"

record GroupRecord =
  gr_GroupID :: string
  gr_GroupState :: bytes
  gr_Epoch :: u64
  gr_TreeHash :: bytes
  gr_MyRole :: string
  gr_GroupType :: string
  gr_CategoryID :: string
  gr_DMCounterpartyPeerID :: string
  gr_CreatedAt :: time
  gr_UpdatedAt :: time

record CoordState =
  cs_GroupID :: string
  cs_ActiveView :: "peer_id list"
  cs_TokenHolder :: peer_id
  cs_LastCommitHash :: bytes
  cs_LastCommitAt :: time
  cs_PendingProposals :: "bytes list"
  cs_HistoryChain :: "(u64, bytes) gomap"

record StoredMessage =
  sm_MessageID :: string
  sm_GroupID :: string
  sm_Epoch :: u64
  sm_SenderID :: peer_id
  sm_Content :: bytes
  sm_Timestamp :: HLCTimestamp
  sm_LocalEchoToken :: string
  sm_EnvelopeHash :: bytes
  sm_CommentCount :: int
  sm_ReplayedAt :: "int option"
  sm_SupersedesMessageID :: string

record EnvelopeRecord =
  er_Seq :: int
  er_GroupID :: string
  er_MsgType :: MessageType
  er_Epoch :: u64
  er_Envelope :: bytes
  er_Timestamp :: HLCTimestamp
  er_EnvelopeHash :: bytes
  er_SourcePath :: string
  er_ApplyState :: string
  er_LastApplyError :: string
  er_LastApplyAttemptAt :: int
  er_AppliedAt :: int
  er_FirstSeenAtMs :: int
  er_ReceivedAtMs :: int

text \<open>\<^verbatim>\<open>ReplayEnvelopeState\<close> is a string; the empty string is a result that has none yet.\<close>

type_synonym ReplayEnvelopeState = string

definition ReplayStateReceived :: ReplayEnvelopeState where "ReplayStateReceived = ''RECEIVED''"
definition ReplayStateReady :: ReplayEnvelopeState where "ReplayStateReady = ''READY''"
definition ReplayStateApplied :: ReplayEnvelopeState where "ReplayStateApplied = ''APPLIED''"
definition ReplayStateDuplicateApplied :: ReplayEnvelopeState where "ReplayStateDuplicateApplied = ''DUPLICATE''"
definition ReplayStateFutureEpoch :: ReplayEnvelopeState where "ReplayStateFutureEpoch = ''FUTURE_EPOCH''"
definition ReplayStateStaleEpoch :: ReplayEnvelopeState where "ReplayStateStaleEpoch = ''STALE_EPOCH''"
definition ReplayStateDecryptFailed :: ReplayEnvelopeState where "ReplayStateDecryptFailed = ''DECRYPT_FAILED''"
definition ReplayStatePersistFailed :: ReplayEnvelopeState where "ReplayStatePersistFailed = ''PERSIST_FAILED''"
definition ReplayStateInvalid :: ReplayEnvelopeState where "ReplayStateInvalid = ''INVALID''"
definition ReplayStateBlockedMissingPriorEpoch :: ReplayEnvelopeState where
  "ReplayStateBlockedMissingPriorEpoch = ''BLOCKED_MISSING_PRIOR_EPOCH''"
definition ReplayStateBlockedMissingCommit :: ReplayEnvelopeState where
  "ReplayStateBlockedMissingCommit = ''BLOCKED_MISSING_COMMIT''"
definition ReplayStateForkConflict :: ReplayEnvelopeState where "ReplayStateForkConflict = ''FORK_CONFLICT''"
definition ReplayStateWaitingSync :: ReplayEnvelopeState where "ReplayStateWaitingSync = ''WAITING_SYNC''"

lemmas replay_state_defs =
  ReplayStateReceived_def ReplayStateReady_def ReplayStateApplied_def ReplayStateDuplicateApplied_def
  ReplayStateFutureEpoch_def ReplayStateStaleEpoch_def ReplayStateDecryptFailed_def
  ReplayStatePersistFailed_def ReplayStateInvalid_def ReplayStateBlockedMissingPriorEpoch_def
  ReplayStateBlockedMissingCommit_def ReplayStateForkConflict_def ReplayStateWaitingSync_def

definition IsPendingApplyState :: "string \<Rightarrow> bool" where
  "IsPendingApplyState state \<longleftrightarrow> state \<in> {''pending'', ReplayStateReceived, ReplayStateReady,
     ReplayStateFutureEpoch, ReplayStatePersistFailed, ReplayStateBlockedMissingPriorEpoch,
     ReplayStateBlockedMissingCommit, ReplayStateForkConflict, ReplayStateWaitingSync,
     ''future_epoch'', ''persist_failed''}"

record ReplayEnvelopeResult =
  rr_GroupID :: string
  rr_MsgType :: MessageType
  rr_EnvelopeHash :: bytes
  rr_State :: ReplayEnvelopeState
  rr_Seq :: int
  rr_MsgEpoch :: u64
  rr_LocalEpoch :: u64
  rr_Error :: string
  rr_Terminal :: bool
  rr_CursorSafe :: bool
  rr_Applied :: bool
  rr_AlreadyApplied :: bool

record PendingDeliveryAckRow =
  pa_ID :: int
  pa_TargetPeerID :: string
  pa_GroupID :: string
  pa_AckedSeq :: int

record ForkHealEventRecord =
  he_TraceID :: string
  he_GroupID :: string
  he_WinnerPeerID :: string
  he_WinnerEpoch :: u64
  he_NewEpoch :: u64
  he_Outcome :: string
  he_FailedStep :: string
  he_WinnerTreeHash :: bytes
  he_NewTreeHash :: bytes
  he_PartitionStartedAtMs :: int
  he_ScheduledAtMs :: int
  he_StartedAtMs :: int
  he_CompletedAtMs :: int
  he_DurationMs :: int
  he_TotalMs :: int
  he_ReplayedMessageCount :: int

record ForkHealAuditRecord =
  ha_TraceID :: string
  ha_GroupID :: string
  ha_Step :: string
  ha_Status :: string
  ha_TimestampMs :: int
  ha_DurationMs :: int
  ha_Error :: string

datatype GroupOperationalMode = ModeLive | ModeCatchingUp | ModeFrozen | ModeFrozenForApply

record PendingOperation =
  po_OperationID :: string
  po_GroupID :: string
  po_OpType :: string
  po_IdempotencyKey :: "string option"
  po_OperationHash :: bytes
  po_PreconditionEpoch :: "u64 option"
  po_PreconditionStateHash :: bytes
  po_TargetMemberID :: "string option"
  po_SemanticPayload :: bytes
  po_LatestProposalHash :: bytes
  po_Status :: string
  po_RetryCount :: int
  po_ExpiresAt :: "int option"
  po_LastError :: "string option"
  po_CreatedAt :: time
  po_UpdatedAt :: time

record ForkHealingJob =
  fj_JobID :: string
  fj_GroupID :: string
  fj_TraceID :: string
  fj_Status :: string
  fj_LosingBranchID :: string
  fj_WinningBranchID :: string
  fj_ForkBaseEpoch :: u64
  fj_LosingEpoch :: u64
  fj_WinningEpoch :: u64
  fj_LosingTreeHash :: bytes
  fj_WinningTreeHash :: bytes
  fj_WinningCommitHash :: bytes
  fj_WinningGroupInfoHash :: bytes
  fj_WinnerPeerID :: string
  fj_WinnerGroupInfo :: bytes
  fj_BranchWeightJSON :: string
  fj_PendingGroupState :: bytes
  fj_PendingEpoch :: u64
  fj_PendingTreeHash :: bytes
  fj_PendingBundlePrivate :: bytes
  fj_ErrorMessage :: string
  fj_RetryCount :: int
  fj_CreatedAtMs :: int
  fj_UpdatedAtMs :: int
  fj_CompletedAtMs :: int

record ApplicationEvent =
  ae_EventID :: string
  ae_JobID :: string
  ae_GroupID :: string
  ae_OriginalBranchID :: string
  ae_OriginalEpoch :: u64
  ae_AuthorID :: string
  ae_EnvelopeHash :: bytes
  ae_PayloadSealed :: bytes
  ae_PayloadHash :: bytes
  ae_SealKeyID :: string
  ae_SealNonce :: bytes
  ae_HlcWallTimeMs :: int
  ae_HlcCounter :: u32
  ae_HlcNodeID :: string
  ae_Status :: string
  ae_ReplayOperationID :: string
  ae_ReplayedEnvelopeHash :: bytes
  ae_ReplayedAtMs :: int
  ae_ReplayAttemptCount :: int
  ae_LastError :: string
  ae_CreatedAtMs :: int
  ae_UpdatedAtMs :: int

record OutboundReplay =
  or_ReplayOperationID :: string
  or_EventID :: string
  or_JobID :: string
  or_GroupID :: string
  or_ReplayEnvelope :: bytes
  or_ReplayedEnvelopeHash :: bytes
  or_Status :: string
  or_AttemptCount :: int
  or_CreatedAtMs :: int
  or_UpdatedAtMs :: int

section \<open>Audit summaries\<close>

record ProposalAuditSummary =
  pas_GroupID :: string
  pas_Epoch :: u64
  pas_ActorPeerID :: string
  pas_ProposalType :: ProposalType
  pas_OperationID :: string
  pas_TargetPeerID :: string
  pas_RequestID :: string
  pas_GroupType :: string
  pas_CategoryID :: string
  pas_KeyPackageHash :: bytes

record CommitAuditProposalSummary =
  cps_ProposalType :: ProposalType
  cps_OperationID :: string
  cps_TargetPeerID :: string
  cps_RequestID :: string
  cps_GroupType :: string
  cps_CategoryID :: string

record CommitAuditSummary =
  cas_GroupID :: string
  cas_TokenHolderPeerID :: string
  cas_PrevEpoch :: u64
  cas_NewEpoch :: u64
  cas_Proposals :: "CommitAuditProposalSummary list"

record PendingOperationAuditSummary =
  pos_GroupID :: string
  pos_OperationID :: string
  pos_OpType :: string
  pos_TargetPeerID :: string
  pos_Stage :: string
  pos_RetryCount :: int
  pos_CurrentEpoch :: u64
  pos_PreconditionEpoch :: u64
  pos_LastError :: string

section \<open>Helpers\<close>

definition GroupTopic :: "string \<Rightarrow> string" where
  "GroupTopic groupID = ''/org/group/'' @ groupID"

definition summarizeBufferedProposal :: "BufferedProposal \<Rightarrow> CommitAuditProposalSummary" where
  "summarizeBufferedProposal p =
    \<lparr>cps_ProposalType = bp_Type p, cps_OperationID = bp_OperationID p, cps_TargetPeerID = bp_TargetPeerID p,
     cps_RequestID = bp_RequestID p, cps_GroupType = bp_GroupType p, cps_CategoryID = bp_CategoryID p\<rparr>"

definition buildAddDeliveriesFromBatch ::
  "(bytes \<Rightarrow> bytes) \<Rightarrow> BufferedProposal list \<Rightarrow> bytes \<Rightarrow> AddCommitDelivery list" where
  "buildAddDeliveriesFromBatch sha256 batch welcomeBytes =
    (if batch = [] then []
     else let welcomeHash = (if welcomeBytes \<noteq> [] then sha256 welcomeBytes else [])
          in map (\<lambda>p. \<lparr>ad_OperationID = bp_OperationID p, ad_TargetPeerID = bp_TargetPeerID p,
                        ad_RequestID = bp_RequestID p, ad_GroupType = bp_GroupType p,
                        ad_CategoryID = bp_CategoryID p, ad_KeyPackageHash = bp_KeyPackageHash p,
                        ad_WelcomeHash = welcomeHash\<rparr>)
               (filter (\<lambda>p. bp_Type p = ProposalAdd) batch))"

definition proposalMsgsFromBatch :: "BufferedProposal list \<Rightarrow> ProposalMsg list" where
  "proposalMsgsFromBatch batch =
    map (\<lambda>p. \<lparr>pm_ProposalType = bp_Type p, pm_Data = bp_Data p, pm_ProposalRef = bp_ProposalRef p,
              pm_OperationID = bp_OperationID p, pm_TargetPeerID = bp_TargetPeerID p,
              pm_TargetIdentity = [], pm_RequestID = bp_RequestID p, pm_GroupType = bp_GroupType p,
              pm_CategoryID = bp_CategoryID p, pm_KeyPackageHash = bp_KeyPackageHash p\<rparr>) batch"

definition bufferedBatchFromProposalMsgs :: "ProposalMsg list \<Rightarrow> BufferedProposal list" where
  "bufferedBatchFromProposalMsgs proposals =
    map (\<lambda>p. \<lparr>bp_Type = pm_ProposalType p, bp_Data = pm_Data p, bp_ProposalRef = pm_ProposalRef p,
              bp_OperationID = pm_OperationID p, bp_TargetPeerID = pm_TargetPeerID p,
              bp_RequestID = pm_RequestID p, bp_GroupType = pm_GroupType p,
              bp_CategoryID = pm_CategoryID p, bp_KeyPackageHash = pm_KeyPackageHash p\<rparr>) proposals"

definition proposalBytesFromMsgs :: "ProposalMsg list \<Rightarrow> bytes list" where
  "proposalBytesFromMsgs proposals = map pm_Data proposals"

definition sortBytesList :: "bytes list \<Rightarrow> bytes list" where
  "sortBytesList items = SliceStable (<) items"

definition proposalRefSetsEqual :: "bytes list \<Rightarrow> bytes list \<Rightarrow> bool" where
  "proposalRefSetsEqual a b =
    (if length a \<noteq> length b then False
     else list_all2 (=) (sortBytesList a) (sortBytesList b))"

definition removesPeer :: "(peer_id \<Rightarrow> string) \<Rightarrow> BufferedProposal list \<Rightarrow> peer_id \<Rightarrow> bool" where
  "removesPeer pidString batch pid =
    (if pid = '''' then False
     else list_ex (\<lambda>p. bp_Type p = ProposalRemove \<and> bp_TargetPeerID p = pidString pid) batch)"

definition batchContainsType :: "BufferedProposal list \<Rightarrow> ProposalType \<Rightarrow> bool" where
  "batchContainsType batch pType = list_ex (\<lambda>p. bp_Type p = pType) batch"

section \<open>Lemmas on the helpers\<close>

lemma proposalRefSetsEqual_iff: "proposalRefSetsEqual a b \<longleftrightarrow> mset a = mset b"
proof
  assume "proposalRefSetsEqual a b"
  then have "SliceStable (<) a = SliceStable (<) b"
    by (simp add: proposalRefSetsEqual_def sortBytesList_def list_all2_eq split: if_splits)
  then show "mset a = mset b" by (metis mset_SliceStable)
next
  assume m: "mset a = mset b"
  then have "SliceStable (<) a = SliceStable (<) b"
    by (rule linear.SliceStable_unique) (simp add: not_less)
  moreover have "length a = length b" using m by (rule mset_eq_length)
  ultimately show "proposalRefSetsEqual a b"
    by (simp add: proposalRefSetsEqual_def sortBytesList_def list_all2_eq)
qed

lemma batch_roundtrip [simp]: "bufferedBatchFromProposalMsgs (proposalMsgsFromBatch batch) = batch"
  by (induction batch) (simp_all add: bufferedBatchFromProposalMsgs_def proposalMsgsFromBatch_def)

end
