(* ===== verification/Storage.thy ===== *)
theory Storage
  imports Wire
begin

text \<open>
  The SQLite storage of the coordinator, \<^verbatim>\<open>adapter/store/coordination_storage.go\<close> with the tables of
  \<^verbatim>\<open>adapter/store/db.go\<close>: group records, coordination state, messages, and the transactions that apply a
  commit or a message exactly once. A table is a list of rows or a map on its key, with the statements
  of each operation as functions on it. A transaction commits or rolls back as a whole, so one fault
  decides one call: the database carries the faults its next calls meet, and every theorem holds for
  any of them. \<^verbatim>\<open>time.Now()\<close> is the argument \<^verbatim>\<open>now\<close>.
\<close>

section \<open>The database\<close>

record mls_group_row =
  mg_group_state :: bytes
  mg_epoch :: u64
  mg_tree_hash :: bytes
  mg_my_role :: string
  mg_lifecycle_status :: string
  mg_left_at :: int
  mg_group_type :: string
  mg_dm_counterparty_peer_id :: string
  mg_category_id :: string
  mg_created_at :: int  \<comment> \<open>the wall-clock text of \<^verbatim>\<open>time.DateTime\<close>, as its seconds\<close>
  mg_updated_at :: int

record coord_row =
  cw_active_view :: "string list"
  cw_token_holder :: string
  cw_last_commit_hash :: bytes
  cw_last_commit_at :: "int option"
  cw_pending_proposals :: "bytes list"
  cw_history_chain :: "(string \<times> string) list"  \<comment> \<open>the fields of the JSON object\<close>

record message_row =
  ms_group_id :: string
  ms_epoch :: u64
  ms_sender_id :: string
  ms_content :: bytes
  ms_hlc :: HLCTimestamp
  ms_envelope_hash :: bytes
  ms_replayed_at :: "int option"

record log_row = EnvelopeRecord +
  lr_id :: int
  lr_created_at :: int

record DB =
  db_tz :: int  \<comment> \<open>offset of the process's time zone in seconds\<close>
  db_faults :: "bool list"
  db_groups :: "(string, mls_group_row) gomap"
  db_coord :: "(string, coord_row) gomap"
  db_messages :: "message_row list"
  db_log :: "log_row list"
  db_log_next_id :: int
  db_dedup :: "((string \<times> bytes), int) gomap"
  db_applied :: "((string \<times> bytes), (MessageType \<times> u64 \<times> int)) gomap"
  db_sync_acks :: "((string \<times> string), (int \<times> int)) gomap"
  db_ack_queue :: "PendingDeliveryAckRow list"
  db_ack_next_id :: int
  db_pull :: "((string \<times> string), int) gomap"
  db_ops :: "PendingOperation list"
  db_jobs :: "ForkHealingJob list"
  db_events :: "ApplicationEvent list"
  db_outbound :: "OutboundReplay list"
  db_heal_events :: "(int \<times> int \<times> ForkHealEventRecord) list"
  db_heal_audit :: "(int \<times> ForkHealAuditRecord) list"
  db_heal_next_id :: int

text \<open>A call on the database meets the next fault, if any is left, and then does nothing.\<close>

definition unfaulted :: "DB \<Rightarrow> DB" where
  "unfaulted db = db\<lparr>db_faults := tl (db_faults db)\<rparr>"

definition with_io :: "(DB \<Rightarrow> (error + 'a) \<times> DB) \<Rightarrow> DB \<Rightarrow> (error + 'a) \<times> DB" where
  "with_io f db =
    (if take 1 (db_faults db) = [True] then (Inl ErrDB, unfaulted db) else f (unfaulted db))"

section \<open>Group records\<close>

text \<open>\<^verbatim>\<open>Format(time.DateTime)\<close> writes local wall-clock seconds, \<^verbatim>\<open>time.Parse\<close> reads them back as UTC.\<close>

definition format_datetime :: "int \<Rightarrow> time \<Rightarrow> int" where
  "format_datetime tz t = Unix t + tz"

definition parse_datetime :: "int \<Rightarrow> time" where
  "parse_datetime s = s * 1000000000"

definition group_of_row :: "string \<Rightarrow> mls_group_row \<Rightarrow> GroupRecord" where
  "group_of_row gid r = \<lparr>gr_GroupID = gid, gr_GroupState = mg_group_state r, gr_Epoch = mg_epoch r,
     gr_TreeHash = mg_tree_hash r, gr_MyRole = mg_my_role r, gr_GroupType = mg_group_type r,
     gr_CategoryID = mg_category_id r, gr_DMCounterpartyPeerID = mg_dm_counterparty_peer_id r,
     gr_CreatedAt = parse_datetime (mg_created_at r), gr_UpdatedAt = parse_datetime (mg_updated_at r)\<rparr>"

definition GetGroupRecord :: "string \<Rightarrow> DB \<Rightarrow> (error + GroupRecord) \<times> DB" where
  "GetGroupRecord groupID = with_io (\<lambda>db.
    (case gget (db_groups db) groupID of
       None \<Rightarrow> Inl ErrGroupNotFound
     | Some r \<Rightarrow> Inr (group_of_row groupID r), db))"

definition validateGroupRecordForSave :: "GroupRecord \<Rightarrow> error + unit" where
  "validateGroupRecordForSave rec =
    (if TrimSpace (gr_GroupID rec) = '''' then Inl (ErrMsg ''empty group ID'')
     else if gr_GroupState rec = [] then Inl (ErrMsg ''empty group_state'')
     else Inr ())"

text \<open>The \<^verbatim>\<open>INSERT ... ON CONFLICT\<close> statement shared by \<^verbatim>\<open>SaveGroupRecord\<close> and \<^verbatim>\<open>saveGroupRecordTx\<close>.\<close>

definition inserted_group :: "int \<Rightarrow> GroupRecord \<Rightarrow> mls_group_row" where
  "inserted_group tz rec = \<lparr>mg_group_state = gr_GroupState rec, mg_epoch = gr_Epoch rec,
     mg_tree_hash = gr_TreeHash rec, mg_my_role = gr_MyRole rec, mg_lifecycle_status = ''active'',
     mg_left_at = 0, mg_group_type = gr_GroupType rec,
     mg_dm_counterparty_peer_id = gr_DMCounterpartyPeerID rec, mg_category_id = gr_CategoryID rec,
     mg_created_at = format_datetime tz (gr_CreatedAt rec),
     mg_updated_at = format_datetime tz (gr_UpdatedAt rec)\<rparr>"

definition updated_group :: "int \<Rightarrow> GroupRecord \<Rightarrow> mls_group_row \<Rightarrow> mls_group_row" where
  "updated_group tz rec old =
    (let gt = (if gr_GroupType rec = '''' then mg_group_type old else gr_GroupType rec) in
     old\<lparr>mg_group_state := gr_GroupState rec,
       mg_epoch := gr_Epoch rec,
       mg_tree_hash := gr_TreeHash rec,
       mg_my_role := (if gr_MyRole rec = '''' then mg_my_role old else gr_MyRole rec),
       mg_group_type := gt,
       mg_lifecycle_status := ''active'',
       mg_left_at := 0,
       mg_dm_counterparty_peer_id :=
         (if gt = ''dm'' then
            (if sql_trim (gr_DMCounterpartyPeerID rec) \<noteq> '''' then gr_DMCounterpartyPeerID rec
             else mg_dm_counterparty_peer_id old)
          else ''''),
       mg_category_id :=
         (if gt = ''channel'' then
            (if sql_trim (gr_CategoryID rec) \<noteq> '''' then gr_CategoryID rec else mg_category_id old)
          else ''''),
       mg_updated_at := format_datetime tz (gr_UpdatedAt rec)\<rparr>)"

definition upsert_group :: "GroupRecord \<Rightarrow> DB \<Rightarrow> DB" where
  "upsert_group rec db =
    db\<lparr>db_groups := gput (gr_GroupID rec)
      (case gget (db_groups db) (gr_GroupID rec) of
         None \<Rightarrow> inserted_group (db_tz db) rec
       | Some old \<Rightarrow> updated_group (db_tz db) rec old) (db_groups db)\<rparr>"

definition SaveGroupRecord :: "GroupRecord \<Rightarrow> DB \<Rightarrow> (error + unit) \<times> DB" where
  "SaveGroupRecord rec db =
    (case validateGroupRecordForSave rec of
       Inl err \<Rightarrow> (Inl err, db)
     | Inr _ \<Rightarrow> with_io (\<lambda>db. (Inr (), upsert_group rec db)) db)"

definition saveGroupRecordTx :: "GroupRecord \<Rightarrow> DB \<Rightarrow> error + DB" where
  "saveGroupRecordTx rec db =
    (case validateGroupRecordForSave rec of
       Inl err \<Rightarrow> Inl err
     | Inr _ \<Rightarrow> Inr (upsert_group rec db))"

definition ListGroups :: "DB \<Rightarrow> (error + GroupRecord list) \<times> DB" where
  "ListGroups = with_io (\<lambda>db.
    (Inr (map (\<lambda>(gid, r). group_of_row gid r)
           (filter (\<lambda>(gid, r). mg_lifecycle_status r = ''active'') (db_groups db))), db))"

section \<open>Coordination state\<close>

text \<open>\<^verbatim>\<open>strconv.FormatUint\<close> and \<^verbatim>\<open>ParseUint\<close> in base 10, and hexadecimal decoding.\<close>

fun dec_digits :: "nat \<Rightarrow> string" where
  "dec_digits n = (if n < 10 then [hex_digit n] else dec_digits (n div 10) @ [hex_digit (n mod 10)])"

definition FormatUint :: "u64 \<Rightarrow> string" where
  "FormatUint e = dec_digits (unat e)"

definition dec_value :: "char \<Rightarrow> nat option" where
  "dec_value c = (let n = of_char c in if 48 \<le> n \<and> n \<le> 57 then Some (n - 48) else None)"

fun parse_dec :: "nat \<Rightarrow> string \<Rightarrow> nat option" where
  "parse_dec acc [] = Some acc"
| "parse_dec acc (c # cs) = (case dec_value c of None \<Rightarrow> None | Some d \<Rightarrow> parse_dec (10 * acc + d) cs)"

definition ParseUint :: "string \<Rightarrow> u64 option" where
  "ParseUint s =
    (if s = '''' then None
     else case parse_dec 0 s of
            None \<Rightarrow> None
          | Some n \<Rightarrow> if n < 2 ^ 64 then Some (of_nat n) else None)"

definition hex_value :: "char \<Rightarrow> nat option" where
  "hex_value c = (let n = of_char c in
    if 48 \<le> n \<and> n \<le> 57 then Some (n - 48)
    else if 97 \<le> n \<and> n \<le> 102 then Some (n - 87)
    else if 65 \<le> n \<and> n \<le> 70 then Some (n - 55)
    else None)"

fun DecodeHex :: "string \<Rightarrow> bytes option" where
  "DecodeHex [] = Some []"
| "DecodeHex [c] = None"
| "DecodeHex (c # d # cs) =
    (case (hex_value c, hex_value d, DecodeHex cs) of
       (Some h, Some l, Some bs) \<Rightarrow> Some (of_nat (16 * h + l) # bs)
     | _ \<Rightarrow> None)"

definition decode_chain :: "(string \<times> string) list \<Rightarrow> (u64, bytes) gomap" where
  "decode_chain chainMap = fold (\<lambda>(epochStr, hexHash) m.
     (case (ParseUint epochStr, DecodeHex hexHash) of
        (Some epoch, Some h) \<Rightarrow> gput epoch h m
      | _ \<Rightarrow> m)) chainMap []"

definition GetCoordState :: "(string \<Rightarrow> peer_id option) \<Rightarrow> string \<Rightarrow> DB \<Rightarrow> (error + CoordState) \<times> DB" where
  "GetCoordState pidDecode groupID = with_io (\<lambda>db.
    (case gget (db_coord db) groupID of
       None \<Rightarrow> Inl ErrGroupNotFound
     | Some r \<Rightarrow>
        let decode = (\<lambda>s. case pidDecode s of Some pid \<Rightarrow> pid | None \<Rightarrow> s) in
        Inr \<lparr>cs_GroupID = groupID,
          cs_ActiveView = map decode (cw_active_view r),
          cs_TokenHolder = (if cw_token_holder r \<noteq> '''' then decode (cw_token_holder r) else ''''),
          cs_LastCommitHash = cw_last_commit_hash r,
          cs_LastCommitAt = (case cw_last_commit_at r of None \<Rightarrow> zero_time | Some s \<Rightarrow> parse_datetime s),
          cs_PendingProposals = cw_pending_proposals r,
          cs_HistoryChain = decode_chain (cw_history_chain r)\<rparr>, db))"

definition SaveCoordState :: "(peer_id \<Rightarrow> string) \<Rightarrow> CoordState \<Rightarrow> DB \<Rightarrow> (error + unit) \<times> DB" where
  "SaveCoordState pidString st = with_io (\<lambda>db.
    (Inr (), db\<lparr>db_coord := gput (cs_GroupID st)
      \<lparr>cw_active_view = map pidString (cs_ActiveView st),
       cw_token_holder = pidString (cs_TokenHolder st),
       cw_last_commit_hash = cs_LastCommitHash st,
       cw_last_commit_at = (if cs_LastCommitAt st = zero_time then None
                            else Some (format_datetime (db_tz db) (cs_LastCommitAt st))),
       cw_pending_proposals = cs_PendingProposals st,
       cw_history_chain = map (\<lambda>(epoch, h). (FormatUint epoch, hex h)) (cs_HistoryChain st)\<rparr>
      (db_coord db)\<rparr>))"

section \<open>Messages and applied envelopes\<close>

text \<open>
  \<^verbatim>\<open>INSERT OR IGNORE INTO stored_messages\<close> under the unique index on \<^verbatim>\<open>(group_id, envelope_hash)\<close>, which
  leaves out rows without a hash.
\<close>

definition message_row_of :: "(peer_id \<Rightarrow> string) \<Rightarrow> StoredMessage \<Rightarrow> message_row" where
  "message_row_of pidString msg = \<lparr>ms_group_id = sm_GroupID msg, ms_epoch = sm_Epoch msg,
     ms_sender_id = pidString (sm_SenderID msg), ms_content = sm_Content msg,
     ms_hlc = sm_Timestamp msg, ms_envelope_hash = sm_EnvelopeHash msg, ms_replayed_at = None\<rparr>"

definition insert_message :: "message_row \<Rightarrow> DB \<Rightarrow> DB" where
  "insert_message r db =
    (if ms_envelope_hash r \<noteq> [] \<and>
        list_ex (\<lambda>q. ms_group_id q = ms_group_id r \<and> ms_envelope_hash q = ms_envelope_hash r) (db_messages db)
     then db else db\<lparr>db_messages := db_messages db @ [r]\<rparr>)"

definition SaveMessage :: "(peer_id \<Rightarrow> string) \<Rightarrow> StoredMessage \<Rightarrow> DB \<Rightarrow> (error + unit) \<times> DB" where
  "SaveMessage pidString msg = with_io (\<lambda>db. (Inr (), insert_message (message_row_of pidString msg) db))"

definition saveMessageTx :: "(peer_id \<Rightarrow> string) \<Rightarrow> StoredMessage \<Rightarrow> DB \<Rightarrow> DB" where
  "saveMessageTx pidString msg db = insert_message (message_row_of pidString msg) db"

definition HasAppliedEnvelope :: "string \<Rightarrow> bytes \<Rightarrow> DB \<Rightarrow> (error + bool) \<times> DB" where
  "HasAppliedEnvelope groupID envelopeHash db =
    (if envelopeHash = [] then (Inr False, db)
     else with_io (\<lambda>db. (Inr (ghas (db_applied db) (groupID, envelopeHash)), db)) db)"

definition hasAppliedEnvelopeTx :: "string \<Rightarrow> bytes \<Rightarrow> DB \<Rightarrow> bool" where
  "hasAppliedEnvelopeTx groupID envelopeHash db = ghas (db_applied db) (groupID, envelopeHash)"

definition markEnvelopeAppliedSQL :: "time \<Rightarrow> string \<Rightarrow> MessageType \<Rightarrow> u64 \<Rightarrow> bytes \<Rightarrow> DB \<Rightarrow> DB" where
  "markEnvelopeAppliedSQL now groupID msgType epoch envelopeHash db =
    (if ghas (db_applied db) (groupID, envelopeHash) then db
     else db\<lparr>db_applied := gput (groupID, envelopeHash) (msgType, epoch, Unix now) (db_applied db)\<rparr>)"

text \<open>The \<^verbatim>\<open>UPDATE envelope_log\<close> of \<^verbatim>\<open>MarkEnvelopeReplayState\<close> and of its variant in a transaction.\<close>

definition mark_log_row :: "time \<Rightarrow> ReplayEnvelopeState \<Rightarrow> string \<Rightarrow> log_row \<Rightarrow> log_row" where
  "mark_log_row now state lastErr r =
    r\<lparr>er_ApplyState := state, er_LastApplyError := lastErr, er_LastApplyAttemptAt := Unix now,
      er_AppliedAt := (if state \<in> {ReplayStateApplied, ReplayStateDuplicateApplied} then Unix now
                       else er_AppliedAt r)\<rparr>"

definition markEnvelopeReplayStateTx ::
  "time \<Rightarrow> string \<Rightarrow> bytes \<Rightarrow> ReplayEnvelopeState \<Rightarrow> string \<Rightarrow> DB \<Rightarrow> DB" where
  "markEnvelopeReplayStateTx now groupID envelopeHash state lastErr db =
    (if envelopeHash = [] then db
     else db\<lparr>db_log := map (\<lambda>r. if er_GroupID r = groupID \<and> er_EnvelopeHash r = envelopeHash
                              then mark_log_row now state lastErr r else r) (db_log db)\<rparr>)"

definition MarkEnvelopeReplayState ::
  "string \<Rightarrow> bytes \<Rightarrow> ReplayEnvelopeState \<Rightarrow> string \<Rightarrow> time \<Rightarrow> DB \<Rightarrow> (error + unit) \<times> DB" where
  "MarkEnvelopeReplayState groupID envelopeHash state lastErr now db =
    (if envelopeHash = [] then (Inr (), db)
     else with_io (\<lambda>db. (Inr (), markEnvelopeReplayStateTx now groupID envelopeHash state lastErr db)) db)"

definition markEnvelopeAppliedTx :: "time \<Rightarrow> string \<Rightarrow> MessageType \<Rightarrow> u64 \<Rightarrow> bytes \<Rightarrow> DB \<Rightarrow> DB" where
  "markEnvelopeAppliedTx now groupID msgType epoch envelopeHash db =
    markEnvelopeReplayStateTx now groupID envelopeHash ReplayStateApplied ''''
      (markEnvelopeAppliedSQL now groupID msgType epoch envelopeHash db)"

definition MarkEnvelopeApplied ::
  "time \<Rightarrow> string \<Rightarrow> MessageType \<Rightarrow> u64 \<Rightarrow> bytes \<Rightarrow> DB \<Rightarrow> (error + unit) \<times> DB" where
  "MarkEnvelopeApplied now groupID msgType epoch envelopeHash db =
    (if envelopeHash = [] then (Inr (), db)
     else with_io (\<lambda>db. (Inr (), markEnvelopeAppliedTx now groupID msgType epoch envelopeHash db)) db)"

definition MarkMessageReplayed :: "string \<Rightarrow> bytes \<Rightarrow> time \<Rightarrow> DB \<Rightarrow> (error + unit) \<times> DB" where
  "MarkMessageReplayed groupID envelopeHash now db =
    (if envelopeHash = [] then (Inr (), db)
     else with_io (\<lambda>db. (Inr (), db\<lparr>db_messages :=
       map (\<lambda>r. if ms_group_id r = groupID \<and> ms_envelope_hash r = envelopeHash
                then r\<lparr>ms_replayed_at := Some (UnixMilli now)\<rparr> else r) (db_messages db)\<rparr>)) db)"

section \<open>The envelope log\<close>

definition max_seq :: "string \<Rightarrow> log_row list \<Rightarrow> int option" where
  "max_seq groupID rows =
    (case map er_Seq (filter (\<lambda>r. er_GroupID r = groupID) rows) of
       [] \<Rightarrow> None
     | s # ss \<Rightarrow> Some (fold max ss s))"

definition next_seq :: "string \<Rightarrow> log_row list \<Rightarrow> int" where
  "next_seq groupID rows = (case max_seq groupID rows of None \<Rightarrow> 0 | Some m \<Rightarrow> m) + 1"

definition touch_received :: "time \<Rightarrow> string \<Rightarrow> bytes \<Rightarrow> DB \<Rightarrow> DB" where
  "touch_received now groupID hash db =
    db\<lparr>db_log := map (\<lambda>r. if er_GroupID r = groupID \<and> er_EnvelopeHash r = hash
                          then r\<lparr>er_ReceivedAtMs := UnixMilli now\<rparr> else r) (db_log db)\<rparr>"

definition insert_log ::
  "time \<Rightarrow> string \<Rightarrow> int \<Rightarrow> MessageType \<Rightarrow> u64 \<Rightarrow> bytes \<Rightarrow> bytes \<Rightarrow> string \<Rightarrow> string \<Rightarrow> int \<Rightarrow> HLCTimestamp \<Rightarrow> DB \<Rightarrow> DB" where
  "insert_log now groupID seq msgType epoch envelope hash source state appliedAt ts db =
    db\<lparr>db_log := db_log db @ [\<lparr>er_Seq = seq, er_GroupID = groupID, er_MsgType = msgType, er_Epoch = epoch,
          er_Envelope = envelope, er_Timestamp = ts, er_EnvelopeHash = hash, er_SourcePath = source,
          er_ApplyState = state, er_LastApplyError = '''', er_LastApplyAttemptAt = 0,
          er_AppliedAt = appliedAt, er_FirstSeenAtMs = UnixMilli now, er_ReceivedAtMs = UnixMilli now,
          lr_id = db_log_next_id db, lr_created_at = Unix now\<rparr>],
       db_log_next_id := db_log_next_id db + 1\<rparr>"

definition insert_dedup :: "time \<Rightarrow> string \<Rightarrow> bytes \<Rightarrow> DB \<Rightarrow> DB" where
  "insert_dedup now groupID hash db = db\<lparr>db_dedup := gput (groupID, hash) (Unix now) (db_dedup db)\<rparr>"

text \<open>
  \<^verbatim>\<open>AppendEnvelopeWithSource\<close>: in the duplicate branch the transaction is not committed, so the update
  of \<^verbatim>\<open>received_at_ms\<close> is rolled back by the deferred \<^verbatim>\<open>Rollback\<close>.
\<close>

definition AppendEnvelopeWithSource ::
  "(bytes \<Rightarrow> bytes) \<Rightarrow> time \<Rightarrow> string \<Rightarrow> MessageType \<Rightarrow> u64 \<Rightarrow> HLCTimestamp \<Rightarrow> bytes \<Rightarrow> string \<Rightarrow> DB \<Rightarrow> (error + int) \<times> DB" where
  "AppendEnvelopeWithSource sha256 now groupID msgType epoch ts envelope sourcePath = with_io (\<lambda>db.
    (let hash = sha256 envelope in
     if ghas (db_dedup db) (groupID, hash) then (Inr 0, db)
     else
       let source = (if TrimSpace sourcePath = '''' then ''local'' else sourcePath);
           seq = next_seq groupID (db_log db)
       in (Inr seq, insert_log now groupID seq msgType epoch envelope hash source ''pending'' 0 ts
                      (insert_dedup now groupID hash db))))"

definition AppendEnvelope ::
  "(bytes \<Rightarrow> bytes) \<Rightarrow> time \<Rightarrow> string \<Rightarrow> MessageType \<Rightarrow> u64 \<Rightarrow> HLCTimestamp \<Rightarrow> bytes \<Rightarrow> DB \<Rightarrow> (error + int) \<times> DB" where
  "AppendEnvelope sha256 now groupID msgType epoch ts envelope =
    AppendEnvelopeWithSource sha256 now groupID msgType epoch ts envelope ''local''"

definition appendEnvelopeTx ::
  "(bytes \<Rightarrow> bytes) \<Rightarrow> time \<Rightarrow> string \<Rightarrow> MessageType \<Rightarrow> u64 \<Rightarrow> HLCTimestamp \<Rightarrow> bytes \<Rightarrow> DB \<Rightarrow> int \<times> DB" where
  "appendEnvelopeTx sha256 now groupID msgType epoch ts envelope db =
    (let hash = sha256 envelope in
     if ghas (db_dedup db) (groupID, hash) then (0, touch_received now groupID hash db)
     else let seq = next_seq groupID (db_log db)
          in (seq, insert_log now groupID seq msgType epoch envelope hash ''local'' ''applied'' (Unix now) ts
                     (insert_dedup now groupID hash db)))"

section \<open>The applying transactions\<close>

definition ApplyCommit ::
  "(bytes \<Rightarrow> bytes) \<Rightarrow> time \<Rightarrow> GroupRecord \<Rightarrow> MessageType \<Rightarrow> bytes \<Rightarrow> HLCTimestamp \<Rightarrow> u64 \<Rightarrow> DB
    \<Rightarrow> (error + (bool \<times> int)) \<times> DB" where
  "ApplyCommit sha256 now rec msgType envelope ts envEpoch db =
    (if gr_GroupID rec = '''' \<or> envelope = [] then (Inl (ErrMsg ''ApplyCommit: invalid input''), db)
     else with_io (\<lambda>db.
       (let hash = sha256 envelope in
        if hasAppliedEnvelopeTx (gr_GroupID rec) hash db then (Inr (False, 0), db)
        else case saveGroupRecordTx rec db of
            Inl err \<Rightarrow> (Inl err, db)
          | Inr db1 \<Rightarrow>
             let db2 = markEnvelopeAppliedTx now (gr_GroupID rec) msgType (gr_Epoch rec) hash db1;
                 (seq, db3) = appendEnvelopeTx sha256 now (gr_GroupID rec) msgType envEpoch ts envelope db2
             in (Inr (True, seq), db3))) db)"

text \<open>
  \<^verbatim>\<open>ApplyApplication\<close> sets the hash and the identifier of the caller's message, so the message as it
  leaves the call is part of the result.
\<close>

definition stamped_message :: "bytes \<Rightarrow> StoredMessage \<Rightarrow> StoredMessage" where
  "stamped_message hash msg = msg\<lparr>sm_EnvelopeHash := hash, sm_MessageID := hex hash\<rparr>"

definition ApplyApplication ::
  "(bytes \<Rightarrow> bytes) \<Rightarrow> (peer_id \<Rightarrow> string) \<Rightarrow> time \<Rightarrow> GroupRecord \<Rightarrow> StoredMessage \<Rightarrow> MessageType \<Rightarrow> bytes
    \<Rightarrow> HLCTimestamp \<Rightarrow> u64 \<Rightarrow> DB \<Rightarrow> (error + (bool \<times> int)) \<times> StoredMessage \<times> DB" where
  "ApplyApplication sha256 pidString now rec msg msgType envelope ts envEpoch db =
    (if gr_GroupID rec = '''' \<or> sm_GroupID msg = '''' \<or> envelope = []
     then (Inl (ErrMsg ''ApplyApplication: invalid input''), msg, db)
     else
       let hash = sha256 envelope;
           (res, db') = with_io (\<lambda>db.
             (if hasAppliedEnvelopeTx (gr_GroupID rec) hash db then (Inr (False, 0), db)
              else case saveGroupRecordTx rec db of
                  Inl err \<Rightarrow> (Inl err, db)
                | Inr db1 \<Rightarrow>
                   let db2 = saveMessageTx pidString (stamped_message hash msg) db1;
                       db3 = markEnvelopeAppliedTx now (gr_GroupID rec) msgType (gr_Epoch rec) hash db2;
                       (seq, db4) = appendEnvelopeTx sha256 now (gr_GroupID rec) msgType envEpoch ts envelope db3
                   in (Inr (True, seq), db4))) db
       in (res, stamped_message hash msg, db'))"

definition ApplyBatchedApplication ::
  "(bytes \<Rightarrow> bytes) \<Rightarrow> (peer_id \<Rightarrow> string) \<Rightarrow> time \<Rightarrow> GroupRecord \<Rightarrow> StoredMessage list \<Rightarrow> MessageType \<Rightarrow> bytes
    \<Rightarrow> HLCTimestamp \<Rightarrow> u64 \<Rightarrow> DB \<Rightarrow> (error + (bool \<times> int)) \<times> DB" where
  "ApplyBatchedApplication sha256 pidString now rec msgs msgType envelope ts envEpoch db =
    (if gr_GroupID rec = '''' \<or> msgs = [] \<or> envelope = []
     then (Inl (ErrMsg ''ApplyBatchedApplication: invalid input''), db)
     else with_io (\<lambda>db.
       (let hash = sha256 envelope in
        if hasAppliedEnvelopeTx (gr_GroupID rec) hash db then (Inr (False, 0), db)
        else case saveGroupRecordTx rec db of
            Inl err \<Rightarrow> (Inl err, db)
          | Inr db1 \<Rightarrow>
             let db2 = fold (\<lambda>msg. saveMessageTx pidString (stamped_message hash msg)) msgs db1;
                 db3 = markEnvelopeAppliedTx now (gr_GroupID rec) msgType (gr_Epoch rec) hash db2;
                 (seq, db4) = appendEnvelopeTx sha256 now (gr_GroupID rec) msgType envEpoch ts envelope db3
             in (Inr (True, seq), db4))) db)"

section \<open>Text codecs\<close>

declare dec_digits.simps [simp del]

lemma of_char_hex_digit: "k < 16 \<Longrightarrow> of_char (hex_digit k) = (if k < 10 then 48 + k else 87 + k)"
  by (simp add: hex_digit_def)

lemma hex_value_hex_digit [simp]: "n < 16 \<Longrightarrow> hex_value (hex_digit n) = Some n"
  by (simp add: hex_value_def of_char_hex_digit)

lemma dec_value_hex_digit [simp]: "n < 10 \<Longrightarrow> dec_value (hex_digit n) = Some n"
  by (simp add: dec_value_def of_char_hex_digit)

text \<open>A printer with its parser; several values printed as the fields of one object.\<close>

locale codec =
  fixes enc :: "'a \<Rightarrow> 'b" and dec :: "'b \<Rightarrow> 'a option"
  assumes dec_enc: "dec (enc x) = Some x"
begin

lemma enc_inj: "inj enc"
  by (rule injI) (metis dec_enc option.inject)

lemma enc_eq_iff: "enc x = enc y \<longleftrightarrow> x = y"
  using enc_inj by (auto dest: injD)

lemma dec_list: "those (map (dec \<circ> enc) xs) = Some xs"
  by (induction xs) (simp_all add: dec_enc)

end

lemma parse_dec_append:
  "parse_dec acc (xs @ ys) = (case parse_dec acc xs of None \<Rightarrow> None | Some a \<Rightarrow> parse_dec a ys)"
  by (induction xs arbitrary: acc) (auto split: option.splits)

lemma parse_dec_digits: "parse_dec 0 (dec_digits n) = Some n"
proof (induction n rule: dec_digits.induct)
  case (1 n)
  then show ?case
    by (cases "n < 10") (simp_all add: dec_digits.simps [of n] parse_dec_append)
qed

lemma dec_digits_not_Nil: "dec_digits n \<noteq> []"
  by (subst dec_digits.simps) simp

lemma ParseUint_FormatUint: "ParseUint (FormatUint e) = Some e"
  using unsigned_less [of e, where 'a = nat]
  by (simp add: ParseUint_def FormatUint_def parse_dec_digits dec_digits_not_Nil)

lemma DecodeHex_hex: "DecodeHex (hex bs) = Some bs"
proof (induction bs)
  case Nil
  then show ?case by (simp add: hex_def)
next
  case (Cons b bs)
  have lt: "unat b div 16 < 16" "unat b mod 16 < 16"
    using unsigned_less [of b, where 'a = nat] by (simp_all add: less_mult_imp_div_less)
  have "hex (b # bs) = hex_digit (unat b div 16) # hex_digit (unat b mod 16) # hex bs"
    by (simp add: hex_def hex_byte_def)
  moreover have "(of_nat (16 * (unat b div 16) + unat b mod 16) :: byte) = b"
    by (simp only: mult_div_mod_eq) simp
  ultimately show ?case using lt Cons.IH by simp
qed

interpretation ui: codec FormatUint ParseUint
  by unfold_locales (rule ParseUint_FormatUint)

interpretation hx: codec hex DecodeHex
  by unfold_locales (rule DecodeHex_hex)

lemma gput_fresh: "\<not> ghas m k \<Longrightarrow> gput k v m = m @ [(k, v)]"
  unfolding gput_def ghas_def gget_def by (induction m) (auto split: if_splits)

lemma decode_chain_snoc:
  "decode_chain (xs @ [(FormatUint e, hex h)]) = gput e h (decode_chain xs)"
  by (simp add: decode_chain_def ui.dec_enc hx.dec_enc)

text \<open>The history chain survives its JSON object, order included.\<close>

lemma decode_chain_encode:
  "gmap_ok m \<Longrightarrow> decode_chain (map (\<lambda>(e, h). (FormatUint e, hex h)) m) = m"
proof (induction m rule: rev_induct)
  case Nil
  then show ?case by (simp add: decode_chain_def)
next
  case (snoc kv m)
  obtain e h where kv: "kv = (e, h)" by (cases kv)
  from snoc.prems have "gmap_ok m" and "\<not> ghas m e"
    by (auto simp: gmap_ok_def kv ghas_def gget_def map_of_eq_None_iff)
  with snoc.IH show ?case by (simp add: kv decode_chain_snoc gput_fresh)
qed

section \<open>Faults\<close>

definition calm :: "nat \<Rightarrow> DB \<Rightarrow> bool" where
  "calm n db \<longleftrightarrow> True \<notin> set (take n (db_faults db))"

lemma with_io_calm: "calm (Suc n) db \<Longrightarrow> with_io f db = f (unfaulted db)"
  by (cases "db_faults db") (auto simp: calm_def with_io_def)

lemma calm_unfaulted: "calm (Suc n) db \<Longrightarrow> calm n (unfaulted db)"
  by (cases "db_faults db") (auto simp: calm_def unfaulted_def)

lemma calm_cong: "db_faults db' = db_faults db \<Longrightarrow> calm n db' = calm n db"
  by (simp add: calm_def)

lemma calm_all: "True \<notin> set (db_faults db) \<Longrightarrow> calm n db"
  by (auto simp: calm_def dest: in_set_takeD)

lemma with_io_cases:
  obtains (fault) "with_io f db = (Inl ErrDB, unfaulted db)" | (run) "with_io f db = f (unfaulted db)"
  by (cases "take 1 (db_faults db) = [True]") (simp_all add: with_io_def)

lemma unfaulted_sel [simp]:
  "db_tz (unfaulted db) = db_tz db" "db_groups (unfaulted db) = db_groups db"
  "db_coord (unfaulted db) = db_coord db" "db_messages (unfaulted db) = db_messages db"
  "db_log (unfaulted db) = db_log db" "db_log_next_id (unfaulted db) = db_log_next_id db"
  "db_dedup (unfaulted db) = db_dedup db" "db_applied (unfaulted db) = db_applied db"
  "db_jobs (unfaulted db) = db_jobs db" "db_ops (unfaulted db) = db_ops db"
  "db_events (unfaulted db) = db_events db"
  by (simp_all add: unfaulted_def)

section \<open>Round trips\<close>

text \<open>What a stored instant is when it is read back.\<close>

definition stored_instant :: "int \<Rightarrow> time \<Rightarrow> time" where
  "stored_instant tz t = parse_datetime (format_datetime tz t)"


text \<open>What \<^verbatim>\<open>GetGroupRecord\<close> returns after a record was saved over the row \<^verbatim>\<open>old\<close>.\<close>

definition merged_group :: "int \<Rightarrow> mls_group_row option \<Rightarrow> GroupRecord \<Rightarrow> GroupRecord" where
  "merged_group tz old rec =
    (case old of
       None \<Rightarrow> rec\<lparr>gr_CreatedAt := stored_instant tz (gr_CreatedAt rec),
                   gr_UpdatedAt := stored_instant tz (gr_UpdatedAt rec)\<rparr>
     | Some r \<Rightarrow>
        let ty = (if gr_GroupType rec = '''' then mg_group_type r else gr_GroupType rec);
            keep = (\<lambda>want new kept. if ty \<noteq> want then '''' else if sql_trim new = '''' then kept else new)
        in rec\<lparr>gr_MyRole := (if gr_MyRole rec = '''' then mg_my_role r else gr_MyRole rec),
               gr_GroupType := ty,
               gr_DMCounterpartyPeerID :=
                 keep ''dm'' (gr_DMCounterpartyPeerID rec) (mg_dm_counterparty_peer_id r),
               gr_CategoryID := keep ''channel'' (gr_CategoryID rec) (mg_category_id r),
               gr_CreatedAt := parse_datetime (mg_created_at r),
               gr_UpdatedAt := stored_instant tz (gr_UpdatedAt rec)\<rparr>)"

lemma SaveGroupRecord_ok:
  "validateGroupRecordForSave rec = Inr () \<Longrightarrow> calm (Suc n) db \<Longrightarrow>
   SaveGroupRecord rec db = (Inr (), upsert_group rec (unfaulted db))"
  by (simp add: SaveGroupRecord_def with_io_calm)

lemma group_of_upsert:
  "map_option (group_of_row (gr_GroupID rec)) (gget (db_groups (upsert_group rec db)) (gr_GroupID rec))
   = Some (merged_group (db_tz db) (gget (db_groups db) (gr_GroupID rec)) rec)"
  by (cases "gget (db_groups db) (gr_GroupID rec)")
    (auto simp: upsert_group_def merged_group_def group_of_row_def inserted_group_def updated_group_def
      stored_instant_def Let_def)

text \<open>
  A saved group record is read back: a new row returns the record itself, an existing row keeps
  its creation time and the role, type, counterpart and category the record leaves open, and the
  counterpart and the category are cleared when the group is of another type.
\<close>

theorem group_record_roundtrip:
  assumes "calm 2 db" and "validateGroupRecordForSave rec = Inr ()"
  shows "fst (GetGroupRecord (gr_GroupID rec) (snd (SaveGroupRecord rec db))) =
    Inr (merged_group (db_tz db) (gget (db_groups db) (gr_GroupID rec)) rec)"
proof -
  have c1: "calm (Suc (Suc 0)) db" using assms(1) by (simp add: numeral_2_eq_2)
  have s: "snd (SaveGroupRecord rec db) = upsert_group rec (unfaulted db)"
    by (simp add: SaveGroupRecord_ok [OF assms(2) c1])
  have "db_faults (upsert_group rec (unfaulted db)) = db_faults (unfaulted db)"
    by (simp add: upsert_group_def)
  then have c2: "calm (Suc 0) (upsert_group rec (unfaulted db))"
    using calm_unfaulted [OF c1] calm_cong by blast
  show ?thesis
    unfolding s GetGroupRecord_def with_io_calm [OF c2]
    using group_of_upsert [of rec "unfaulted db"] by (auto split: option.splits)
qed

section \<open>The storage invariant\<close>

text \<open>
  Keys are unique, an envelope of the log is known to the deduplication table with the time it was
  written, sequence numbers are positive and distinct within a group, row numbers are distinct, and a
  message is stored once per envelope.
\<close>

definition log_keys :: "DB \<Rightarrow> (string \<times> bytes) list" where
  "log_keys db = map (\<lambda>r. (er_GroupID r, er_EnvelopeHash r)) (db_log db)"

definition log_positions :: "DB \<Rightarrow> (string \<times> int) list" where
  "log_positions db = map (\<lambda>r. (er_GroupID r, er_Seq r)) (db_log db)"

definition message_keys :: "DB \<Rightarrow> (string \<times> bytes) list" where
  "message_keys db = map (\<lambda>r. (ms_group_id r, ms_envelope_hash r))
     (filter (\<lambda>r. ms_envelope_hash r \<noteq> []) (db_messages db))"

definition storage_ok :: "DB \<Rightarrow> bool" where
  "storage_ok db \<longleftrightarrow>
     gmap_ok (db_groups db) \<and> gmap_ok (db_applied db) \<and> gmap_ok (db_dedup db) \<and>
     distinct (log_keys db) \<and> distinct (log_positions db) \<and> distinct (map lr_id (db_log db)) \<and>
     (\<forall>r \<in> set (db_log db). 1 \<le> er_Seq r \<and> lr_id r < db_log_next_id db \<and>
        gget (db_dedup db) (er_GroupID r, er_EnvelopeHash r) = Some (lr_created_at r)) \<and>
     distinct (message_keys db)"

lemma storage_okI:
  assumes "gmap_ok (db_groups db)" "gmap_ok (db_applied db)" "gmap_ok (db_dedup db)"
    and "distinct (log_keys db)" "distinct (log_positions db)" "distinct (map lr_id (db_log db))"
    and "\<And>r. r \<in> set (db_log db) \<Longrightarrow> 1 \<le> er_Seq r \<and> lr_id r < db_log_next_id db \<and>
        gget (db_dedup db) (er_GroupID r, er_EnvelopeHash r) = Some (lr_created_at r)"
    and "distinct (message_keys db)"
  shows "storage_ok db"
  using assms by (simp add: storage_ok_def)

lemma storage_okD:
  assumes "storage_ok db"
  shows "gmap_ok (db_groups db)" "gmap_ok (db_applied db)" "gmap_ok (db_dedup db)"
    and "distinct (log_keys db)" "distinct (log_positions db)" "distinct (map lr_id (db_log db))"
    and "\<And>r. r \<in> set (db_log db) \<Longrightarrow> 1 \<le> er_Seq r \<and> lr_id r < db_log_next_id db \<and>
        gget (db_dedup db) (er_GroupID r, er_EnvelopeHash r) = Some (lr_created_at r)"
    and "distinct (message_keys db)"
  using assms by (simp_all add: storage_ok_def)

text \<open>An operation that leaves the tables of the invariant alone keeps it.\<close>

lemma storage_ok_cong:
  "db_groups db' = db_groups db \<Longrightarrow> db_applied db' = db_applied db \<Longrightarrow> db_dedup db' = db_dedup db \<Longrightarrow>
   db_log db' = db_log db \<Longrightarrow> db_log_next_id db' = db_log_next_id db \<Longrightarrow>
   db_messages db' = db_messages db \<Longrightarrow> storage_ok db' = storage_ok db"
  by (simp add: storage_ok_def log_keys_def log_positions_def message_keys_def)

lemma storage_ok_unfaulted [simp]: "storage_ok (unfaulted db) = storage_ok db"
  by (rule storage_ok_cong) simp_all

lemma storage_ok_with_io:
  assumes "\<And>d. storage_ok d \<Longrightarrow> storage_ok (snd (f d))" and "storage_ok db"
  shows "storage_ok (snd (with_io f db))"
  by (rule with_io_cases [of f db]) (simp_all add: assms)

lemma storage_ok_upsert: "storage_ok db \<Longrightarrow> storage_ok (upsert_group rec db)"
  by (auto simp: storage_ok_def upsert_group_def log_keys_def log_positions_def message_keys_def)

lemma storage_ok_insert_message: "storage_ok db \<Longrightarrow> storage_ok (insert_message r db)"
  by (auto simp: storage_ok_def insert_message_def log_keys_def log_positions_def message_keys_def
      list_ex_iff)

lemma storage_ok_mark_applied:
  "storage_ok db \<Longrightarrow> storage_ok (markEnvelopeAppliedSQL now gid mt e h db)"
  by (auto simp: storage_ok_def markEnvelopeAppliedSQL_def log_keys_def log_positions_def message_keys_def)

text \<open>An update of log rows that keeps their keys, numbers and creation times.\<close>

lemma storage_ok_map_log:
  assumes ok: "storage_ok db"
    and same: "\<And>r. er_GroupID (f r) = er_GroupID r \<and> er_EnvelopeHash (f r) = er_EnvelopeHash r \<and>
      er_Seq (f r) = er_Seq r \<and> lr_id (f r) = lr_id r \<and> lr_created_at (f r) = lr_created_at r"
  shows "storage_ok (db\<lparr>db_log := map f (db_log db)\<rparr>)"
  using storage_okD [OF ok] by (intro storage_okI)
    (auto simp: log_keys_def log_positions_def message_keys_def same o_def)

lemma storage_ok_mark_state:
  "storage_ok db \<Longrightarrow> storage_ok (markEnvelopeReplayStateTx now gid h s err db)"
  by (auto simp: markEnvelopeReplayStateTx_def mark_log_row_def intro!: storage_ok_map_log)

lemma storage_ok_touch: "storage_ok db \<Longrightarrow> storage_ok (touch_received now gid h db)"
  by (auto simp: touch_received_def intro!: storage_ok_map_log)

lemma max_seq_Max:
  "max_seq gid rows =
    (let S = er_Seq ` {r \<in> set rows. er_GroupID r = gid} in if S = {} then None else Some (Max S))"
proof (cases "map er_Seq (filter (\<lambda>r. er_GroupID r = gid) rows)")
  case Nil
  then have "er_Seq ` {r \<in> set rows. er_GroupID r = gid} = {}"
    by (auto simp: filter_empty_conv)
  with Nil show ?thesis by (simp add: max_seq_def)
next
  case (Cons s ss)
  have "er_Seq ` {r \<in> set rows. er_GroupID r = gid} = set (s # ss)"
    unfolding Cons [symmetric] by auto
  with Cons show ?thesis
    by (simp add: max_seq_def Max.set_eq_fold [symmetric])
qed

lemma next_seq_greater: "r \<in> set rows \<Longrightarrow> er_GroupID r = gid \<Longrightarrow> er_Seq r < next_seq gid rows"
  by (auto simp: next_seq_def max_seq_Max Let_def intro!: zle_add1_eq_le [THEN iffD2] Max_ge)

lemma next_seq_positive:
  assumes "\<And>r. r \<in> set rows \<Longrightarrow> 1 \<le> er_Seq r"
  shows "1 \<le> next_seq gid rows"
proof (cases "{r \<in> set rows. er_GroupID r = gid} = {}")
  case True
  then show ?thesis by (simp add: next_seq_def max_seq_Max)
next
  case False
  then obtain r where r: "r \<in> set rows" "er_GroupID r = gid" by auto
  with next_seq_greater [OF r] assms [OF r(1)] show ?thesis by simp
qed

lemma storage_ok_insert_log:
  assumes ok: "storage_ok db" and new: "\<not> ghas (db_dedup db) (gid, h)"
  shows "storage_ok (insert_log now gid (next_seq gid (db_log db)) mt e env h src st at ts
           (insert_dedup now gid h db))"
proof -
  note D = storage_okD [OF ok]
  have fresh: "er_GroupID r = gid \<Longrightarrow> er_EnvelopeHash r \<noteq> h" if "r \<in> set (db_log db)" for r
    using D(7) [OF that] new by (auto simp: ghas_def)
  have seq: "er_Seq r \<noteq> next_seq gid (db_log db)" if "r \<in> set (db_log db)" "er_GroupID r = gid" for r
    using next_seq_greater [OF that] by simp
  have keys: "(gid, h) \<notin> set (log_keys db)" "(gid, next_seq gid (db_log db)) \<notin> set (log_positions db)"
    using fresh seq by (fastforce simp: log_keys_def log_positions_def)+
  have ids: "db_log_next_id db \<notin> lr_id ` set (db_log db)"
    "r \<in> set (db_log db) \<Longrightarrow> lr_id r \<le> db_log_next_id db" for r
    using D(7) by fastforce+
  show ?thesis
    by (rule storage_okI)
      (use D fresh keys ids next_seq_positive [of "db_log db" gid] in
        \<open>auto simp: insert_log_def insert_dedup_def log_keys_def log_positions_def message_keys_def\<close>)
qed

lemma storage_ok_append:
  "storage_ok db \<Longrightarrow> storage_ok (snd (appendEnvelopeTx sha256 now gid mt e ts env db))"
  by (auto simp: appendEnvelopeTx_def Let_def intro: storage_ok_touch storage_ok_insert_log)

lemma storage_ok_fold_messages:
  "storage_ok db \<Longrightarrow> storage_ok (fold (\<lambda>msg. saveMessageTx ps (stamped_message h msg)) msgs db)"
  by (induction msgs arbitrary: db) (simp_all add: saveMessageTx_def storage_ok_insert_message)

lemma storage_ok_mark_tx:
  "storage_ok db \<Longrightarrow> storage_ok (markEnvelopeAppliedTx now gid mt e h db)"
  by (simp add: markEnvelopeAppliedTx_def storage_ok_mark_state storage_ok_mark_applied)

lemmas storage_ok_intros =
  storage_ok_upsert storage_ok_insert_message storage_ok_mark_applied storage_ok_mark_state
  storage_ok_touch storage_ok_insert_log storage_ok_append storage_ok_fold_messages storage_ok_mark_tx

section \<open>Applying an envelope\<close>

text \<open>
  The three applying transactions are one shape: nothing when the envelope was applied before,
  otherwise the group record, some messages, the mark and the log in one commit.
\<close>

definition apply_tx ::
  "(bytes \<Rightarrow> bytes) \<Rightarrow> time \<Rightarrow> GroupRecord \<Rightarrow> (DB \<Rightarrow> DB) \<Rightarrow> MessageType \<Rightarrow> bytes \<Rightarrow> HLCTimestamp \<Rightarrow> u64 \<Rightarrow> DB
    \<Rightarrow> (error + (bool \<times> int)) \<times> DB" where
  "apply_tx sha256 now rec save msgType envelope ts envEpoch = with_io (\<lambda>db.
    (if hasAppliedEnvelopeTx (gr_GroupID rec) (sha256 envelope) db then (Inr (False, 0), db)
     else case saveGroupRecordTx rec db of
         Inl err \<Rightarrow> (Inl err, db)
       | Inr db1 \<Rightarrow>
          let (seq, db3) = appendEnvelopeTx sha256 now (gr_GroupID rec) msgType envEpoch ts envelope
                (markEnvelopeAppliedTx now (gr_GroupID rec) msgType (gr_Epoch rec) (sha256 envelope) (save db1))
          in (Inr (True, seq), db3)))"

lemma ApplyCommit_apply_tx:
  "gr_GroupID rec \<noteq> '''' \<Longrightarrow> envelope \<noteq> [] \<Longrightarrow>
   ApplyCommit sha256 now rec mt envelope ts e db = apply_tx sha256 now rec (\<lambda>d. d) mt envelope ts e db"
  unfolding ApplyCommit_def apply_tx_def Let_def by simp

lemma ApplyApplication_apply_tx:
  "gr_GroupID rec \<noteq> '''' \<Longrightarrow> sm_GroupID msg \<noteq> '''' \<Longrightarrow> envelope \<noteq> [] \<Longrightarrow>
   ApplyApplication sha256 ps now rec msg mt envelope ts e db =
    (let (res, db') = apply_tx sha256 now rec (saveMessageTx ps (stamped_message (sha256 envelope) msg))
                        mt envelope ts e db
     in (res, stamped_message (sha256 envelope) msg, db'))"
  unfolding ApplyApplication_def apply_tx_def Let_def by simp

lemma ApplyBatchedApplication_apply_tx:
  "gr_GroupID rec \<noteq> '''' \<Longrightarrow> msgs \<noteq> [] \<Longrightarrow> envelope \<noteq> [] \<Longrightarrow>
   ApplyBatchedApplication sha256 ps now rec msgs mt envelope ts e db =
    apply_tx sha256 now rec (fold (\<lambda>msg. saveMessageTx ps (stamped_message (sha256 envelope) msg)) msgs)
      mt envelope ts e db"
  unfolding ApplyBatchedApplication_def apply_tx_def Let_def by simp

lemma applied_frame [simp]:
  "db_applied (upsert_group rec db) = db_applied db"
  "db_applied (insert_message r db) = db_applied db"
  "db_applied (markEnvelopeReplayStateTx now gid h s err db) = db_applied db"
  "db_applied (touch_received now gid h db) = db_applied db"
  "db_applied (insert_log now gid seq mt e env h src st at ts db) = db_applied db"
  "db_applied (insert_dedup now gid h db) = db_applied db"
  "db_applied (saveMessageTx ps msg db) = db_applied db"
  by (simp_all add: upsert_group_def insert_message_def markEnvelopeReplayStateTx_def touch_received_def
      insert_log_def insert_dedup_def saveMessageTx_def)

lemma applied_append [simp]:
  "db_applied (snd (appendEnvelopeTx sha256 now gid mt e ts env db)) = db_applied db"
  by (simp add: appendEnvelopeTx_def Let_def)

lemma applied_fold [simp]:
  "db_applied (fold (\<lambda>msg. saveMessageTx ps (stamped_message h msg)) msgs db) = db_applied db"
  by (induction msgs arbitrary: db) simp_all

lemma applied_mark [simp]:
  "ghas (db_applied (markEnvelopeAppliedTx now gid mt e h db)) k \<longleftrightarrow> k = (gid, h) \<or> ghas (db_applied db) k"
  by (auto simp: markEnvelopeAppliedTx_def markEnvelopeAppliedSQL_def)

lemma groups_frame [simp]:
  "db_groups (insert_message r db) = db_groups db"
  "db_groups (saveMessageTx ps msg db) = db_groups db"
  "db_groups (fold (\<lambda>msg. saveMessageTx ps (stamped_message h msg)) msgs db) = db_groups db"
  "db_groups (markEnvelopeAppliedTx now gid mt e h db) = db_groups db"
  "db_groups (snd (appendEnvelopeTx sha256 now gid mt e ts env db)) = db_groups db"
proof -
  show s: "db_groups (saveMessageTx ps msg db) = db_groups db" for msg db
    by (simp add: saveMessageTx_def insert_message_def)
  then show "db_groups (fold (\<lambda>msg. saveMessageTx ps (stamped_message h msg)) msgs db) = db_groups db"
    by (induction msgs arbitrary: db) simp_all
qed (simp_all add: insert_message_def markEnvelopeAppliedTx_def markEnvelopeReplayStateTx_def
    markEnvelopeAppliedSQL_def appendEnvelopeTx_def touch_received_def insert_log_def insert_dedup_def Let_def)

lemma messages_frame [simp]:
  "db_messages (upsert_group rec db) = db_messages db"
  "db_messages (markEnvelopeAppliedTx now gid mt e h db) = db_messages db"
  "db_messages (snd (appendEnvelopeTx sha256 now gid mt e ts env db)) = db_messages db"
  by (simp_all add: upsert_group_def markEnvelopeAppliedTx_def markEnvelopeReplayStateTx_def
    markEnvelopeAppliedSQL_def appendEnvelopeTx_def touch_received_def insert_log_def insert_dedup_def Let_def)

text \<open>The outcomes of an applying transaction.\<close>

lemma apply_tx_cases:
  obtains (fault) "apply_tx sha256 now rec save mt env ts e db = (Inl ErrDB, unfaulted db)"
  | (again) "ghas (db_applied db) (gr_GroupID rec, sha256 env)"
      "apply_tx sha256 now rec save mt env ts e db = (Inr (False, 0), unfaulted db)"
  | (invalid) err where "validateGroupRecordForSave rec = Inl err"
      "apply_tx sha256 now rec save mt env ts e db = (Inl err, unfaulted db)"
  | (commit) seq db' where "\<not> ghas (db_applied db) (gr_GroupID rec, sha256 env)"
      "validateGroupRecordForSave rec = Inr ()"
      "appendEnvelopeTx sha256 now (gr_GroupID rec) mt e ts env
         (markEnvelopeAppliedTx now (gr_GroupID rec) mt (gr_Epoch rec) (sha256 env)
           (save (upsert_group rec (unfaulted db)))) = (seq, db')"
      "apply_tx sha256 now rec save mt env ts e db = (Inr (True, seq), db')"
proof (rule with_io_cases [of "\<lambda>db. if hasAppliedEnvelopeTx (gr_GroupID rec) (sha256 env) db
     then (Inr (False, 0), db)
     else case saveGroupRecordTx rec db of
         Inl err \<Rightarrow> (Inl err, db)
       | Inr db1 \<Rightarrow>
          let (seq, db3) = appendEnvelopeTx sha256 now (gr_GroupID rec) mt e ts env
                (markEnvelopeAppliedTx now (gr_GroupID rec) mt (gr_Epoch rec) (sha256 env) (save db1))
          in (Inr (True, seq), db3)" db], goal_cases)
  case 1
  then show ?thesis using fault by (simp add: apply_tx_def)
next
  case 2
  then show ?thesis
    using again invalid commit
    by (cases "hasAppliedEnvelopeTx (gr_GroupID rec) (sha256 env) (unfaulted db)";
        cases "validateGroupRecordForSave rec")
      (auto simp: apply_tx_def hasAppliedEnvelopeTx_def saveGroupRecordTx_def Let_def split: prod.splits)
qed

text \<open>The log after an applying transaction: every row of the envelope is marked applied.\<close>

lemma log_markEnvelopeAppliedTx:
  "h \<noteq> [] \<Longrightarrow> db_log (markEnvelopeAppliedTx now gid mt e h db) =
    map (\<lambda>r. if er_GroupID r = gid \<and> er_EnvelopeHash r = h
              then mark_log_row now ReplayStateApplied '''' r else r) (db_log db)"
  by (simp add: markEnvelopeAppliedTx_def markEnvelopeReplayStateTx_def markEnvelopeAppliedSQL_def)

lemma log_mark_applied:
  assumes "h \<noteq> []" "r \<in> set (db_log (markEnvelopeAppliedTx now gid mt e h db))"
    "er_GroupID r = gid" "er_EnvelopeHash r = h"
  shows "er_ApplyState r = ReplayStateApplied"
  using assms(2-) unfolding log_markEnvelopeAppliedTx [OF assms(1)] set_map
  by (elim imageE) (simp add: mark_log_row_def split: if_splits)

definition applied_states :: "string set" where
  "applied_states = {ReplayStateApplied, ''applied''}"

lemma log_append_state:
  assumes "r \<in> set (db_log (snd (appendEnvelopeTx sha256 now gid mt e ts env db)))"
  shows "er_ApplyState r \<in> applied_states \<or>
    (\<exists>q \<in> set (db_log db). er_ApplyState r = er_ApplyState q \<and> er_GroupID r = er_GroupID q \<and>
       er_EnvelopeHash r = er_EnvelopeHash q)"
proof (cases "ghas (db_dedup db) (gid, sha256 env)")
  case True
  with assms have "r \<in> set (db_log (touch_received now gid (sha256 env) db))"
    by (simp add: appendEnvelopeTx_def Let_def)
  then obtain q where "q \<in> set (db_log db)" "r = (if er_GroupID q = gid \<and> er_EnvelopeHash q = sha256 env
      then q\<lparr>er_ReceivedAtMs := UnixMilli now\<rparr> else q)"
    by (auto simp: touch_received_def)
  then show ?thesis by (intro disjI2 bexI [of _ q]) simp_all
next
  case False
  with assms show ?thesis
    by (auto simp: appendEnvelopeTx_def insert_log_def insert_dedup_def applied_states_def Let_def)
qed

lemma appended_rows_applied:
  assumes "appendEnvelopeTx sha256 now gid mt e ts env (markEnvelopeAppliedTx now gid mt e' (sha256 env) db)
    = (seq, db')" and "r \<in> set (db_log db')" "er_GroupID r = gid" "er_EnvelopeHash r = sha256 env"
    and "sha256 env \<noteq> []"
  shows "er_ApplyState r \<in> applied_states"
proof -
  have "r \<in> set (db_log (snd (appendEnvelopeTx sha256 now gid mt e ts env
      (markEnvelopeAppliedTx now gid mt e' (sha256 env) db))))"
    using assms(1,2) by simp
  from log_append_state [OF this] show ?thesis
    using log_mark_applied [OF assms(5)] assms(3,4) by (metis applied_states_def insertI1)
qed

lemma appended_row_logged:
  assumes "appendEnvelopeTx sha256 now gid mt e ts env db = (seq, db')" and "seq \<noteq> 0"
  shows "\<exists>r \<in> set (db_log db'). er_GroupID r = gid \<and> er_Seq r = seq \<and> er_Envelope r = env \<and> er_Epoch r = e"
  using assms
  by (auto simp: appendEnvelopeTx_def insert_log_def insert_dedup_def Let_def split: if_splits)

lemma message_keyI:
  assumes "ms_envelope_hash r = h" "ms_group_id r = gid" "h \<noteq> []"
  shows "(gid, h) \<in> set (message_keys (insert_message r db))"
proof -
  obtain q where "q \<in> set (db_messages (insert_message r db))" "ms_group_id q = gid" "ms_envelope_hash q = h"
  proof (cases "list_ex (\<lambda>q. ms_group_id q = ms_group_id r \<and> ms_envelope_hash q = ms_envelope_hash r)
      (db_messages db)")
    case True
    then show ?thesis using that assms by (auto simp: insert_message_def list_ex_iff)
  next
    case False
    then show ?thesis using that [of r] assms by (simp add: insert_message_def)
  qed
  with assms(3) show ?thesis
    unfolding message_keys_def by (auto intro!: image_eqI [of _ _ q])
qed

lemma distinct_count_list: "distinct xs \<Longrightarrow> x \<in> set xs \<Longrightarrow> count_list xs x = 1"
  by (simp add: distinct_count_atmost_1 flip: count_mset)

text \<open>
  C30: applying an application envelope is one atomic step. When the call fails nothing is written.
  When it reports that the envelope had been applied, nothing is written either. When it reports
  success, the envelope had not been applied and now is, the group's row is the merged record, exactly
  one stored message carries the envelope's hash, every log row of the envelope is marked applied, and
  a sequence number other than 0 is that of a new log row holding the envelope.
\<close>

theorem apply_application_atomic:
  assumes ok: "storage_ok db" and hash: "sha256 envelope \<noteq> []"
    and grp: "sm_GroupID msg = gr_GroupID rec"
    and call: "ApplyApplication sha256 pidString now rec msg mt envelope ts envEpoch db = (res, msg', db')"
  shows "case res of
      Inl _ \<Rightarrow> db' \<in> {db, unfaulted db}
    | Inr (False, seq) \<Rightarrow> seq = 0 \<and> db' = unfaulted db \<and>
        ghas (db_applied db) (gr_GroupID rec, sha256 envelope)
    | Inr (True, seq) \<Rightarrow> \<not> ghas (db_applied db) (gr_GroupID rec, sha256 envelope) \<and>
        ghas (db_applied db') (gr_GroupID rec, sha256 envelope) \<and>
        map_option (group_of_row (gr_GroupID rec)) (gget (db_groups db') (gr_GroupID rec))
          = Some (merged_group (db_tz db) (gget (db_groups db) (gr_GroupID rec)) rec) \<and>
        count_list (message_keys db') (gr_GroupID rec, sha256 envelope) = 1 \<and>
        (\<forall>r \<in> set (db_log db'). er_GroupID r = gr_GroupID rec \<longrightarrow> er_EnvelopeHash r = sha256 envelope \<longrightarrow>
           er_ApplyState r \<in> applied_states) \<and>
        (seq \<noteq> 0 \<longrightarrow> (\<exists>r \<in> set (db_log db'). er_GroupID r = gr_GroupID rec \<and> er_Seq r = seq \<and>
           er_Envelope r = envelope \<and> er_Epoch r = envEpoch))"
proof (cases "gr_GroupID rec = '''' \<or> sm_GroupID msg = '''' \<or> envelope = []")
  case True
  then show ?thesis using call by (auto simp: ApplyApplication_def)
next
  case False
  define save where "save = saveMessageTx pidString (stamped_message (sha256 envelope) msg)"
  from False have tx: "apply_tx sha256 now rec save mt envelope ts envEpoch db = (res, db')"
    using call by (auto simp: ApplyApplication_apply_tx save_def split: prod.splits)

  show ?thesis
  proof (cases rule: apply_tx_cases [of sha256 now rec save mt envelope ts envEpoch db])
    case (commit seq d)
    let ?d1 = "save (upsert_group rec (unfaulted db))"
    have d: "db' = snd (appendEnvelopeTx sha256 now (gr_GroupID rec) mt envEpoch ts envelope
        (markEnvelopeAppliedTx now (gr_GroupID rec) mt (gr_Epoch rec) (sha256 envelope) ?d1))"
      using commit tx by simp
    have "storage_ok ?d1"
      using ok by (simp add: save_def saveMessageTx_def storage_ok_intros)
    moreover have "(gr_GroupID rec, sha256 envelope) \<in> set (message_keys ?d1)"
      unfolding save_def saveMessageTx_def
      by (rule message_keyI) (use hash grp in \<open>simp_all add: message_row_of_def stamped_message_def\<close>)
    ultimately have "count_list (message_keys ?d1) (gr_GroupID rec, sha256 envelope) = 1"
      by (simp add: storage_okD(8) distinct_count_list)
    then have "count_list (message_keys db') (gr_GroupID rec, sha256 envelope) = 1"
      by (simp add: d message_keys_def)
    moreover have "map_option (group_of_row (gr_GroupID rec)) (gget (db_groups db') (gr_GroupID rec))
          = Some (merged_group (db_tz db) (gget (db_groups db) (gr_GroupID rec)) rec)"
      using group_of_upsert [of rec "unfaulted db"] by (simp add: d save_def)
    moreover have "ghas (db_applied db') (gr_GroupID rec, sha256 envelope)"
      by (simp add: d)
    ultimately show ?thesis
      using commit tx hash appended_rows_applied [OF commit(3)] appended_row_logged [OF commit(3)] by simp
  qed (use tx in simp_all)
qed

section \<open>A fresh database\<close>

definition empty_db :: DB where
  "empty_db = \<lparr>db_tz = 25200, db_faults = [], db_groups = [], db_coord = [], db_messages = [], db_log = [],
     db_log_next_id = 1, db_dedup = [], db_applied = [], db_sync_acks = [], db_ack_queue = [],
     db_ack_next_id = 1, db_pull = [], db_ops = [], db_jobs = [], db_events = [], db_outbound = [],
     db_heal_events = [], db_heal_audit = [], db_heal_next_id = 1\<rparr>"

lemma storage_ok_empty: "storage_ok empty_db"
  by (simp add: storage_ok_def empty_db_def log_keys_def log_positions_def message_keys_def)

lemma calm_empty [simp]: "calm n empty_db"
  by (simp add: calm_def empty_db_def)

definition sample_coord :: CoordState where
  "sample_coord = \<lparr>cs_GroupID = ''g1'', cs_ActiveView = [''p1'', ''p2''], cs_TokenHolder = ''p1'',
     cs_LastCommitHash = [7], cs_LastCommitAt = 1500000000, cs_PendingProposals = [[1], [2]],
     cs_HistoryChain = [(0, [171, 205]), (12, [])]\<rparr>"

definition sample_group :: GroupRecord where
  "sample_group = \<lparr>gr_GroupID = ''g1'', gr_GroupState = [1], gr_Epoch = 1, gr_TreeHash = [9],
     gr_MyRole = RoleMember, gr_GroupType = ''channel'', gr_CategoryID = ''c'',
     gr_DMCounterpartyPeerID = '''', gr_CreatedAt = 0, gr_UpdatedAt = 0\<rparr>"

definition sample_message :: StoredMessage where
  "sample_message = \<lparr>sm_MessageID = '''', sm_GroupID = ''g1'', sm_Epoch = 1, sm_SenderID = ''p1'',
     sm_Content = [104, 105], sm_Timestamp = HLCTimestamp 5 0 ''p1'', sm_LocalEchoToken = '''',
     sm_EnvelopeHash = [], sm_CommentCount = 0, sm_ReplayedAt = None, sm_SupersedesMessageID = ''''\<rparr>"


theorem group_record_roundtrip_witness:
  "validateGroupRecordForSave sample_group = Inr () \<and>
   fst (GetGroupRecord ''g1'' (snd (SaveGroupRecord sample_group empty_db))) =
     Inr (sample_group\<lparr>gr_CreatedAt := 25200000000000, gr_UpdatedAt := 25200000000000\<rparr>)"
  using group_record_roundtrip [of empty_db sample_group]
  by (simp add: sample_group_def validateGroupRecordForSave_def merged_group_def empty_db_def
      stored_instant_def parse_datetime_def format_datetime_def Unix_def TrimSpace_def is_space_def calm_def)

theorem apply_application_atomic_witness:
  "case ApplyApplication (\<lambda>b. 1 # b) (\<lambda>p. p) 0 sample_group sample_message MsgApplication [5]
     (HLCTimestamp 5 0 ''p1'') 1 empty_db of
    (res, msg', db') \<Rightarrow> res = Inr (True, 1) \<and> count_list (message_keys db') (''g1'', [1, 5]) = 1 \<and>
      ghas (db_applied db') (''g1'', [1, 5])"
proof -
  obtain res msg' db' where call: "ApplyApplication (\<lambda>b. 1 # b) (\<lambda>p. p) 0 sample_group sample_message
      MsgApplication [5] (HLCTimestamp 5 0 ''p1'') 1 empty_db = (res, msg', db')"
    by (metis prod_cases3)
  have "fst (ApplyApplication (\<lambda>b. 1 # b) (\<lambda>p. p) 0 sample_group sample_message
      MsgApplication [5] (HLCTimestamp 5 0 ''p1'') 1 empty_db) = Inr (True, 1)"
    by code_simp
  then have "res = Inr (True, 1)" using call by simp
  then show ?thesis
    using apply_application_atomic [OF storage_ok_empty _ _ call] call
    by (simp add: sample_group_def sample_message_def)
qed

end
