(* ===== verification/OfflineStore.thy ===== *)
theory OfflineStore
  imports Storage
begin

text \<open>
  The offline side of the storage, \<^verbatim>\<open>adapter/store/coordination_storage.go\<close>: reading the envelope log,
  pruning it, acknowledgements and pull cursors. At the end, the operations on envelopes form one step
  function, over which the storage invariant and exactly-once application are proved.
\<close>

section \<open>Reading the envelope log\<close>

text \<open>\<^verbatim>\<open>LIMIT\<close>: SQLite takes a negative bound as none. \<^verbatim>\<open>ORDER BY\<close> keeps the order of the rows on ties.\<close>

definition sql_limit :: "int \<Rightarrow> 'a list \<Rightarrow> 'a list" where
  "sql_limit n xs = (if n < 0 then xs else take (nat n) xs)"

definition order_by :: "('a \<Rightarrow> 'b::linorder) \<Rightarrow> 'a list \<Rightarrow> 'a list" where
  "order_by key xs = SliceStable (\<lambda>a b. key a < key b) xs"

definition log_after :: "string \<Rightarrow> int \<Rightarrow> DB \<Rightarrow> EnvelopeRecord list" where
  "log_after groupID afterSeq db = map EnvelopeRecord.truncate
    (order_by er_Seq (filter (\<lambda>r. er_GroupID r = groupID \<and> er_Seq r > afterSeq) (db_log db)))"

definition GetEnvelopesSince ::
  "string \<Rightarrow> int \<Rightarrow> int \<Rightarrow> DB \<Rightarrow> (error + EnvelopeRecord list) \<times> DB" where
  "GetEnvelopesSince groupID afterSeq maxCount = with_io (\<lambda>db.
    (let n = (if maxCount < 1 then 50 else maxCount)
     in (Inr (sql_limit n (log_after groupID afterSeq db)), db)))"

definition pending_states :: "string list" where
  "pending_states = [''pending'', ''RECEIVED'', ''READY'', ''FUTURE_EPOCH'', ''PERSIST_FAILED'',
     ''BLOCKED_MISSING_PRIOR_EPOCH'', ''BLOCKED_MISSING_COMMIT'', ''FORK_CONFLICT'', ''WAITING_SYNC'',
     ''future_epoch'', ''persist_failed'']"

text \<open>The order of pending envelopes: epoch, then the timestamp's wall time, counter and node.\<close>

definition pending_before :: "log_row \<Rightarrow> log_row \<Rightarrow> bool" where
  "pending_before a b \<longleftrightarrow> er_Epoch a < er_Epoch b \<or>
     er_Epoch a = er_Epoch b \<and> er_Timestamp a < er_Timestamp b"

definition GetPendingEnvelopes :: "string \<Rightarrow> int \<Rightarrow> DB \<Rightarrow> (error + EnvelopeRecord list) \<times> DB" where
  "GetPendingEnvelopes groupID maxCount = with_io (\<lambda>db.
    (let n = (if maxCount < 1 then 100 else maxCount)
     in (Inr (sql_limit n (map EnvelopeRecord.truncate (SliceStable pending_before
          (filter (\<lambda>r. er_GroupID r = groupID \<and> er_ApplyState r \<in> set pending_states) (db_log db))))), db)))"

definition GetEnvelope :: "bytes \<Rightarrow> DB \<Rightarrow> (error + EnvelopeRecord option) \<times> DB" where
  "GetEnvelope envelopeHash = with_io (\<lambda>db.
    (Inr (map_option EnvelopeRecord.truncate (find (\<lambda>r. er_EnvelopeHash r = envelopeHash) (db_log db))), db))"

definition GetLatestSeq :: "string \<Rightarrow> DB \<Rightarrow> (error + int) \<times> DB" where
  "GetLatestSeq groupID = with_io (\<lambda>db.
    (Inr (case max_seq groupID (db_log db) of None \<Rightarrow> 0 | Some m \<Rightarrow> m), db))"

definition ListEnvelopeStateCounts :: "string \<Rightarrow> DB \<Rightarrow> (error + (string, nat) gomap) \<times> DB" where
  "ListEnvelopeStateCounts groupID = with_io (\<lambda>db.
    (let states = map er_ApplyState (filter (\<lambda>r. er_GroupID r = groupID) (db_log db))
     in (Inr (map (\<lambda>s. (s, count_list states s)) (remdups states)), db)))"

section \<open>Pruning\<close>

text \<open>
  \<^verbatim>\<open>PruneEnvelopes\<close> runs its statements one by one, outside a transaction: each may fail, and the rows
  removed so far stay removed. The failure of the second statement is ignored.
\<close>

definition delete_before :: "int \<Rightarrow> DB \<Rightarrow> DB" where
  "delete_before cutoffUnix db = db\<lparr>db_log := filter (\<lambda>r. \<not> lr_created_at r < cutoffUnix) (db_log db)\<rparr>"

definition delete_dedup_before :: "int \<Rightarrow> DB \<Rightarrow> DB" where
  "delete_dedup_before cutoffUnix db =
    db\<lparr>db_dedup := filter (\<lambda>(_, at). \<not> at < cutoffUnix) (db_dedup db)\<rparr>"

definition delete_oldest :: "string \<Rightarrow> DB \<Rightarrow> DB" where
  "delete_oldest gid db =
    (case order_by er_Seq (filter (\<lambda>r. er_GroupID r = gid) (db_log db)) of
       [] \<Rightarrow> db
     | r # _ \<Rightarrow> db\<lparr>db_log := filter (\<lambda>q. lr_id q \<noteq> lr_id r) (db_log db)\<rparr>)"

definition group_rows :: "string \<Rightarrow> DB \<Rightarrow> log_row list" where
  "group_rows gid db = filter (\<lambda>r. er_GroupID r = gid) (db_log db)"

fun prune_cap :: "nat \<Rightarrow> string \<Rightarrow> int \<Rightarrow> DB \<Rightarrow> (int \<times> error option) \<times> DB" where
  "prune_cap 0 gid removed db = ((removed, None), db)"
| "prune_cap (Suc excess) gid removed db =
    (case with_io (\<lambda>db. (Inr (), delete_oldest gid db)) db of
       (Inl err, db1) \<Rightarrow> ((removed, Some err), db1)
     | (Inr _, db1) \<Rightarrow> prune_cap excess gid (removed + 1) db1)"

fun prune_groups :: "int \<Rightarrow> string list \<Rightarrow> int \<Rightarrow> DB \<Rightarrow> (int \<times> error option) \<times> DB" where
  "prune_groups maxPerGroup [] removed db = ((removed, None), db)"
| "prune_groups maxPerGroup (gid # gids) removed db =
    (case with_io (\<lambda>db. (Inr (length (group_rows gid db)), db)) db of
       (Inl err, db1) \<Rightarrow> ((removed, Some err), db1)
     | (Inr cnt, db1) \<Rightarrow>
        (case prune_cap (nat (int cnt - maxPerGroup)) gid removed db1 of
           ((removed', Some err), db2) \<Rightarrow> ((removed', Some err), db2)
         | ((removed', None), db2) \<Rightarrow> prune_groups maxPerGroup gids removed' db2))"

definition PruneEnvelopes :: "int \<Rightarrow> int \<Rightarrow> DB \<Rightarrow> (int \<times> error option) \<times> DB" where
  "PruneEnvelopes cutoffUnix maxPerGroup db =
    (case with_io (\<lambda>db. (Inr (length (db_log db) - length (db_log (delete_before cutoffUnix db))),
                          delete_before cutoffUnix db)) db of
       (Inl err, db1) \<Rightarrow> ((0, Some err), db1)
     | (Inr n, db1) \<Rightarrow>
        let db2 = snd (with_io (\<lambda>db. (Inr (), delete_dedup_before cutoffUnix db)) db1) in
        if maxPerGroup < 1 then ((int n, None), db2)
        else case with_io (\<lambda>db. (Inr (remdups (map er_GroupID (db_log db))), db)) db2 of
            (Inl err, db3) \<Rightarrow> ((int n, Some err), db3)
          | (Inr gids, db3) \<Rightarrow> prune_groups maxPerGroup gids (int n) db3)"

section \<open>Acknowledgements and cursors\<close>

definition RecordSyncAck :: "time \<Rightarrow> string \<Rightarrow> string \<Rightarrow> int \<Rightarrow> DB \<Rightarrow> (error + unit) \<times> DB" where
  "RecordSyncAck now peerID groupID ackedSeq = with_io (\<lambda>db.
    (Inr (), db\<lparr>db_sync_acks := gput (peerID, groupID)
      (case gget (db_sync_acks db) (peerID, groupID) of
         None \<Rightarrow> (ackedSeq, Unix now)
       | Some (old, _) \<Rightarrow> (if ackedSeq > old then ackedSeq else old, Unix now)) (db_sync_acks db)\<rparr>))"

definition GetSyncAck :: "string \<Rightarrow> string \<Rightarrow> DB \<Rightarrow> (error + int) \<times> DB" where
  "GetSyncAck peerID groupID = with_io (\<lambda>db.
    (Inr (case gget (db_sync_acks db) (peerID, groupID) of None \<Rightarrow> 0 | Some (ack, _) \<Rightarrow> ack), db))"

fun min_acked_loop :: "string \<Rightarrow> string list \<Rightarrow> int \<Rightarrow> DB \<Rightarrow> (error + int) \<times> DB" where
  "min_acked_loop groupID [] minAck db = (Inr (if minAck < 0 then 0 else minAck), db)"
| "min_acked_loop groupID (pid # pids) minAck db =
    (case GetSyncAck pid groupID db of
       (Inl err, db1) \<Rightarrow> (Inl err, db1)
     | (Inr ack, db1) \<Rightarrow>
        min_acked_loop groupID pids (if minAck < 0 \<or> ack < minAck then ack else minAck) db1)"

definition GetMinAckedSeq :: "string \<Rightarrow> string list \<Rightarrow> DB \<Rightarrow> (error + int) \<times> DB" where
  "GetMinAckedSeq groupID peerIDs db =
    (if peerIDs = [] then (Inr 0, db) else min_acked_loop groupID peerIDs (- 1) db)"

definition EnqueuePendingDeliveryAck :: "string \<Rightarrow> string \<Rightarrow> int \<Rightarrow> DB \<Rightarrow> (error + unit) \<times> DB" where
  "EnqueuePendingDeliveryAck targetPeerID groupID ackedSeq = with_io (\<lambda>db.
    (Inr (),
     if list_ex (\<lambda>r. pa_TargetPeerID r = targetPeerID \<and> pa_GroupID r = groupID) (db_ack_queue db)
     then db\<lparr>db_ack_queue := map (\<lambda>r.
            if pa_TargetPeerID r = targetPeerID \<and> pa_GroupID r = groupID
            then r\<lparr>pa_AckedSeq := (if ackedSeq > pa_AckedSeq r then ackedSeq else pa_AckedSeq r)\<rparr>
            else r) (db_ack_queue db)\<rparr>
     else db\<lparr>db_ack_queue := db_ack_queue db @ [\<lparr>pa_ID = db_ack_next_id db,
            pa_TargetPeerID = targetPeerID, pa_GroupID = groupID, pa_AckedSeq = ackedSeq\<rparr>],
          db_ack_next_id := db_ack_next_id db + 1\<rparr>))"

definition ListPendingDeliveryAcksForTarget ::
  "string \<Rightarrow> DB \<Rightarrow> (error + PendingDeliveryAckRow list) \<times> DB" where
  "ListPendingDeliveryAcksForTarget targetPeerID = with_io (\<lambda>db.
    (Inr (filter (\<lambda>r. pa_TargetPeerID r = targetPeerID) (db_ack_queue db)), db))"

definition DeletePendingDeliveryAck :: "int \<Rightarrow> DB \<Rightarrow> (error + unit) \<times> DB" where
  "DeletePendingDeliveryAck ackID = with_io (\<lambda>db.
    (Inr (), db\<lparr>db_ack_queue := filter (\<lambda>r. pa_ID r \<noteq> ackID) (db_ack_queue db)\<rparr>))"

definition GetOfflinePullCursor :: "string \<Rightarrow> string \<Rightarrow> DB \<Rightarrow> (error + int) \<times> DB" where
  "GetOfflinePullCursor groupID remotePeerID = with_io (\<lambda>db.
    (Inr (case gget (db_pull db) (groupID, remotePeerID) of None \<Rightarrow> 0 | Some seq \<Rightarrow> seq), db))"

definition SetOfflinePullCursor :: "string \<Rightarrow> string \<Rightarrow> int \<Rightarrow> DB \<Rightarrow> (error + unit) \<times> DB" where
  "SetOfflinePullCursor groupID remotePeerID lastRemoteSeq = with_io (\<lambda>db.
    (Inr (), db\<lparr>db_pull := gput (groupID, remotePeerID) lastRemoteSeq (db_pull db)\<rparr>))"

definition GetKnownGroupMembers :: "string \<Rightarrow> DB \<Rightarrow> (error + string list) \<times> DB" where
  "GetKnownGroupMembers groupID = with_io (\<lambda>db.
    (Inr (remdups (map ms_sender_id (filter (\<lambda>r. ms_group_id r = groupID) (db_messages db)))), db))"

section \<open>Paging through the log\<close>

interpretation keyed: weak_order "\<lambda>a b. key a < (key b :: 'b::linorder)" for key
  by unfold_locales auto

lemma order_by_set [simp]: "set (order_by key xs) = set xs"
  by (simp add: order_by_def)

lemma order_by_sorted: "sorted (map key (order_by key xs))"
  using keyed.sorted_SliceStable [of key xs]
  by (simp add: order_by_def sorted_map not_less)

lemma order_by_strict:
  assumes "distinct (map key xs)"
  shows "sorted_wrt (<) (map key (order_by key xs))"
proof -
  have "mset (map key (order_by key xs)) = mset (map key xs)"
    by (simp add: order_by_def)
  then have "distinct (map key (order_by key xs))"
    using assms by (metis mset_eq_imp_distinct_iff)
  with order_by_sorted [of key xs] show ?thesis
    by (simp add: strict_sorted_iff)
qed

lemma distinct_group_seqs:
  assumes "storage_ok db"
  shows "distinct (map er_Seq (filter (\<lambda>r. er_GroupID r = gid \<and> P r) (db_log db)))"
proof -
  have "distinct (map (\<lambda>r. (er_GroupID r, er_Seq r)) (filter (\<lambda>r. er_GroupID r = gid \<and> P r) (db_log db)))"
    using storage_okD(5) [OF assms] by (simp add: log_positions_def distinct_map_filter)
  then show ?thesis
    by (auto simp: distinct_map inj_on_def)
qed

lemma truncate_Seq [simp]: "er_Seq (EnvelopeRecord.truncate (r :: 'z EnvelopeRecord_scheme)) = er_Seq r"
  by (simp add: EnvelopeRecord.defs)

lemma log_after_sorted:
  assumes "storage_ok db"
  shows "sorted_wrt (<) (map er_Seq (log_after gid a db))"
  using order_by_strict [OF distinct_group_seqs [OF assms, of gid "\<lambda>r. er_Seq r > a"]]
  by (simp add: log_after_def o_def)

text \<open>Reading on from the last row of a page leaves out exactly that page.\<close>

lemma strict_sorted_page:
  assumes "sorted_wrt (<) (map f xs)" and "take n xs \<noteq> []"
  shows "filter (\<lambda>x. f x > (f (last (take n xs)) :: 'b::linorder)) xs = drop n xs"
proof -
  let ?b = "f (last (take n xs))"
  have split: "xs = take n xs @ drop n xs" by simp
  have "sorted_wrt (<) (map f (take n xs) @ map f (drop n xs))"
    using assms(1) by (metis split map_append)
  then have cross: "\<forall>x \<in> set (take n xs). \<forall>y \<in> set (drop n xs). f x < f y"
    by (auto simp: sorted_wrt_append)
  have inner: "sorted_wrt (<) (map f (take n xs))"
    using assms(1) by (simp add: take_map [symmetric] sorted_wrt_take)
  have "\<forall>x \<in> set (take n xs). f x \<le> ?b"
  proof
    fix x assume "x \<in> set (take n xs)"
    then have "x \<in> set (butlast (take n xs) @ [last (take n xs)])"
      using assms(2) by simp
    moreover have "sorted_wrt (<) (map f (butlast (take n xs) @ [last (take n xs)]))"
      using assms(2) inner by (simp del: butlast_take)
    ultimately show "f x \<le> ?b" by (auto simp: sorted_wrt_append)
  qed
  then have "filter (\<lambda>x. f x > ?b) (take n xs) = []" by (simp add: filter_empty_conv not_less)
  moreover have "filter (\<lambda>x. f x > ?b) (drop n xs) = drop n xs"
    using cross last_in_set [OF assms(2)] by (simp add: filter_id_conv)
  ultimately show ?thesis by (metis split append_Nil filter_append)
qed

lemma order_by_filter:
  fixes key :: "'a \<Rightarrow> 'b::linorder"
  assumes "distinct (map key xs)"
  shows "filter P (order_by key xs) = order_by key (filter P xs)"
proof -
  have inj: "x = y" if "x \<in> set xs" "y \<in> set xs" "\<not> key x < key y" "\<not> key y < key x" for x y
    using assms that by (auto simp: distinct_map inj_on_def)
  have "sorted_wrt (\<lambda>a b. \<not> key b < key a) (filter P (order_by key xs))"
    by (rule sorted_wrt_filter) (simp add: order_by_def keyed.sorted_SliceStable)
  moreover have "mset (filter P (order_by key xs)) = mset (order_by key (filter P xs))"
    by (simp add: order_by_def)
  ultimately show ?thesis
    using keyed.sorted_unique [of "filter P (order_by key xs)" "order_by key (filter P xs)" key]
      keyed.sorted_SliceStable [of key "filter P xs"] inj
    by (simp add: order_by_def)
qed

lemma log_after_step:
  assumes "storage_ok db" and "a \<le> b"
  shows "log_after gid b db = filter (\<lambda>r. er_Seq r > b) (log_after gid a db)"
proof -
  let ?xs = "filter (\<lambda>r. er_GroupID r = gid \<and> er_Seq r > a) (db_log db)"
  have "filter (\<lambda>r. er_GroupID r = gid \<and> er_Seq r > b) (db_log db) = filter (\<lambda>r. er_Seq r > b) ?xs"
    using assms(2) by (auto intro: filter_cong)
  moreover have "filter (\<lambda>r. er_Seq r > b) (order_by er_Seq ?xs)
      = order_by er_Seq (filter (\<lambda>r. er_Seq r > b) ?xs)"
    by (rule order_by_filter [OF distinct_group_seqs [OF assms(1)]])
  ultimately show ?thesis
    by (simp add: log_after_def filter_map o_def)
qed

text \<open>
  A reader that follows the log: it asks for a page after its cursor and moves the cursor to the
  last row it got, for some number of rounds or until a page is empty or the call fails.
\<close>

fun read_pages :: "nat \<Rightarrow> string \<Rightarrow> int \<Rightarrow> int \<Rightarrow> DB \<Rightarrow> EnvelopeRecord list" where
  "read_pages 0 gid cursor maxCount db = []"
| "read_pages (Suc n) gid cursor maxCount db =
    (case GetEnvelopesSince gid cursor maxCount db of
       (Inl _, _) \<Rightarrow> []
     | (Inr page, db1) \<Rightarrow>
        if page = [] then []
        else page @ read_pages n gid (er_Seq (last page)) maxCount db1)"

lemma log_after_member: "r \<in> set (log_after gid a db) \<Longrightarrow> a < er_Seq r"
  by (auto simp: log_after_def)

lemma log_after_unfaulted [simp]: "log_after gid a (unfaulted db) = log_after gid a db"
  unfolding log_after_def unfaulted_sel ..

lemma GetEnvelopesSince_calm:
  "calm (Suc n) db \<Longrightarrow> 1 \<le> m \<Longrightarrow>
   GetEnvelopesSince gid a m db = (Inr (take (nat m) (log_after gid a db)), unfaulted db)"
  unfolding GetEnvelopesSince_def
  by (subst with_io_calm, assumption) (simp add: sql_limit_def)

lemma read_pages_take:
  assumes "storage_ok db" and "1 \<le> m" and "calm n db"
  shows "read_pages n gid a m db = take (n * nat m) (log_after gid a db)"
  using assms(1,3)
proof (induction n arbitrary: a db)
  case (Suc n)
  let ?all = "log_after gid a db" and ?k = "nat m"
  let ?page = "take ?k ?all"
  show ?case
  proof (cases "?page = []")
    case True
    then show ?thesis
      using assms(2) GetEnvelopesSince_calm [OF Suc.prems(2) assms(2)] by auto
  next
    case False
    let ?b = "er_Seq (last ?page)"
    have "last ?page \<in> set ?all" using False by (meson in_set_takeD last_in_set)
    then have "a \<le> ?b" using log_after_member by fastforce
    then have rest: "log_after gid ?b (unfaulted db) = drop ?k ?all"
      using log_after_step [OF Suc.prems(1), of a ?b gid]
        strict_sorted_page [OF log_after_sorted [OF Suc.prems(1)] False]
      by simp
    have "read_pages n gid ?b m (unfaulted db) = take (n * ?k) (drop ?k ?all)"
      using Suc.IH [of "unfaulted db" ?b] Suc.prems rest by (simp add: calm_unfaulted)
    then show ?thesis
      using False GetEnvelopesSince_calm [OF Suc.prems(2) assms(2)] by (simp add: take_add)
  qed
qed simp

text \<open>
  Reading the envelope log page by page misses nothing, repeats nothing and keeps the order: the
  pages concatenate to the log's rows of that group after the cursor, in strictly ascending sequence
  order, once there are enough rounds for them; each round is one call without a fault.
\<close>

theorem paged_read_complete:
  assumes "storage_ok db" and "1 \<le> m" and "calm n db"
    and "length (group_rows gid db) \<le> n * nat m"
  shows "sorted_wrt (<) (map er_Seq (read_pages n gid a m db)) \<and>
    set (read_pages n gid a m db) =
      EnvelopeRecord.truncate ` {r \<in> set (db_log db). er_GroupID r = gid \<and> a < er_Seq r}"
proof -
  have "filter (\<lambda>r. er_GroupID r = gid \<and> er_Seq r > a) (db_log db)
      = filter (\<lambda>r. er_Seq r > a) (group_rows gid db)"
    unfolding group_rows_def filter_filter by (rule filter_cong) auto
  then have "length (log_after gid a db) \<le> length (group_rows gid db)"
    by (simp add: log_after_def order_by_def)
  then have "read_pages n gid a m db = log_after gid a db"
    using read_pages_take [OF assms(1-3)] assms(4) by simp
  then show ?thesis
    using log_after_sorted [OF assms(1)] by (auto simp: log_after_def)
qed

section \<open>What pruning keeps\<close>

definition oldest :: "nat \<Rightarrow> string \<Rightarrow> DB \<Rightarrow> log_row list" where
  "oldest n gid db = take n (order_by er_Seq (group_rows gid db))"

lemma set_filter_log_subset: "set (filter P (db_log db)) \<subseteq> set (db_log db)"
  by auto

lemma storage_ok_filter_log:
  assumes "storage_ok db"
  shows "storage_ok (db\<lparr>db_log := filter P (db_log db)\<rparr>)"
  using storage_okD [OF assms]
  by (intro storage_okI)
    (auto simp: log_keys_def log_positions_def message_keys_def distinct_map_filter)

lemma gget_filter_value:
  "gmap_ok m \<Longrightarrow> gget m k = Some v \<Longrightarrow> P v \<Longrightarrow> gget (filter (\<lambda>(_, x). P x) m) k = Some v"
  by (simp add: gget_iff_in_set gmap_ok_filter)

lemma storage_ok_delete_dedup:
  assumes "storage_ok db" and "\<And>r. r \<in> set (db_log db) \<Longrightarrow> \<not> lr_created_at r < c"
  shows "storage_ok (delete_dedup_before c db)"
  using storage_okD [OF assms(1)] assms(2)
  by (intro storage_okI)
    (auto simp: delete_dedup_before_def log_keys_def log_positions_def message_keys_def gmap_ok_filter
      gget_filter_value)

lemma storage_ok_delete_oldest: "storage_ok db \<Longrightarrow> storage_ok (delete_oldest gid db)"
  by (auto simp: delete_oldest_def storage_ok_filter_log split: list.splits)

lemma storage_ok_prune_cap: "storage_ok db \<Longrightarrow> storage_ok (snd (prune_cap n gid k db))"
proof (induction n arbitrary: k db)
  case (Suc n)
  have "storage_ok (snd (with_io (\<lambda>db. (Inr (), delete_oldest gid db)) db))"
    by (rule storage_ok_with_io) (simp_all add: Suc.prems storage_ok_delete_oldest)
  then show ?case
    using Suc.IH by (auto split: prod.splits sum.splits)
qed simp

lemma storage_ok_prune_groups: "storage_ok db \<Longrightarrow> storage_ok (snd (prune_groups m gids k db))"
proof (induction gids arbitrary: k db)
  case (Cons gid gids)
  obtain res db1 where w: "with_io (\<lambda>db. (Inr (length (group_rows gid db)), db)) db = (res, db1)"
    by fastforce
  have "storage_ok db1"
    using storage_ok_with_io [of "\<lambda>db. (Inr (length (group_rows gid db)), db)" db] Cons.prems by (simp add: w)
  then have "storage_ok (snd (prune_cap n gid k db1))" for n
    by (rule storage_ok_prune_cap)
  with \<open>storage_ok db1\<close> show ?case
    using Cons.IH by (auto simp: w split: prod.splits sum.splits option.splits) (metis snd_conv)+
qed simp

lemma storage_ok_PruneEnvelopes:
  assumes "storage_ok db"
  shows "storage_ok (snd (PruneEnvelopes cutoff m db))"
proof -
  let ?age = "\<lambda>db. (Inr (length (db_log db) - length (db_log (delete_before cutoff db))),
                          delete_before cutoff db)"
  obtain res db1 where w: "with_io ?age db = (res, db1)" by fastforce
  have "storage_ok (snd (with_io ?age db))"
    by (rule storage_ok_with_io) (simp_all add: assms delete_before_def storage_ok_filter_log)
  then have ok1: "storage_ok db1" by (simp add: w)
  define db2 where "db2 = snd (with_io (\<lambda>db. (Inr (), delete_dedup_before cutoff db)) db1)"
  have ok2: "storage_ok db2" if "res = Inr n" for n
  proof -
    have young: "\<not> lr_created_at r < cutoff" if "r \<in> set (db_log db1)" for r
      using that w \<open>res = Inr n\<close> by (auto simp: with_io_def delete_before_def split: if_splits)
    show ?thesis
      using ok1 young by (auto simp: db2_def with_io_def intro!: storage_ok_delete_dedup)
  qed
  have ok3: "storage_ok (snd (with_io (\<lambda>db. (Inr (remdups (map er_GroupID (db_log db))), db)) db2))"
    if "storage_ok db2"
    using that by (rule storage_ok_with_io [rotated]) simp
  show ?thesis
    using ok1 ok2 ok3 by (cases res)
      (auto simp: PruneEnvelopes_def w db2_def [symmetric] Let_def storage_ok_prune_groups
        split: prod.splits sum.splits)
qed

text \<open>One deletion removes the row of the group with the smallest sequence number.\<close>

lemma distinct_log: "storage_ok db \<Longrightarrow> distinct (db_log db)"
  by (auto dest: storage_okD(6) simp: distinct_map)

lemma oldest_subset: "set (oldest n gid db) \<subseteq> set (group_rows gid db)"
  unfolding oldest_def by (metis order_by_set set_take_subset)

lemma length_filter_notin:
  assumes "distinct xs" "distinct ys" "set ys \<subseteq> set xs"
  shows "length (filter (\<lambda>x. x \<notin> set ys) xs) = length xs - length ys"
proof -
  have "set (filter (\<lambda>x. x \<notin> set ys) xs) = set xs - set ys" by auto
  then have "length (filter (\<lambda>x. x \<notin> set ys) xs) = card (set xs - set ys)"
    by (metis assms(1) distinct_card distinct_filter)
  with assms show ?thesis by (simp add: card_Diff_subset distinct_card)
qed

lemma ordered_head_in_log:
  assumes "order_by er_Seq (group_rows gid db) = r # rs"
  shows "r \<in> set (db_log db)"
proof -
  have "r \<in> set (order_by er_Seq (group_rows gid db))" by (simp add: assms)
  then show ?thesis by (simp add: group_rows_def)
qed

lemma faultless_unfaulted: "True \<notin> set (db_faults db) \<Longrightarrow> True \<notin> set (db_faults (unfaulted db))"
  by (cases "db_faults db") (auto simp: unfaulted_def)

lemma group_rows_unfaulted [simp]: "group_rows gid (unfaulted db) = group_rows gid db"
  by (simp add: group_rows_def)

lemma log_delete_oldest:
  assumes "storage_ok db"
  shows "db_log (delete_oldest gid db) = filter (\<lambda>r. r \<notin> set (oldest 1 gid db)) (db_log db)"
proof (cases "order_by er_Seq (group_rows gid db)")
  case Nil
  then show ?thesis by (simp add: delete_oldest_def oldest_def group_rows_def)
next
  case (Cons r rs)
  then have "r \<in> set (db_log db)" by (rule ordered_head_in_log)
  then have "lr_id q \<noteq> lr_id r \<longleftrightarrow> q \<noteq> r" if "q \<in> set (db_log db)" for q
    using storage_okD(6) [OF assms] that by (auto simp: distinct_map inj_on_def)
  then show ?thesis
    using Cons by (auto simp: delete_oldest_def oldest_def group_rows_def intro: filter_cong)
qed

lemma group_rows_distinct_seq: "storage_ok db \<Longrightarrow> distinct (map er_Seq (group_rows gid db))"
  using distinct_group_seqs [of db gid "\<lambda>_. True"] by (simp add: group_rows_def)

lemma order_delete_oldest:
  assumes "storage_ok db"
  shows "order_by er_Seq (group_rows gid (delete_oldest gid db)) = drop 1 (order_by er_Seq (group_rows gid db))"
proof -
  let ?xs = "order_by er_Seq (group_rows gid db)"
  have "group_rows gid (delete_oldest gid db) = filter (\<lambda>r. r \<notin> set (oldest 1 gid db)) (group_rows gid db)"
    by (simp add: group_rows_def log_delete_oldest [OF assms] conj_commute)
  then have "order_by er_Seq (group_rows gid (delete_oldest gid db)) = filter (\<lambda>r. r \<notin> set (take 1 ?xs)) ?xs"
    by (simp add: order_by_filter [OF group_rows_distinct_seq [OF assms]] oldest_def)
  moreover have "distinct ?xs"
    by (simp add: order_by_def group_rows_def distinct_log [OF assms])
  ultimately show ?thesis
    by (cases ?xs) (auto intro: filter_True)
qed

lemma prune_cap_spec:
  assumes "storage_ok db" and "True \<notin> set (db_faults db)" and "n \<le> length (group_rows gid db)"
  obtains db' where "prune_cap n gid removed db = ((removed + int n, None), db')"
    and "db_log db' = filter (\<lambda>r. r \<notin> set (oldest n gid db)) (db_log db)"
    and "length (db_log db) = length (db_log db') + n"
    and "True \<notin> set (db_faults db')" and "storage_ok db'"
  using assms
proof (induction n arbitrary: removed db thesis)
  case 0
  then show ?case by (simp add: oldest_def)
next
  case (Suc n)
  let ?u = "unfaulted db"
  let ?d = "delete_oldest gid ?u"
  have u: "storage_ok ?u" "True \<notin> set (db_faults ?u)" "group_rows gid ?u = group_rows gid db"
    using Suc.prems by (simp_all add: faultless_unfaulted)
  have d: "storage_ok ?d" "True \<notin> set (db_faults ?d)"
    using u(1,2) storage_ok_delete_oldest [of ?u gid]
    by (simp_all add: delete_oldest_def split: list.splits)
  have ord: "order_by er_Seq (group_rows gid ?d) = drop 1 (order_by er_Seq (group_rows gid db))"
    using order_delete_oldest [OF u(1)] u(3) by simp
  have len: "length (group_rows gid ?d) = length (group_rows gid db) - 1"
    using arg_cong [OF ord, of length] by (simp add: order_by_def)
  have old: "set (oldest (Suc n) gid db) = set (oldest 1 gid ?u) \<union> set (oldest n gid ?d)"
    unfolding oldest_def ord u(3) by (cases "order_by er_Seq (group_rows gid db)") auto
  have one: "length (db_log ?u) = length (db_log ?d) + 1"
  proof -
    obtain r rs where r: "order_by er_Seq (group_rows gid ?u) = r # rs"
      using Suc.prems(4) u(3) by (cases "order_by er_Seq (group_rows gid ?u)")
        (auto simp: order_by_def simp flip: length_0_conv)
    then have "r \<in> set (db_log ?u)" by (rule ordered_head_in_log)
    then show ?thesis
      using log_delete_oldest [OF u(1), of gid] r length_pos_if_in_set [of r "db_log ?u"]
        length_filter_notin [OF distinct_log [OF u(1)], of "[r]"]
      by (simp add: oldest_def)
  qed
  from Suc.prems(4) len have "n \<le> length (group_rows gid ?d)" by simp
  from Suc.IH [OF _ d(1,2) this, of "removed + 1"] obtain db' where db':
    "prune_cap n gid (removed + 1) ?d = ((removed + 1 + int n, None), db')"
    "db_log db' = filter (\<lambda>r. r \<notin> set (oldest n gid ?d)) (db_log ?d)"
    "length (db_log ?d) = length (db_log db') + n"
    "True \<notin> set (db_faults db')" "storage_ok db'" by metis
  have "prune_cap (Suc n) gid removed db = ((removed + int (Suc n), None), db')"
    using db'(1) Suc.prems(3) by (simp add: with_io_calm [OF calm_all])
  moreover have "db_log db' = filter (\<lambda>r. r \<notin> set (oldest (Suc n) gid db)) (db_log db)"
    unfolding db'(2) log_delete_oldest [OF u(1)] old by (auto intro: filter_cong)
  ultimately show ?case
    using Suc.prems(1) db'(3-5) one by simp
qed

definition excess :: "int \<Rightarrow> string \<Rightarrow> DB \<Rightarrow> nat" where
  "excess m gid db = nat (int (length (group_rows gid db)) - m)"

lemma prune_groups_spec:
  assumes "storage_ok db" and "True \<notin> set (db_faults db)" and "distinct gids" and "0 \<le> m"
  obtains db' where
    "prune_groups m gids removed db = ((removed + int (length (db_log db)) - int (length (db_log db')), None), db')"
    and "db_log db' = filter (\<lambda>r. er_GroupID r \<in> set gids \<longrightarrow>
           r \<notin> set (oldest (excess m (er_GroupID r) db) (er_GroupID r) db)) (db_log db)"
  using assms(1-3)
proof (induction gids arbitrary: removed db thesis)
  case Nil
  then show ?case by simp
next
  case (Cons gid gids)
  let ?u = "unfaulted db"
  have u: "storage_ok ?u" "True \<notin> set (db_faults ?u)"
    using Cons.prems by (simp_all add: faultless_unfaulted)
  have "excess m gid db \<le> length (group_rows gid ?u)"
    using assms(4) by (simp add: excess_def nat_le_iff)
  then obtain db1 where db1: "prune_cap (excess m gid db) gid removed ?u = ((removed + int (excess m gid db), None), db1)"
    "db_log db1 = filter (\<lambda>r. r \<notin> set (oldest (excess m gid db) gid ?u)) (db_log ?u)"
    "length (db_log ?u) = length (db_log db1) + excess m gid db"
    "True \<notin> set (db_faults db1)" "storage_ok db1"
    using prune_cap_spec [OF u] by metis
  have same: "group_rows g db1 = group_rows g db" if "g \<noteq> gid" for g
    using that oldest_subset [of "excess m gid db" gid ?u]
    by (auto simp: group_rows_def db1(2) intro!: filter_cong)
  obtain db' where db': "prune_groups m gids (removed + int (excess m gid db)) db1 =
      ((removed + int (excess m gid db) + int (length (db_log db1)) - int (length (db_log db')), None), db')"
    "db_log db' = filter (\<lambda>r. er_GroupID r \<in> set gids \<longrightarrow>
        r \<notin> set (oldest (excess m (er_GroupID r) db1) (er_GroupID r) db1)) (db_log db1)"
    using Cons.IH [OF _ db1(5,4)] Cons.prems(4) by auto
  have "prune_groups m (gid # gids) removed db =
      ((removed + int (length (db_log db)) - int (length (db_log db')), None), db')"
    using db1(1,3) db'(1) Cons.prems(3)
    by (simp add: with_io_calm [OF calm_all] excess_def)
  moreover have "db_log db' = filter (\<lambda>r. er_GroupID r \<in> set (gid # gids) \<longrightarrow>
      r \<notin> set (oldest (excess m (er_GroupID r) db) (er_GroupID r) db)) (db_log db)"
    unfolding db'(2) db1(2) filter_filter unfaulted_sel
  proof (rule filter_cong [OF refl])
    fix r assume "r \<in> set (db_log db)"
    show "(r \<notin> set (oldest (excess m gid db) gid ?u) \<and> (er_GroupID r \<in> set gids \<longrightarrow>
          r \<notin> set (oldest (excess m (er_GroupID r) db1) (er_GroupID r) db1))) =
        (er_GroupID r \<in> set (gid # gids) \<longrightarrow>
          r \<notin> set (oldest (excess m (er_GroupID r) db) (er_GroupID r) db))"
      using Cons.prems(4) same [of "er_GroupID r"] oldest_subset [of "excess m gid db" gid db]
      by (cases "er_GroupID r = gid") (auto simp: oldest_def excess_def group_rows_def)
  qed
  ultimately show ?case using Cons.prems(1) by blast
qed

lemma oldest_first:
  assumes "storage_ok db" "r \<in> set (oldest n gid db)" "q \<in> set (group_rows gid db)" "q \<notin> set (oldest n gid db)"
  shows "er_Seq r < er_Seq q"
proof -
  let ?xs = "order_by er_Seq (group_rows gid db)"
  have "sorted_wrt (<) (map er_Seq (take n ?xs) @ map er_Seq (drop n ?xs))"
    using order_by_strict [OF group_rows_distinct_seq [OF assms(1)], of gid]
    by (metis append_take_drop_id map_append)
  moreover have "q \<in> set (take n ?xs @ drop n ?xs)"
    using assms(3) by simp
  then have "q \<in> set (drop n ?xs)"
    using assms(4) unfolding set_append oldest_def by simp
  ultimately show ?thesis
    using assms(2) unfolding oldest_def sorted_wrt_append set_map by blast
qed

lemma PruneEnvelopes_calm:
  assumes "storage_ok db" "True \<notin> set (db_faults db)" "1 \<le> m"
  obtains young db' where "young = filter (\<lambda>r. cutoff \<le> lr_created_at r) (db_log db)"
    "PruneEnvelopes cutoff m db = ((int (length (db_log db)) - int (length (db_log db')), None), db')"
    "db_log db' = filter (\<lambda>r. r \<notin> set (oldest (excess m (er_GroupID r) (db\<lparr>db_log := young\<rparr>))
        (er_GroupID r) (db\<lparr>db_log := young\<rparr>))) young"
proof -
  define young where "young = filter (\<lambda>r. cutoff \<le> lr_created_at r) (db_log db)"
  define db1 where "db1 = delete_before cutoff (unfaulted db)"
  define db2 where "db2 = delete_dedup_before cutoff (unfaulted db1)"
  have log1: "db_log db1 = young"
    by (simp add: db1_def delete_before_def young_def not_less)
  have f1: "True \<notin> set (db_faults db1)"
    using faultless_unfaulted [OF assms(2)] by (simp add: db1_def delete_before_def)
  have f2: "True \<notin> set (db_faults db2)" and log2: "db_log db2 = young"
    using faultless_unfaulted [OF f1] log1 by (simp_all add: db2_def delete_dedup_before_def)
  have "storage_ok (unfaulted db1)"
    using assms(1) storage_ok_filter_log [of "unfaulted db"] by (simp add: db1_def delete_before_def)
  then have ok2: "storage_ok db2"
    unfolding db2_def by (rule storage_ok_delete_dedup) (use log1 in \<open>simp add: young_def not_less\<close>)
  obtain db' where db': "prune_groups m (remdups (map er_GroupID young)) (int (length (db_log db) - length young))
      (unfaulted db2) = ((int (length (db_log db) - length young) + int (length young)
        - int (length (db_log db')), None), db')"
    "db_log db' = filter (\<lambda>r. er_GroupID r \<in> set (remdups (map er_GroupID young)) \<longrightarrow>
           r \<notin> set (oldest (excess m (er_GroupID r) (unfaulted db2)) (er_GroupID r) (unfaulted db2))) young"
    using prune_groups_spec [of "unfaulted db2" "remdups (map er_GroupID young)" m] ok2
      faultless_unfaulted [OF f2] assms(3) log2 by auto
  have "length young \<le> length (db_log db)" by (simp add: young_def)
  then have "PruneEnvelopes cutoff m db = ((int (length (db_log db)) - int (length (db_log db')), None), db')"
    using db'(1) assms log1 log2 f1 f2 unfolding PruneEnvelopes_def
    by (simp add: with_io_calm [OF calm_all] db1_def [symmetric] db2_def [symmetric] Let_def not_less)
  moreover have "db_log db' = filter (\<lambda>r. r \<notin> set (oldest (excess m (er_GroupID r) (db\<lparr>db_log := young\<rparr>))
        (er_GroupID r) (db\<lparr>db_log := young\<rparr>))) young"
    unfolding db'(2) by (rule filter_cong) (auto simp: oldest_def excess_def group_rows_def log2)
  ultimately show ?thesis using that young_def by blast
qed

text \<open>
  C40: pruning without a storage fault reports exactly the rows it removed and keeps, of every group,
  the rows that are not too old, up to the cap; of the rows that are young enough it removes those
  with the smallest sequence numbers of their group.
\<close>

theorem prune_envelopes_spec:
  assumes "storage_ok db" "True \<notin> set (db_faults db)" "1 \<le> m"
    and call: "PruneEnvelopes cutoff m db = ((removed, err), db')"
  shows "err = None \<and> removed = int (length (db_log db)) - int (length (db_log db')) \<and>
    set (db_log db') \<subseteq> {r \<in> set (db_log db). cutoff \<le> lr_created_at r} \<and>
    (\<forall>gid. length (group_rows gid db') =
       min (nat m) (length (filter (\<lambda>r. cutoff \<le> lr_created_at r) (group_rows gid db)))) \<and>
    (\<forall>r \<in> set (db_log db) - set (db_log db'). cutoff \<le> lr_created_at r \<longrightarrow>
       (\<forall>q \<in> set (db_log db'). er_GroupID q = er_GroupID r \<longrightarrow> er_Seq r < er_Seq q))"
proof -
  obtain young d where y: "young = filter (\<lambda>r. cutoff \<le> lr_created_at r) (db_log db)"
    and c: "PruneEnvelopes cutoff m db = ((int (length (db_log db)) - int (length (db_log d)), None), d)"
    and l: "db_log d = filter (\<lambda>r. r \<notin> set (oldest (excess m (er_GroupID r) (db\<lparr>db_log := young\<rparr>))
        (er_GroupID r) (db\<lparr>db_log := young\<rparr>))) young"
    using PruneEnvelopes_calm [OF assms(1-3)] by blast
  let ?y = "db\<lparr>db_log := young\<rparr>"
  have ok: "storage_ok ?y" using storage_ok_filter_log [OF assms(1)] y by simp
  have "length (group_rows gid d) = min (nat m) (length (filter (\<lambda>r. cutoff \<le> lr_created_at r) (group_rows gid db)))"
    for gid
  proof -
    have "group_rows gid d = filter (\<lambda>r. r \<notin> set (oldest (excess m gid ?y) gid ?y)) (group_rows gid ?y)"
      unfolding group_rows_def l filter_filter by (simp, rule filter_cong) auto
    moreover have "distinct (group_rows gid ?y)" "distinct (oldest (excess m gid ?y) gid ?y)"
      using distinct_log [OF ok] by (simp_all add: group_rows_def oldest_def order_by_def)
    ultimately have "length (group_rows gid d) = length (group_rows gid ?y) - excess m gid ?y"
      using length_filter_notin [OF _ _ oldest_subset, of gid ?y "excess m gid ?y"]
      by (simp add: oldest_def order_by_def min_def excess_def)
    moreover have "group_rows gid ?y = filter (\<lambda>r. cutoff \<le> lr_created_at r) (group_rows gid db)"
      by (simp add: group_rows_def y conj_commute)
    ultimately show ?thesis by (simp add: excess_def)
  qed
  moreover have "er_Seq r < er_Seq q"
    if "r \<in> set (db_log db) - set (db_log d)" "cutoff \<le> lr_created_at r" "q \<in> set (db_log d)"
      "er_GroupID q = er_GroupID r" for r q
    using that oldest_first [OF ok, of r "excess m (er_GroupID r) ?y" "er_GroupID r" q]
    by (auto simp: l y group_rows_def)
  ultimately show ?thesis
    using c call l y by (auto simp del: min_def)
qed

section \<open>Operations on envelopes as one step function\<close>

text \<open>The calls that write envelopes, marks and messages, with their arguments and the time of the call.\<close>

datatype db_op =
    OpSaveGroup GroupRecord
  | OpSaveMessage StoredMessage
  | OpApplyCommit time GroupRecord MessageType bytes HLCTimestamp u64
  | OpApplyApplication time GroupRecord StoredMessage MessageType bytes HLCTimestamp u64
  | OpApplyBatched time GroupRecord "StoredMessage list" MessageType bytes HLCTimestamp u64
  | OpAppend time string MessageType u64 HLCTimestamp bytes string
  | OpMarkApplied time string MessageType u64 bytes
  | OpMarkState string bytes ReplayEnvelopeState string time
  | OpMarkReplayed string bytes time
  | OpPrune int int

text \<open>The result tells the group and the hash of the envelope the call reports as applied now.\<close>

definition applied_key :: "string \<Rightarrow> bytes \<Rightarrow> error + (bool \<times> int) \<Rightarrow> (string \<times> bytes) option" where
  "applied_key gid h res = (case res of Inr (True, _) \<Rightarrow> Some (gid, h) | _ \<Rightarrow> None)"

fun db_exec :: "(bytes \<Rightarrow> bytes) \<Rightarrow> (peer_id \<Rightarrow> string) \<Rightarrow> db_op \<Rightarrow> DB \<Rightarrow> (string \<times> bytes) option \<times> DB" where
  "db_exec sha ps (OpSaveGroup rec) db = (None, snd (SaveGroupRecord rec db))"
| "db_exec sha ps (OpSaveMessage msg) db = (None, snd (SaveMessage ps msg db))"
| "db_exec sha ps (OpApplyCommit now rec mt env ts e) db =
    (let (res, db') = ApplyCommit sha now rec mt env ts e db
     in (applied_key (gr_GroupID rec) (sha env) res, db'))"
| "db_exec sha ps (OpApplyApplication now rec msg mt env ts e) db =
    (let (res, _, db') = ApplyApplication sha ps now rec msg mt env ts e db
     in (applied_key (gr_GroupID rec) (sha env) res, db'))"
| "db_exec sha ps (OpApplyBatched now rec msgs mt env ts e) db =
    (let (res, db') = ApplyBatchedApplication sha ps now rec msgs mt env ts e db
     in (applied_key (gr_GroupID rec) (sha env) res, db'))"
| "db_exec sha ps (OpAppend now gid mt e ts env src) db =
    (None, snd (AppendEnvelopeWithSource sha now gid mt e ts env src db))"
| "db_exec sha ps (OpMarkApplied now gid mt e h) db = (None, snd (MarkEnvelopeApplied now gid mt e h db))"
| "db_exec sha ps (OpMarkState gid h s err now) db = (None, snd (MarkEnvelopeReplayState gid h s err now db))"
| "db_exec sha ps (OpMarkReplayed gid h now) db = (None, snd (MarkMessageReplayed gid h now db))"
| "db_exec sha ps (OpPrune cutoff m) db = (None, snd (PruneEnvelopes cutoff m db))"

fun run_steps :: "('c \<Rightarrow> 's \<Rightarrow> 'k \<times> 's) \<Rightarrow> 'c list \<Rightarrow> 's \<Rightarrow> 'k list \<times> 's" where
  "run_steps step [] s = ([], s)"
| "run_steps step (c # cs) s =
    (let (k, s1) = step c s; (ks, s2) = run_steps step cs s1 in (k # ks, s2))"

definition db_run ::
  "(bytes \<Rightarrow> bytes) \<Rightarrow> (peer_id \<Rightarrow> string) \<Rightarrow> db_op list \<Rightarrow> DB \<Rightarrow> (string \<times> bytes) option list \<times> DB" where
  "db_run sha ps = run_steps (db_exec sha ps)"

lemma run_steps_Cons:
  "fst (run_steps step (c # cs) s) = fst (step c s) # fst (run_steps step cs (snd (step c s)))"
  "snd (run_steps step (c # cs) s) = snd (run_steps step cs (snd (step c s)))"
  by (simp_all add: Let_def split_beta)

lemma storage_ok_replayed:
  assumes ok: "storage_ok db"
    and same: "\<And>r. ms_group_id (f r) = ms_group_id r \<and> ms_envelope_hash (f r) = ms_envelope_hash r"
  shows "storage_ok (db\<lparr>db_messages := map f (db_messages db)\<rparr>)"
proof -
  have "message_keys (db\<lparr>db_messages := map f (db_messages db)\<rparr>) = message_keys db"
    by (simp add: message_keys_def filter_map o_def same)
  then show ?thesis
    using storage_okD [OF ok] by (intro storage_okI) (simp_all add: log_keys_def log_positions_def)
qed

lemma storage_ok_apply_tx:
  assumes "storage_ok db" and "\<And>d. storage_ok d \<Longrightarrow> storage_ok (save d)"
  shows "storage_ok (snd (apply_tx sha now rec save mt env ts e db))"
proof (cases rule: apply_tx_cases [of sha now rec save mt env ts e db])
  case (commit seq db')
  have "storage_ok (snd (appendEnvelopeTx sha now (gr_GroupID rec) mt e ts env
      (markEnvelopeAppliedTx now (gr_GroupID rec) mt (gr_Epoch rec) (sha env)
        (save (upsert_group rec (unfaulted db))))))"
    using assms by (intro storage_ok_append storage_ok_mark_tx assms(2) storage_ok_upsert) simp
  with commit show ?thesis by simp
qed (use assms in simp_all)

text \<open>Each applying call is either rejected before its transaction or that transaction.\<close>

lemma ApplyCommit_shape:
  "(\<exists>err. ApplyCommit sha now rec mt env ts e db = (Inl err, db)) \<or>
   ApplyCommit sha now rec mt env ts e db = apply_tx sha now rec (\<lambda>d. d) mt env ts e db"
proof (cases "gr_GroupID rec = '''' \<or> env = []")
  case True
  then show ?thesis by (auto simp: ApplyCommit_def)
next
  case False
  then show ?thesis by (simp add: ApplyCommit_apply_tx)
qed

lemma ApplyApplication_shape:
  "(\<exists>err. ApplyApplication sha ps now rec msg mt env ts e db = (Inl err, msg, db)) \<or>
   (fst (ApplyApplication sha ps now rec msg mt env ts e db),
    snd (snd (ApplyApplication sha ps now rec msg mt env ts e db))) =
     apply_tx sha now rec (saveMessageTx ps (stamped_message (sha env) msg)) mt env ts e db"
proof (cases "gr_GroupID rec = '''' \<or> sm_GroupID msg = '''' \<or> env = []")
  case True
  then show ?thesis by (auto simp: ApplyApplication_def)
next
  case False
  then show ?thesis by (simp add: ApplyApplication_apply_tx Let_def split_beta)
qed

lemma ApplyBatched_shape:
  "(\<exists>err. ApplyBatchedApplication sha ps now rec msgs mt env ts e db = (Inl err, db)) \<or>
   ApplyBatchedApplication sha ps now rec msgs mt env ts e db =
     apply_tx sha now rec (fold (\<lambda>msg. saveMessageTx ps (stamped_message (sha env) msg)) msgs) mt env ts e db"
proof (cases "gr_GroupID rec = '''' \<or> msgs = [] \<or> env = []")
  case True
  then show ?thesis by (auto simp: ApplyBatchedApplication_def)
next
  case False
  then show ?thesis by (simp add: ApplyBatchedApplication_apply_tx)
qed

text \<open>A predicate the transaction and the other calls keep is kept by every step.\<close>

lemma db_exec_apply_cases:
  assumes "P db None" and "\<And>save rec now mt env ts e. (\<And>d. storage_ok d \<Longrightarrow> storage_ok (save d)) \<Longrightarrow>
      (\<And>d. db_applied (save d) = db_applied d) \<Longrightarrow>
      P (snd (apply_tx sha now rec save mt env ts e db))
        (applied_key (gr_GroupID rec) (sha env) (fst (apply_tx sha now rec save mt env ts e db)))"
  shows "P (snd (db_exec sha ps (OpApplyCommit now rec mt env ts e) db))
           (fst (db_exec sha ps (OpApplyCommit now rec mt env ts e) db))"
    and "P (snd (db_exec sha ps (OpApplyApplication now rec msg mt env ts e) db))
           (fst (db_exec sha ps (OpApplyApplication now rec msg mt env ts e) db))"
    and "P (snd (db_exec sha ps (OpApplyBatched now rec msgs mt env ts e) db))
           (fst (db_exec sha ps (OpApplyBatched now rec msgs mt env ts e) db))"
proof -
  show "P (snd (db_exec sha ps (OpApplyCommit now rec mt env ts e) db))
           (fst (db_exec sha ps (OpApplyCommit now rec mt env ts e) db))"
    using ApplyCommit_shape [of sha now rec mt env ts e db] assms(1) assms(2) [of "\<lambda>d. d" now rec mt env ts e]
    by (auto simp: Let_def split_beta applied_key_def)
  have "P (snd (snd (ApplyApplication sha ps now rec msg mt env ts e db)))
     (applied_key (gr_GroupID rec) (sha env) (fst (ApplyApplication sha ps now rec msg mt env ts e db)))"
    using ApplyApplication_shape [of sha ps now rec msg mt env ts e db] assms(1)
      assms(2) [of "saveMessageTx ps (stamped_message (sha env) msg)" now rec mt env ts e]
    by (auto simp: applied_key_def saveMessageTx_def storage_ok_insert_message dest!: sym [of _ "apply_tx _ _ _ _ _ _ _ _ _"])
  then show "P (snd (db_exec sha ps (OpApplyApplication now rec msg mt env ts e) db))
           (fst (db_exec sha ps (OpApplyApplication now rec msg mt env ts e) db))"
    by (simp add: Let_def split_beta)
  show "P (snd (db_exec sha ps (OpApplyBatched now rec msgs mt env ts e) db))
           (fst (db_exec sha ps (OpApplyBatched now rec msgs mt env ts e) db))"
    using ApplyBatched_shape [of sha ps now rec msgs mt env ts e db] assms(1)
      assms(2) [of "fold (\<lambda>msg. saveMessageTx ps (stamped_message (sha env) msg)) msgs" now rec mt env ts e]
    by (auto simp: Let_def split_beta applied_key_def storage_ok_fold_messages)
qed

lemma storage_ok_db_exec:
  assumes "storage_ok db"
  shows "storage_ok (snd (db_exec sha ps c db))"
proof -
  note applies = db_exec_apply_cases [of "\<lambda>d _. storage_ok d", OF assms storage_ok_apply_tx [OF assms]]
  show ?thesis
proof (cases c)
  case (OpSaveGroup rec)
  then show ?thesis
    using storage_ok_with_io [of "\<lambda>db. (Inr (), upsert_group rec db)" db] assms
    by (auto simp: SaveGroupRecord_def storage_ok_upsert split: sum.splits)
next
  case (OpSaveMessage msg)
  then show ?thesis
    using assms by (auto simp: SaveMessage_def intro!: storage_ok_with_io storage_ok_insert_message)
next
  case (OpAppend now gid mt e ts env src)
  then show ?thesis
    using assms by (auto simp: AppendEnvelopeWithSource_def Let_def intro!: storage_ok_with_io storage_ok_insert_log)
next
  case (OpMarkApplied now gid mt e h)
  then show ?thesis
    using assms by (auto simp: MarkEnvelopeApplied_def intro!: storage_ok_with_io storage_ok_mark_tx)
next
  case (OpMarkState gid h s err now)
  then show ?thesis
    using assms by (auto simp: MarkEnvelopeReplayState_def intro!: storage_ok_with_io storage_ok_mark_state)
next
  case (OpMarkReplayed gid h now)
  then show ?thesis
    using assms by (auto simp: MarkMessageReplayed_def intro!: storage_ok_with_io storage_ok_replayed)
next
  case (OpPrune cutoff m)
  then show ?thesis using assms by (simp add: storage_ok_PruneEnvelopes)
qed (simp_all only: applies)
qed

lemma storage_ok_db_run: "storage_ok db \<Longrightarrow> storage_ok (snd (db_run sha256 pidString cs db))"
proof (induction cs arbitrary: db)
  case (Cons c cs)
  have "storage_ok (snd (db_exec sha256 pidString c db))"
    using Cons.prems by (rule storage_ok_db_exec)
  from Cons.IH [OF this] show ?case
    unfolding db_run_def run_steps_Cons by simp
qed (simp add: db_run_def)

text \<open>
  C29: every sequence of calls on the storage, whatever faults it meets, keeps the storage invariant:
  unique keys, positive and distinct sequence numbers within a group, every logged envelope known to
  the deduplication table, at most one stored message per envelope.
\<close>

theorem storage_invariant:
  assumes "storage_ok db"
  shows "storage_ok (snd (db_run sha256 pidString cs db))"
  by (rule storage_ok_db_run [OF assms])

section \<open>Exactly-once application\<close>

text \<open>
  What a caller relies on when it applies envelopes: a step that reports a key as applied found it
  unmarked and leaves it marked, and no step unmarks a key. Then no key is reported twice.
\<close>

locale exactly_once =
  fixes step :: "'c \<Rightarrow> 's \<Rightarrow> 'k option \<times> 's" and marked :: "'s \<Rightarrow> 'k \<Rightarrow> bool"
  assumes reported: "fst (step c s) = Some k \<Longrightarrow> \<not> marked s k \<and> marked (snd (step c s)) k"
    and kept: "marked s k \<Longrightarrow> marked (snd (step c s)) k"
begin

lemma marked_never_reported: "marked s k \<Longrightarrow> Some k \<notin> set (fst (run_steps step cs s))"
proof (induction cs arbitrary: s)
  case (Cons c cs)
  have "Some k \<notin> set (fst (run_steps step cs (snd (step c s))))"
    by (rule Cons.IH [OF kept [OF Cons.prems]])
  moreover have "fst (step c s) \<noteq> Some k"
    using reported Cons.prems by blast
  ultimately show ?case unfolding run_steps_Cons by simp
qed simp

lemma reported_once: "count_list (fst (run_steps step cs s)) (Some k) \<le> 1"
proof (induction cs arbitrary: s)
  case (Cons c cs)
  let ?rest = "fst (run_steps step cs (snd (step c s)))"
  show ?case
  proof (cases "fst (step c s) = Some k")
    case True
    then have "Some k \<notin> set ?rest"
      using marked_never_reported reported by blast
    then show ?thesis unfolding run_steps_Cons by simp
  next
    case False
    then show ?thesis using Cons.IH unfolding run_steps_Cons by simp
  qed
qed simp

lemma reported_marked: "Some k \<in> set (fst (run_steps step cs s)) \<Longrightarrow> marked (snd (run_steps step cs s)) k"
proof -
  have stay: "marked s k \<Longrightarrow> marked (snd (run_steps step cs s)) k" for s cs
    by (induction cs arbitrary: s) (simp_all only: run_steps_Cons run_steps.simps(1) snd_conv kept)
  show "Some k \<in> set (fst (run_steps step cs s)) \<Longrightarrow> marked (snd (run_steps step cs s)) k"
  proof (induction cs arbitrary: s)
    case (Cons c cs)
    then show ?case
      using reported [of c s k] stay unfolding run_steps_Cons by auto
  qed simp
qed

end

text \<open>The mark of an envelope is its row in the table of applied envelopes.\<close>

definition applied_mark :: "DB \<Rightarrow> string \<times> bytes \<Rightarrow> bool" where
  "applied_mark db k \<longleftrightarrow> ghas (db_applied db) k"

lemma applied_mark_with_io:
  assumes "\<And>d. applied_mark d k \<Longrightarrow> applied_mark (snd (f d)) k" and "applied_mark db k"
  shows "applied_mark (snd (with_io f db)) k"
proof (rule with_io_cases [of f db])
  assume "with_io f db = f (unfaulted db)"
  then show ?thesis using assms by (simp add: applied_mark_def)
qed (use assms in \<open>simp add: applied_mark_def\<close>)

lemma applied_apply_tx:
  assumes "\<And>d. db_applied (save d) = db_applied d"
  shows "applied_mark (snd (apply_tx sha now rec save mt env ts e db)) k \<longleftrightarrow>
      applied_mark db k \<or> applied_key (gr_GroupID rec) (sha env) (fst (apply_tx sha now rec save mt env ts e db)) = Some k"
    and "applied_key (gr_GroupID rec) (sha env) (fst (apply_tx sha now rec save mt env ts e db)) = Some k
      \<Longrightarrow> \<not> applied_mark db k"
  by (cases rule: apply_tx_cases [of sha now rec save mt env ts e db];
      auto simp: applied_mark_def applied_key_def assms dest!: arg_cong [of "appendEnvelopeTx _ _ _ _ _ _ _ _" _ snd])+

lemma applied_mark_update [simp]:
  "applied_mark (db\<lparr>db_log := l\<rparr>) k = applied_mark db k"
  "applied_mark (db\<lparr>db_messages := ms\<rparr>) k = applied_mark db k"
  "applied_mark (db\<lparr>db_dedup := dd\<rparr>) k = applied_mark db k"
  "applied_mark (unfaulted db) k = applied_mark db k"
  by (simp_all add: applied_mark_def)

lemma applied_mark_delete_oldest [simp]: "applied_mark (delete_oldest gid db) k = applied_mark db k"
  by (simp add: delete_oldest_def split: list.splits)

lemma applied_mark_prune_cap [simp]: "applied_mark (snd (prune_cap n gid m db)) k = applied_mark db k"
proof (induction n arbitrary: m db)
  case (Suc n)
  then show ?case by (simp add: with_io_def)
qed simp

lemma applied_mark_prune_groups [simp]: "applied_mark (snd (prune_groups m gids r db)) k = applied_mark db k"
proof (induction gids arbitrary: r db)
  case (Cons gid gids)
  obtain res db2 where p: "prune_cap (nat (int (length (group_rows gid (unfaulted db))) - m)) gid r (unfaulted db)
      = (res, db2)" by fastforce
  have "applied_mark db2 k = applied_mark db k"
    using applied_mark_prune_cap [of _ gid r "unfaulted db" k] p by (metis applied_mark_update(4) snd_conv)
  then show ?case using Cons p by (auto simp: with_io_def split: prod.splits option.splits)
qed simp

lemma applied_mark_PruneEnvelopes: "applied_mark (snd (PruneEnvelopes cutoff m db)) k = applied_mark db k"
  by (simp add: PruneEnvelopes_def with_io_def delete_before_def delete_dedup_before_def Let_def)

lemma applied_mark_kept:
  assumes "applied_mark db k"
  shows "applied_mark (snd (db_exec sha ps c db)) k"
proof -
  have "applied_mark (snd (apply_tx sha now rec save mt env ts e db)) k"
    if "\<And>d. storage_ok d \<Longrightarrow> storage_ok (save d)" "\<And>d. db_applied (save d) = db_applied d"
    for save rec now mt env ts e
    using applied_apply_tx(1) [of save, OF that(2)] assms by blast
  note applies = db_exec_apply_cases [of "\<lambda>d _. applied_mark d k", OF assms this]
  show ?thesis
  proof (cases c)
    case (OpSaveGroup rec)
    then show ?thesis
      using applied_mark_with_io [of k "\<lambda>db. (Inr (), upsert_group rec db)"] assms
      by (auto simp: SaveGroupRecord_def applied_mark_def split: sum.splits)
  next
    case (OpPrune cutoff m)
    then show ?thesis using assms by (simp add: applied_mark_PruneEnvelopes)
  next
    case (OpMarkReplayed gid h now)
    then show ?thesis
      using assms by (auto simp: MarkMessageReplayed_def intro!: applied_mark_with_io)
  qed (simp_all only: applies, use assms in \<open>auto simp: SaveMessage_def AppendEnvelopeWithSource_def
      MarkEnvelopeApplied_def MarkEnvelopeReplayState_def Let_def applied_mark_def
      intro!: applied_mark_with_io [unfolded applied_mark_def]\<close>)
qed

lemma applied_reported:
  assumes "fst (db_exec sha ps c db) = Some k"
  shows "\<not> applied_mark db k \<and> applied_mark (snd (db_exec sha ps c db)) k"
proof -
  have "applied_key (gr_GroupID rec) (sha env) (fst (apply_tx sha now rec save mt env ts e db)) = Some k \<longrightarrow>
      \<not> applied_mark db k \<and> applied_mark (snd (apply_tx sha now rec save mt env ts e db)) k"
    if "\<And>d. storage_ok d \<Longrightarrow> storage_ok (save d)" "\<And>d. db_applied (save d) = db_applied d"
    for save rec now mt env ts e
    using applied_apply_tx [of save, OF that(2)] by blast
  note steps = this
  define Q where "Q = (\<lambda>d r. r = Some k \<longrightarrow> \<not> applied_mark db k \<and> applied_mark d k)"
  have none: "Q db None" by (simp add: Q_def)
  have "Q (snd (apply_tx sha now rec save mt env ts e db))
      (applied_key (gr_GroupID rec) (sha env) (fst (apply_tx sha now rec save mt env ts e db)))"
    if "\<And>d. storage_ok d \<Longrightarrow> storage_ok (save d)" "\<And>d. db_applied (save d) = db_applied d"
    for save rec now mt env ts e
    unfolding Q_def by (rule steps [OF that])
  note applies = db_exec_apply_cases [of Q, OF none this]
  have "Q (snd (db_exec sha ps c db)) (fst (db_exec sha ps c db))"
  proof (cases c)
    case (OpApplyCommit now rec mt env ts e)
    then show ?thesis by (simp only: applies)
  next
    case (OpApplyApplication now rec msg mt env ts e)
    then show ?thesis by (simp only: applies)
  next
    case (OpApplyBatched now rec msgs mt env ts e)
    then show ?thesis by (simp only: applies)
  qed (use assms in simp_all)
  with assms show ?thesis by (simp add: Q_def)
qed

interpretation eo: exactly_once "db_exec sha256 pidString" applied_mark for sha256 pidString
  by unfold_locales (simp_all add: applied_reported applied_mark_kept)

text \<open>
  C7: an envelope is applied at most once. In every sequence of storage calls, whatever faults occur
  and however the log is pruned in between, at most one call reports the envelope of a given group and
  hash as applied; none does when it was applied before, and one that does leaves it marked to the end.
\<close>

theorem envelope_applied_at_most_once:
  "count_list (fst (db_run sha256 pidString cs db)) (Some k) \<le> 1 \<and>
   (ghas (db_applied db) k \<longrightarrow> Some k \<notin> set (fst (db_run sha256 pidString cs db))) \<and>
   (Some k \<in> set (fst (db_run sha256 pidString cs db)) \<longrightarrow>
      ghas (db_applied (snd (db_run sha256 pidString cs db))) k)"
  using eo.reported_once [of sha256 pidString cs db k]
    eo.marked_never_reported [of db k sha256 pidString cs]
    eo.reported_marked [of k sha256 pidString cs db]
  unfolding db_run_def applied_mark_def by blast

section \<open>Acknowledged sequence numbers\<close>

definition acked :: "DB \<Rightarrow> string \<Rightarrow> string \<Rightarrow> int" where
  "acked db p gid = (case gget (db_sync_acks db) (p, gid) of None \<Rightarrow> 0 | Some (a, _) \<Rightarrow> a)"

lemma GetSyncAck_calm: "calm (Suc n) db \<Longrightarrow> GetSyncAck p gid db = (Inr (acked db p gid), unfaulted db)"
  unfolding GetSyncAck_def
  by (subst with_io_calm, assumption) (simp add: acked_def unfaulted_def)

lemma acked_unfaulted [simp]: "acked (unfaulted db) p gid = acked db p gid"
  by (simp add: acked_def unfaulted_def)

lemma min_acked_loop_spec:
  assumes "calm (length ps) db" and "\<forall>p \<in> set ps. 0 \<le> acked db p gid" and "0 \<le> m"
  shows "fst (min_acked_loop gid ps m db) = Inr (Min (insert m ((\<lambda>p. acked db p gid) ` set ps)))"
  using assms
proof (induction ps arbitrary: m db)
  case (Cons p ps)
  let ?m = "if acked db p gid < m then acked db p gid else m"
  have "?m = min m (acked db p gid)" by (simp add: min_def)
  moreover have "fst (min_acked_loop gid ps ?m (unfaulted db)) =
      Inr (Min (insert ?m ((\<lambda>p. acked db p gid) ` set ps)))"
    using Cons.IH [of "unfaulted db" ?m] Cons.prems calm_unfaulted [of "length ps" db] by simp
  moreover have "calm (Suc (length ps)) db" using Cons.prems(1) by simp
  ultimately show ?case
    using Cons.prems(3) by (simp add: GetSyncAck_calm [of "length ps"] insert_commute [of _ m] Min_insert min.assoc)
      (cases "ps = []"; simp add: min.assoc)
qed simp

text \<open>
  Acknowledgements never go back. \<^verbatim>\<open>RecordSyncAck\<close> raises the acknowledged sequence number of its
  peer and group to the larger of the old and the new one and leaves every other one alone, and
  \<^verbatim>\<open>GetMinAckedSeq\<close> returns the least acknowledged number of the given peers.
\<close>

theorem sync_acks_spec:
  assumes "True \<notin> set (db_faults db)" and "peers \<noteq> []" and "\<forall>p \<in> set peers. 0 \<le> acked db p gid"
    and "0 \<le> seq"
  shows "fst (GetMinAckedSeq gid peers db) = Inr (Min ((\<lambda>p. acked db p gid) ` set peers)) \<and>
    (\<forall>q g. acked (snd (RecordSyncAck now p gid seq db)) q g =
       (if q = p \<and> g = gid then max (acked db p gid) seq else acked db q g))"
proof -
  obtain q qs where peers: "peers = q # qs" using assms(2) by (cases peers) auto
  have "calm (length qs) (unfaulted db)"
    using assms(1) by (simp add: calm_all faultless_unfaulted)
  then have "fst (GetMinAckedSeq gid peers db) = Inr (Min ((\<lambda>p. acked db p gid) ` set peers))"
    using min_acked_loop_spec [of qs "unfaulted db" gid "acked db q gid"] assms(1,3)
    by (simp add: GetMinAckedSeq_def peers GetSyncAck_calm [OF calm_all])
  moreover have "acked (snd (RecordSyncAck now p gid seq db)) r g =
      (if r = p \<and> g = gid then max (acked db p gid) seq else acked db r g)" for r g
    unfolding RecordSyncAck_def with_io_calm [OF calm_all [OF assms(1)]]
    using assms(4) by (auto simp: acked_def unfaulted_def split: option.splits)
  ultimately show ?thesis by blast
qed

section \<open>A small log\<close>

definition sample_ops :: "db_op list" where
  "sample_ops =
    [OpAppend 1000000000 ''g1'' MsgApplication 1 (HLCTimestamp 5 0 ''p1'') [1] ''local'',
     OpAppend 2000000000 ''g1'' MsgApplication 1 (HLCTimestamp 6 0 ''p1'') [2] ''live'',
     OpApplyApplication 3000000000 sample_group sample_message MsgApplication [2] (HLCTimestamp 6 0 ''p1'') 1,
     OpApplyApplication 3000000000 sample_group sample_message MsgApplication [2] (HLCTimestamp 6 0 ''p1'') 1,
     OpAppend 4000000000 ''g1'' MsgCommit 1 (HLCTimestamp 7 0 ''p2'') [3] ''local'']"

definition sample_log :: DB where
  "sample_log = snd (db_run (\<lambda>b. 1 # b) (\<lambda>p. p) sample_ops empty_db)"

lemma sample_log_ok: "storage_ok sample_log"
  unfolding sample_log_def by (rule storage_ok_db_run [OF storage_ok_empty])

lemma sample_log_faults: "db_faults sample_log = []"
  by code_simp

lemma sample_log_calm: "calm n sample_log"
  by (simp add: calm_def sample_log_faults)

theorem paged_read_complete_witness:
  "sorted_wrt (<) (map er_Seq (read_pages 2 ''g1'' 1 2 sample_log)) \<and>
   length (read_pages 2 ''g1'' 1 2 sample_log) = 2"
proof -
  have "length (group_rows ''g1'' sample_log) \<le> 2 * nat 2" by code_simp
  then have "sorted_wrt (<) (map er_Seq (read_pages 2 ''g1'' 1 2 sample_log))"
    using paged_read_complete [OF sample_log_ok, of 2 2 "''g1''" 1] sample_log_calm by simp
  moreover have "length (read_pages 2 ''g1'' 1 2 sample_log) = 2" by code_simp
  ultimately show ?thesis by simp
qed

theorem prune_envelopes_spec_witness:
  "case PruneEnvelopes 2 1 sample_log of ((removed, err), db') \<Rightarrow>
     err = None \<and> removed = 2 \<and> length (group_rows ''g1'' db') = 1"
proof -
  obtain removed err db' where call: "PruneEnvelopes 2 1 sample_log = ((removed, err), db')"
    by (metis prod.collapse)
  have "length (filter (\<lambda>r. 2 \<le> lr_created_at r) (group_rows ''g1'' sample_log)) = 2" by code_simp
  moreover have "fst (fst (PruneEnvelopes 2 1 sample_log)) = 2" by code_simp
  ultimately show ?thesis
    using prune_envelopes_spec [OF sample_log_ok _ _ call] sample_log_faults call by simp
qed

theorem storage_invariant_witness:
  "storage_ok (snd (db_run (\<lambda>b. 1 # b) (\<lambda>p. p) sample_ops empty_db))"
  by (rule storage_invariant [OF storage_ok_empty])

theorem envelope_applied_at_most_once_witness:
  "fst (db_run (\<lambda>b. 1 # b) (\<lambda>p. p) sample_ops empty_db) = [None, None, Some (''g1'', [1, 2]), None, None] \<and>
   ghas (db_applied sample_log) (''g1'', [1, 2])"
proof -
  have r: "fst (db_run (\<lambda>b. 1 # b) (\<lambda>p. p) sample_ops empty_db) = [None, None, Some (''g1'', [1, 2]), None, None]"
    by code_simp
  then show ?thesis
    using envelope_applied_at_most_once [of "\<lambda>b. 1 # b" "\<lambda>p. p" sample_ops empty_db "(''g1'', [1, 2])"]
    by (simp add: sample_log_def)
qed

theorem sync_acks_spec_witness:
  "fst (GetMinAckedSeq ''g1'' [''p1'', ''p2''] empty_db) = Inr 0 \<and>
   acked (snd (RecordSyncAck 0 ''p1'' ''g1'' 4 empty_db)) ''p1'' ''g1'' = 4"
  using sync_acks_spec [of empty_db "[''p1'', ''p2'']" "''g1''" 4 0 "''p1''"]
  by (simp add: empty_db_def acked_def)

end
