(* ===== verification/MessageStore.thy ===== *)
theory MessageStore
  imports OfflineStore
begin

text \<open>
  Reading stored messages, \<^verbatim>\<open>adapter/store/coordination_storage.go\<close>: the queries by time, by owner and by
  page, posts and comments, and the resolution of replayed messages to the message they stem from.
  What SQLite's JSON functions read out of a message's content is a parameter.
\<close>

section \<open>Queries\<close>

definition sql_page :: "int \<Rightarrow> int \<Rightarrow> 'a list \<Rightarrow> 'a list" where
  "sql_page limit offset xs = sql_limit limit (drop (nat offset) xs)"

definition newest_first :: "message_row list \<Rightarrow> message_row list" where
  "newest_first rows = SliceStable (\<lambda>a b. ms_hlc a > ms_hlc b) rows"

definition scan_message :: "(string \<Rightarrow> peer_id option) \<Rightarrow> message_row \<times> int \<Rightarrow> StoredMessage" where
  "scan_message pidDecode = (\<lambda>(r, comments).
    \<lparr>sm_MessageID = hex (ms_envelope_hash r), sm_GroupID = ms_group_id r, sm_Epoch = ms_epoch r,
     sm_SenderID = (case pidDecode (ms_sender_id r) of Some pid \<Rightarrow> pid | None \<Rightarrow> ms_sender_id r),
     sm_Content = ms_content r, sm_Timestamp = ms_hlc r, sm_LocalEchoToken = '''',
     sm_EnvelopeHash = ms_envelope_hash r, sm_CommentCount = comments, sm_ReplayedAt = ms_replayed_at r,
     sm_SupersedesMessageID = ''''\<rparr>)"

definition scanMessages ::
  "(string \<Rightarrow> peer_id option) \<Rightarrow> (message_row \<times> int) list \<Rightarrow> error + StoredMessage list" where
  "scanMessages pidDecode rows =
    (if list_ex (\<lambda>(r, _). ms_envelope_hash r = []) rows
     then Inl (ErrMsg ''scanMessages: missing envelope_hash'')
     else Inr (map (scan_message pidDecode) rows))"

definition no_comments :: "message_row list \<Rightarrow> (message_row \<times> int) list" where
  "no_comments rows = map (\<lambda>r. (r, 0)) rows"

definition GetMessagesByOwnerInRange ::
  "(string \<Rightarrow> peer_id option) \<Rightarrow> string \<Rightarrow> string \<Rightarrow> int \<Rightarrow> int \<Rightarrow> DB \<Rightarrow> (error + StoredMessage list) \<times> DB" where
  "GetMessagesByOwnerInRange pidDecode groupID senderID startMs endMs = with_io (\<lambda>db.
    (scanMessages pidDecode (no_comments (order_by ms_hlc (filter (\<lambda>r. ms_group_id r = groupID \<and>
       ms_sender_id r = senderID \<and> WallTimeMs (ms_hlc r) \<ge> startMs \<and> WallTimeMs (ms_hlc r) \<le> endMs)
       (db_messages db)))), db))"

definition GetMessagesSince ::
  "(string \<Rightarrow> peer_id option) \<Rightarrow> string \<Rightarrow> HLCTimestamp \<Rightarrow> DB \<Rightarrow> (error + StoredMessage list) \<times> DB" where
  "GetMessagesSince pidDecode groupID after = with_io (\<lambda>db.
    (scanMessages pidDecode (no_comments (order_by ms_hlc
       (filter (\<lambda>r. ms_group_id r = groupID \<and> ms_hlc r > after) (db_messages db)))), db))"

definition GetMessagesPaginated ::
  "(string \<Rightarrow> peer_id option) \<Rightarrow> string \<Rightarrow> int \<Rightarrow> int \<Rightarrow> DB \<Rightarrow> (error + StoredMessage list) \<times> DB" where
  "GetMessagesPaginated pidDecode groupID limit offset = with_io (\<lambda>db.
    (scanMessages pidDecode (no_comments (sql_page limit offset
       (newest_first (filter (\<lambda>r. ms_group_id r = groupID) (db_messages db))))), db))"

text \<open>The fields of a message's content, when it is valid JSON.\<close>

record content_fields =
  cf_type :: "string option"
  cf_post_id :: "string option"
  cf_parent_id :: "string option"

definition is_comment_on :: "(bytes \<Rightarrow> content_fields option) \<Rightarrow> string \<Rightarrow> message_row \<Rightarrow> bool" where
  "is_comment_on json postID r \<longleftrightarrow>
    (case json (ms_content r) of
       None \<Rightarrow> False
     | Some f \<Rightarrow> cf_type f \<in> {Some ''comment'', Some ''reply''} \<and>
         (cf_post_id f = Some postID \<or> cf_parent_id f = Some postID))"

definition is_post :: "(bytes \<Rightarrow> content_fields option) \<Rightarrow> message_row \<Rightarrow> bool" where
  "is_post json r \<longleftrightarrow> (case json (ms_content r) of None \<Rightarrow> False | Some f \<Rightarrow> cf_type f = Some ''post'')"

definition GetPostsPaginated ::
  "(string \<Rightarrow> peer_id option) \<Rightarrow> (bytes \<Rightarrow> content_fields option) \<Rightarrow> string \<Rightarrow> int \<Rightarrow> int \<Rightarrow> DB
    \<Rightarrow> (error + StoredMessage list) \<times> DB" where
  "GetPostsPaginated pidDecode json groupID limit offset = with_io (\<lambda>db.
    (scanMessages pidDecode (map (\<lambda>m. (m, int (length (filter (\<lambda>c. ms_group_id c = ms_group_id m \<and>
         is_comment_on json (hex (ms_envelope_hash m)) c) (db_messages db)))))
       (sql_page limit offset (newest_first
         (filter (\<lambda>m. ms_group_id m = groupID \<and> is_post json m) (db_messages db))))), db))"

definition GetCommentsPaginated ::
  "(string \<Rightarrow> peer_id option) \<Rightarrow> (bytes \<Rightarrow> content_fields option) \<Rightarrow> string \<Rightarrow> string \<Rightarrow> int \<Rightarrow> int \<Rightarrow> DB
    \<Rightarrow> (error + StoredMessage list) \<times> DB" where
  "GetCommentsPaginated pidDecode json groupID postID limit offset = with_io (\<lambda>db.
    (scanMessages pidDecode (no_comments (sql_page limit offset (newest_first
       (filter (\<lambda>r. ms_group_id r = groupID \<and> is_comment_on json postID r) (db_messages db))))), db))"

section \<open>Replayed messages\<close>

definition to_lower :: "char \<Rightarrow> char" where
  "to_lower c = (let n = (of_char c :: nat) in if 65 \<le> n \<and> n \<le> 90 then char_of (n + 32) else c)"

definition ToLower :: "string \<Rightarrow> string" where
  "ToLower s = map to_lower s"

definition isCanonicalMessageID :: "string \<Rightarrow> bool" where
  "isCanonicalMessageID messageID \<longleftrightarrow>
    (let s = TrimSpace messageID in length s = 64 \<and> list_all (\<lambda>c. hex_value c \<noteq> None) s)"

definition replay_parents :: "string \<Rightarrow> DB \<Rightarrow> (string, string) gomap" where
  "replay_parents groupID db = fold (\<lambda>e m. gput (hex (ae_ReplayedEnvelopeHash e)) (hex (ae_EnvelopeHash e)) m)
    (filter (\<lambda>e. ae_GroupID e = groupID \<and> ae_ReplayedEnvelopeHash e \<noteq> [] \<and> ae_EnvelopeHash e \<noteq> [])
      (db_events db)) []"

text \<open>The walk from a replayed message to its root; \<^verbatim>\<open>seen\<close> holds the messages passed.\<close>

function resolve_walk :: "(string, string) gomap \<Rightarrow> string list \<Rightarrow> string \<Rightarrow> string \<Rightarrow> string \<Rightarrow> string" where
  "resolve_walk parents seen current root firstParent =
    (case gget parents current of
       None \<Rightarrow> root
     | Some parent \<Rightarrow>
        if parent = '''' then root
        else
          let firstParent' = (if firstParent = '''' then parent else firstParent) in
          if current \<in> set seen then (if firstParent' \<noteq> '''' then firstParent' else root)
          else resolve_walk parents (current # seen) parent parent firstParent')"
  by pat_completeness auto
termination
proof (relation "measure (\<lambda>(parents, seen, current, _, _). card (set (gkeys parents) - set seen))", goal_cases)
  case 1
  then show ?case by simp
next
  case (2 parents seen current root firstParent parent firstParent')
  then have "current \<in> set (gkeys parents) - set seen"
    by (simp add: set_gkeys ghas_def)
  moreover have "set (gkeys parents) - set (current # seen) = set (gkeys parents) - set seen - {current}"
    by auto
  ultimately show ?case
    by (simp only: in_measure prod.case) (intro card_Diff1_less; simp)
qed

declare resolve_walk.simps [simp del]

definition canonical_ids :: "string list \<Rightarrow> string list" where
  "canonical_ids ids = map (\<lambda>i. ToLower (TrimSpace i)) (filter (\<lambda>i. isCanonicalMessageID (TrimSpace i)) ids)"

definition resolve_links :: "(string, string) gomap \<Rightarrow> string list \<Rightarrow> (string, string) gomap" where
  "resolve_links parents ids = fold (\<lambda>i links.
     (let root = resolve_walk parents [] i i '''' in if root \<noteq> i then gput i root links else links)) ids []"

definition ResolveReplayCanonicalOriginalMessageIDs ::
  "string \<Rightarrow> string list \<Rightarrow> DB \<Rightarrow> (error + (string, string) gomap) \<times> DB" where
  "ResolveReplayCanonicalOriginalMessageIDs groupID replayedMessageIDs db =
    (if TrimSpace groupID = '''' \<or> replayedMessageIDs = [] \<or> canonical_ids replayedMessageIDs = []
     then (Inr [], db)
     else with_io (\<lambda>db.
       (Inr (resolve_links (replay_parents groupID db) (canonical_ids replayedMessageIDs)), db)) db)"

section \<open>Message order\<close>

interpretation desc: weak_order "\<lambda>a b. key a > (key b :: 'b::linorder)" for key
  by unfold_locales auto

lemma newest_first_sorted: "sorted_wrt (\<lambda>a b. ms_hlc a \<ge> ms_hlc b) (newest_first rows)"
  using desc.sorted_SliceStable [of ms_hlc rows] by (simp add: newest_first_def not_less)

lemma concat_pages: "concat (map (\<lambda>i. take k (drop (i * k) xs)) [0..<n]) = take (n * k) xs"
  by (induction n) (simp_all add: take_add [symmetric] add.commute)

lemma scanMessages_ok:
  assumes "\<forall>(r, _) \<in> set rows. ms_envelope_hash r \<noteq> []"
  shows "scanMessages pd rows = Inr (map (scan_message pd) rows)"
  using assms by (auto simp: scanMessages_def list_ex_iff)

text \<open>The rows of one page, as the paginated query returns them.\<close>

definition message_page :: "(string \<Rightarrow> peer_id option) \<Rightarrow> string \<Rightarrow> nat \<Rightarrow> DB \<Rightarrow> nat \<Rightarrow> StoredMessage list" where
  "message_page pd gid k db i =
    (case fst (GetMessagesPaginated pd gid (int k) (int (i * k)) db) of Inr ms \<Rightarrow> ms | Inl _ \<Rightarrow> [])"

text \<open>
  The pages of a conversation cover it. With every stored message carrying its envelope hash, the
  pages of size k in order are the conversation, newest first, and the messages after a timestamp are
  exactly the later ones in ascending order.
\<close>

theorem message_pages_cover:
  assumes "calm 1 db" and "\<forall>r \<in> set (db_messages db). ms_envelope_hash r \<noteq> []"
    and "length (filter (\<lambda>r. ms_group_id r = gid) (db_messages db)) \<le> n * k"
  shows "let pages = concat (map (message_page pidDecode gid k db) [0..<n]) in
    sorted_wrt (\<lambda>a b. sm_Timestamp a \<ge> sm_Timestamp b) pages \<and>
    mset pages = image_mset (\<lambda>r. scan_message pidDecode (r, 0))
      (mset (filter (\<lambda>r. ms_group_id r = gid) (db_messages db))) \<and>
    (\<exists>later. fst (GetMessagesSince pidDecode gid after db) = Inr later \<and>
       sorted_wrt (\<le>) (map sm_Timestamp later) \<and>
       set later = (\<lambda>r. scan_message pidDecode (r, 0)) `
         {r \<in> set (db_messages db). ms_group_id r = gid \<and> after < ms_hlc r})"
proof -
  let ?rows = "filter (\<lambda>r. ms_group_id r = gid) (db_messages db)"
  let ?scan = "\<lambda>r. scan_message pidDecode (r, 0)"
  have c: "calm (Suc 0) db" using assms(1) by simp
  have hash: "scanMessages pidDecode (no_comments xs) = Inr (map ?scan xs)" if "set xs \<subseteq> set (db_messages db)" for xs
  proof -
    have "\<forall>(r, _) \<in> set (no_comments xs). ms_envelope_hash r \<noteq> []"
      using that assms(2) by (auto simp: no_comments_def)
    from scanMessages_ok [OF this] show ?thesis by (simp add: no_comments_def)
  qed
  have page: "message_page pidDecode gid k db i = map ?scan (take k (drop (i * k) (newest_first ?rows)))" for i
  proof -
    have "fst (GetMessagesPaginated pidDecode gid (int k) (int (i * k)) db) =
        scanMessages pidDecode (no_comments (take k (drop (i * k) (newest_first ?rows))))"
      unfolding GetMessagesPaginated_def
      by (subst with_io_calm [OF c]) (simp add: sql_page_def sql_limit_def flip: of_nat_mult)
    also have "\<dots> = Inr (map ?scan (take k (drop (i * k) (newest_first ?rows))))"
      by (rule hash) (use set_take_subset set_drop_subset in \<open>fastforce simp: newest_first_def dest: in_set_takeD in_set_dropD\<close>)
    finally show ?thesis by (simp add: message_page_def)
  qed
  have "concat (map (message_page pidDecode gid k db) [0..<n]) =
      map ?scan (concat (map (\<lambda>i. take k (drop (i * k) (newest_first ?rows))) [0..<n]))"
    unfolding page by (simp add: map_concat o_def)
  also have "\<dots> = map ?scan (newest_first ?rows)"
    using assms(3) by (simp add: concat_pages newest_first_def)
  finally have pages: "concat (map (message_page pidDecode gid k db) [0..<n]) = map ?scan (newest_first ?rows)" .
  have srt: "sorted_wrt (\<lambda>a b. sm_Timestamp a \<ge> sm_Timestamp b) (map ?scan (newest_first ?rows))"
    using newest_first_sorted [of ?rows] by (simp add: sorted_wrt_map scan_message_def)
  let ?later = "order_by ms_hlc (filter (\<lambda>r. ms_group_id r = gid \<and> ms_hlc r > after) (db_messages db))"
  have "fst (GetMessagesSince pidDecode gid after db) = scanMessages pidDecode (no_comments ?later)"
    unfolding GetMessagesSince_def by (subst with_io_calm [OF c]) simp
  also have "\<dots> = Inr (map ?scan ?later)" by (rule hash) auto
  finally have since: "fst (GetMessagesSince pidDecode gid after db) = Inr (map ?scan ?later)" .
  moreover have "sorted_wrt (\<le>) (map sm_Timestamp (map ?scan ?later))"
    using order_by_sorted [of ms_hlc "filter (\<lambda>r. ms_group_id r = gid \<and> ms_hlc r > after) (db_messages db)"]
    by (simp add: scan_message_def o_def)
  moreover have "set (map ?scan ?later) = ?scan ` {r \<in> set (db_messages db). ms_group_id r = gid \<and> after < ms_hlc r}"
    by auto
  ultimately show ?thesis
    using srt unfolding Let_def pages by (intro conjI exI [of _ "map ?scan ?later"]) (simp_all add: newest_first_def)
qed

section \<open>Resolution of replayed messages\<close>

fun follow :: "(string, string) gomap \<Rightarrow> nat \<Rightarrow> string \<Rightarrow> string option" where
  "follow parents 0 x = Some x"
| "follow parents (Suc n) x = (case gget parents x of None \<Rightarrow> None | Some y \<Rightarrow> follow parents n y)"

lemma follow_add:
  "follow parents (m + n) x = (case follow parents m x of None \<Rightarrow> None | Some y \<Rightarrow> follow parents n y)"
  by (induction m arbitrary: x) (auto split: option.splits)

lemma follow_cycle:
  assumes "follow parents (Suc k) c = Some c"
  shows "follow parents n c \<noteq> None"
proof
  assume "follow parents n c = None"
  have turns: "follow parents (Suc k * j) c = Some c" for j
  proof (induction j)
    case (Suc j)
    then show ?case by (simp only: mult_Suc_right follow_add assms option.case)
  qed simp
  have "n + k * n = Suc k * n" by simp
  then have "follow parents (n + k * n) c = Some c" using turns [of n] by metis
  with \<open>follow parents n c = None\<close> show False by (simp add: follow_add)
qed

lemma resolve_walk_ends:
  assumes "follow parents m current = Some x" "gget parents x = None"
    and "\<And>k v. gget parents k = Some v \<Longrightarrow> v \<noteq> ''''"
    and "\<And>s. s \<in> set seen \<Longrightarrow> \<exists>k. follow parents (Suc k) s = Some current"
  shows "resolve_walk parents seen current current fp = x"
  using assms
proof (induction m arbitrary: seen current fp)
  case 0
  then show ?case by (subst resolve_walk.simps) simp
next
  case (Suc m)
  then obtain y where y: "gget parents current = Some y" "follow parents m y = Some x"
    by (auto split: option.splits)
  have fresh: "current \<notin> set seen"
  proof
    assume "current \<in> set seen"
    then obtain k where "follow parents (Suc k) current = Some current" using Suc.prems(4) by blast
    from follow_cycle [OF this, of "Suc m + 1"] show False
      using Suc.prems(1,2) by (simp only: follow_add) simp
  qed
  have reach: "\<exists>k. follow parents (Suc k) s = Some y" if "s \<in> set (current # seen)" for s
  proof (cases "s = current")
    case True
    then show ?thesis using y by (intro exI [of _ 0]) simp
  next
    case False
    with that obtain k where "follow parents (Suc k) s = Some current" using Suc.prems(4) by auto
    then have "follow parents (Suc k + 1) s = Some y" using y(1) by (simp only: follow_add) simp
    then show ?thesis by (intro exI [of _ "Suc k"]) simp
  qed
  have "resolve_walk parents (current # seen) y y fp' = x" for fp'
    by (rule Suc.IH [OF y(2) Suc.prems(2)]) (use Suc.prems(3) reach in blast)+
  then show ?case
    using y(1) fresh Suc.prems(3) [OF y(1)] by (subst resolve_walk.simps) (simp add: Let_def)
qed

lemma resolve_walk_cycle:
  assumes "\<And>n. follow parents n current \<noteq> None"
    and "\<And>k v. gget parents k = Some v \<Longrightarrow> v \<noteq> ''''"
  shows "Some (resolve_walk parents seen current root fp) = (if fp = '''' then gget parents current else Some fp)"
  using assms
proof (induction parents seen current root fp rule: resolve_walk.induct)
  case (1 parents seen current root fp)
  obtain y where y: "gget parents current = Some y"
    using 1(2) [of 1] by (auto split: option.splits)
  have ne: "y \<noteq> ''''" using 1(3) y .
  have rest: "follow parents n y \<noteq> None" for n
    using 1(2) [of "Suc n"] y by simp
  show ?case
  proof (cases "current \<in> set seen")
    case True
    then show ?thesis using y ne by (subst resolve_walk.simps) simp
  next
    case False
    have "Some (resolve_walk parents (current # seen) y y (if fp = '''' then y else fp)) =
        (if (if fp = '''' then y else fp) = '''' then gget parents y else Some (if fp = '''' then y else fp))"
      by (rule 1(1)) (use y ne False rest 1(3) in auto)
    then show ?thesis using y ne False by (subst resolve_walk.simps) (auto simp: Let_def)
  qed
qed

lemma hex_not_Nil: "bs \<noteq> [] \<Longrightarrow> hex bs \<noteq> []"
  by (cases bs) (simp_all add: hex_def hex_byte_def)

lemma replay_parents_nonempty: "gget (replay_parents gid db) k = Some v \<Longrightarrow> v \<noteq> ''''"
proof -
  have "(\<forall>e \<in> set es. ae_EnvelopeHash e \<noteq> []) \<Longrightarrow> (\<And>k v. gget m k = Some v \<Longrightarrow> v \<noteq> '''') \<Longrightarrow>
      gget (fold (\<lambda>e m. gput (hex (ae_ReplayedEnvelopeHash e)) (hex (ae_EnvelopeHash e)) m) es m) k = Some v \<Longrightarrow>
      v \<noteq> ''''" for es m k v
  proof (induction es arbitrary: m)
    case (Cons e es)
    show ?case
      by (rule Cons.IH [OF _ _ Cons.prems(3) [unfolded fold_simps]])
        (use Cons.prems(1,2) hex_not_Nil in \<open>auto split: if_splits\<close>)
  qed auto
  then show "gget (replay_parents gid db) k = Some v \<Longrightarrow> v \<noteq> ''''"
    unfolding replay_parents_def by (metis (mono_tags, lifting) filter_set gget_empty mem_Collect_eq option.distinct(1) set_filter)
qed

lemma gget_resolve_links:
  "gget (resolve_links parents ids) i =
    (let root = resolve_walk parents [] i i '''' in if i \<in> set ids \<and> root \<noteq> i then Some root else None)"
proof -
  have "gget (fold (\<lambda>i links. (let root = resolve_walk parents [] i i '''' in
        if root \<noteq> i then gput i root links else links)) ids m) i =
      (let root = resolve_walk parents [] i i '''' in if i \<in> set ids \<and> root \<noteq> i then Some root else gget m i)" for m
    by (induction ids arbitrary: m) (auto simp: Let_def)
  from this [of "[]"] show ?thesis by (simp add: resolve_links_def Let_def)
qed

text \<open>
  A replayed message is traced to the message it stems from. Following the recorded replays from
  one of the requested identifiers, the link leads to the end of the chain, whatever its length; a
  message that no replay recorded gets no link; and when the records form a cycle the walk still ends
  and the link is the first parent.
\<close>

theorem replay_links_resolved:
  assumes "calm 1 db" and "TrimSpace gid \<noteq> ''''" and "i \<in> set (canonical_ids ids)"
  shows "\<exists>links. fst (ResolveReplayCanonicalOriginalMessageIDs gid ids db) = Inr links \<and>
    (\<forall>n root. follow (replay_parents gid db) n i = Some root \<longrightarrow> gget (replay_parents gid db) root = None \<longrightarrow>
       gget links i = (if root = i then None else Some root)) \<and>
    ((\<forall>n. follow (replay_parents gid db) n i \<noteq> None) \<longrightarrow>
       gget links i = (if gget (replay_parents gid db) i = Some i then None else gget (replay_parents gid db) i))"
proof -
  let ?p = "replay_parents gid db"
  let ?links = "resolve_links ?p (canonical_ids ids)"
  have ne2: "canonical_ids ids \<noteq> []" using assms(3) by (metis empty_iff empty_set)
  then have ne1: "ids \<noteq> []" by (auto simp: canonical_ids_def)
  note ne = ne1 ne2
  have c: "calm (Suc 0) db" using assms(1) by simp
  have p: "replay_parents gid (unfaulted db) = ?p" by (simp add: replay_parents_def)
  have "fst (ResolveReplayCanonicalOriginalMessageIDs gid ids db) = Inr ?links"
    using ne assms(2) unfolding ResolveReplayCanonicalOriginalMessageIDs_def
    by (subst with_io_calm [OF c]) (simp add: p)
  moreover have "gget ?links i = (if root = i then None else Some root)"
    if "follow ?p n i = Some root" "gget ?p root = None" for n root
    using resolve_walk_ends [OF that, of "[]" "''''"] replay_parents_nonempty assms(3)
    by (auto simp: gget_resolve_links Let_def)
  moreover have "gget ?links i = (if gget ?p i = Some i then None else gget ?p i)"
    if "\<forall>n. follow ?p n i \<noteq> None"
  proof -
    have "Some (resolve_walk ?p [] i i '''') = gget ?p i"
      using resolve_walk_cycle [of ?p i "[]" i "''''"] replay_parents_nonempty that by auto
    then show ?thesis using assms(3) by (auto simp: gget_resolve_links Let_def)
  qed
  ultimately show ?thesis by blast
qed

text \<open>The identifier of a stored message, the hexadecimal hash of its envelope, is canonical.\<close>

lemma hex_chars: "c \<in> set (hex bs) \<Longrightarrow> \<exists>n < 16. c = hex_digit n"
proof -
  have lt: "unat b div 16 < 16" "unat b mod 16 < 16" for b :: byte
    using unsigned_less [of b, where 'a = nat] by (simp_all add: less_mult_imp_div_less)
  assume "c \<in> set (hex bs)"
  then have "\<exists>b \<in> set bs. c = hex_digit (unat b div 16) \<or> c = hex_digit (unat b mod 16)"
    by (simp add: hex_def hex_byte_def)
  then show ?thesis using lt by blast
qed

lemma length_hex: "length (hex bs) = 2 * length bs"
  by (induction bs) (simp_all add: hex_def hex_byte_def)

lemma TrimSpace_id: "(\<And>c. c \<in> set s \<Longrightarrow> \<not> is_space c) \<Longrightarrow> TrimSpace s = s"
proof -
  assume "\<And>c. c \<in> set s \<Longrightarrow> \<not> is_space c"
  then have "dropWhile is_space s = s" "dropWhile is_space (rev s) = rev s"
    by (auto simp: dropWhile_eq_self_iff hd_rev intro: hd_in_set last_in_set)
  then show ?thesis by (simp add: TrimSpace_def)
qed

lemma canonical_hex: "length bs = 32 \<Longrightarrow> canonical_ids [hex bs] = [hex bs]"
proof -
  assume len: "length bs = 32"
  have digit: "\<not> is_space c \<and> to_lower c = c \<and> hex_value c \<noteq> None" if "c \<in> set (hex bs)" for c
  proof -
    obtain n where n: "n < 16" "c = hex_digit n" using hex_chars [OF \<open>c \<in> set (hex bs)\<close>] by blast
    then show ?thesis
      using of_char_hex_digit [of n] by (simp add: is_space_def to_lower_def Let_def)
  qed
  then have "TrimSpace (hex bs) = hex bs" "ToLower (hex bs) = hex bs"
    by (auto intro: TrimSpace_id map_idI simp: ToLower_def)
  then show ?thesis
    using digit len by (auto simp: canonical_ids_def isCanonicalMessageID_def length_hex list_all_iff)
qed

section \<open>Samples\<close>

definition sample_event :: "byte \<Rightarrow> byte \<Rightarrow> ApplicationEvent" where
  "sample_event orig replayed = \<lparr>ae_EventID = [char_of (unat replayed)], ae_JobID = ''j'', ae_GroupID = ''g1'',
     ae_OriginalBranchID = '''', ae_OriginalEpoch = 1, ae_AuthorID = ''p1'', ae_EnvelopeHash = replicate 32 orig,
     ae_PayloadSealed = [], ae_PayloadHash = [], ae_SealKeyID = '''', ae_SealNonce = [], ae_HlcWallTimeMs = 0,
     ae_HlcCounter = 0, ae_HlcNodeID = '''', ae_Status = ''REPLAYED'', ae_ReplayOperationID = '''',
     ae_ReplayedEnvelopeHash = replicate 32 replayed, ae_ReplayedAtMs = 0, ae_ReplayAttemptCount = 0,
     ae_LastError = '''', ae_CreatedAtMs = 0, ae_UpdatedAtMs = 0\<rparr>"

definition sample_replays :: DB where
  "sample_replays = empty_db\<lparr>db_events := [sample_event 1 2, sample_event 2 3]\<rparr>"

theorem message_pages_cover_witness:
  "length (filter (\<lambda>r. ms_group_id r = ''g1'') (db_messages sample_log)) = 1 \<and>
   sorted_wrt (\<lambda>a b. sm_Timestamp a \<ge> sm_Timestamp b)
     (concat (map (message_page Some ''g1'' 1 sample_log) [0..<2]))"
proof -
  have l: "length (filter (\<lambda>r. ms_group_id r = ''g1'') (db_messages sample_log)) = 1" by code_simp
  have "list_all (\<lambda>r. ms_envelope_hash r \<noteq> []) (db_messages sample_log)" by code_simp
  then have h: "\<forall>r \<in> set (db_messages sample_log). ms_envelope_hash r \<noteq> []" by (simp add: list_all_iff)
  from message_pages_cover [OF sample_log_calm h, of "''g1''" 2 1 Some] l show ?thesis
    by (simp add: Let_def)
qed

theorem replay_links_resolved_witness:
  "\<exists>links. fst (ResolveReplayCanonicalOriginalMessageIDs ''g1'' [hex (replicate 32 3)] sample_replays) = Inr links \<and>
     gget links (hex (replicate 32 3)) = Some (hex (replicate 32 1))"
proof -
  have c: "calm 1 sample_replays" by (simp add: calm_def sample_replays_def empty_db_def)
  have g: "TrimSpace ''g1'' \<noteq> ''''" by code_simp
  have i: "hex (replicate 32 3) \<in> set (canonical_ids [hex (replicate 32 3)])" by (simp add: canonical_hex)
  have p: "replay_parents ''g1'' sample_replays =
      [(hex (replicate 32 2), hex (replicate 32 1)), (hex (replicate 32 3), hex (replicate 32 2))]"
    by (simp add: replay_parents_def sample_replays_def sample_event_def empty_db_def gput_def)
  have f: "follow (replay_parents ''g1'' sample_replays) 2 (hex (replicate 32 3)) = Some (hex (replicate 32 1))"
    "gget (replay_parents ''g1'' sample_replays) (hex (replicate 32 1)) = None"
    unfolding p by (simp_all add: gget_Cons numeral_2_eq_2)
  have d: "hex (replicate 32 (1 :: byte)) \<noteq> hex (replicate 32 3)" by simp
  from replay_links_resolved [OF c g i] f d show ?thesis by metis
qed

end
