(* ===== verification/JobStore.thy ===== *)
theory JobStore
  imports OfflineStore "HOL-Library.Product_Lexorder"
begin

text \<open>
  The tables behind membership operations and fork healing, \<^verbatim>\<open>adapter/store/coordination_storage.go\<close>:
  pending operations, healing jobs, captured application events, the outbound replay queue, and the
  healing history. Four tables share one shape, a primary key with an upsert and a partial unique
  index, which is a locale interpreted for each of them. Absent and empty byte strings are not told
  apart, so the \<^verbatim>\<open>NOT NULL\<close> constraints on blobs are not part of the model.
\<close>

section \<open>Rows with a primary key and a partial unique index\<close>

text \<open>\<^verbatim>\<open>INSERT ... ON CONFLICT(key) DO UPDATE\<close>; \<^verbatim>\<open>merge new old\<close> is the row the update leaves.\<close>

definition upsert_by :: "('r \<Rightarrow> 'k) \<Rightarrow> ('r \<Rightarrow> 'r \<Rightarrow> 'r) \<Rightarrow> 'r \<Rightarrow> 'r list \<Rightarrow> 'r list" where
  "upsert_by key merge r rows =
    (if list_ex (\<lambda>q. key q = key r) rows
     then map (\<lambda>q. if key q = key r then merge r q else q) rows
     else rows @ [r])"

definition index_ok :: "('r \<Rightarrow> 'i option) \<Rightarrow> 'r list \<Rightarrow> bool" where
  "index_ok idx rows \<longleftrightarrow> distinct (map idx (filter (\<lambda>r. idx r \<noteq> None) rows))"

text \<open>The statement fails, and changes nothing, when the index would hold a value twice.\<close>

definition save_row :: "('r \<Rightarrow> 'k) \<Rightarrow> ('r \<Rightarrow> 'r \<Rightarrow> 'r) \<Rightarrow> ('r \<Rightarrow> 'i option) \<Rightarrow> 'r \<Rightarrow> 'r list \<Rightarrow> error + 'r list" where
  "save_row key merge idx r rows =
    (let rows' = upsert_by key merge r rows in if index_ok idx rows' then Inr rows' else Inl ErrDB)"

section \<open>Pending operations\<close>

definition op_stored :: "PendingOperation \<Rightarrow> PendingOperation" where
  "op_stored op = op\<lparr>
     po_IdempotencyKey := (case po_IdempotencyKey op of
        Some k \<Rightarrow> if k \<noteq> '''' then Some k else None | None \<Rightarrow> None),
     po_CreatedAt := Unix (po_CreatedAt op) * 1000000000,
     po_UpdatedAt := Unix (po_UpdatedAt op) * 1000000000\<rparr>"

definition op_merge :: "PendingOperation \<Rightarrow> PendingOperation \<Rightarrow> PendingOperation" where
  "op_merge new old = new\<lparr>po_CreatedAt := po_CreatedAt old\<rparr>"

definition op_index :: "PendingOperation \<Rightarrow> (string \<times> string) option" where
  "op_index op = (case po_IdempotencyKey op of
     None \<Rightarrow> None
   | Some k \<Rightarrow> if po_Status op \<in> {''PENDING'', ''PROPOSED''} then Some (po_GroupID op, k) else None)"

definition SavePendingOperation :: "PendingOperation \<Rightarrow> DB \<Rightarrow> (error + unit) \<times> DB" where
  "SavePendingOperation op = with_io (\<lambda>db.
    (case save_row po_OperationID op_merge op_index (op_stored op) (db_ops db) of
       Inl err \<Rightarrow> (Inl err, db)
     | Inr rows \<Rightarrow> (Inr (), db\<lparr>db_ops := rows\<rparr>)))"

definition GetPendingOperation :: "string \<Rightarrow> DB \<Rightarrow> (error + PendingOperation) \<times> DB" where
  "GetPendingOperation opID = with_io (\<lambda>db.
    (case find (\<lambda>r. po_OperationID r = opID) (db_ops db) of
       None \<Rightarrow> Inl ErrNoRows
     | Some op \<Rightarrow> Inr op, db))"

definition ListPendingOperations :: "string \<Rightarrow> DB \<Rightarrow> (error + PendingOperation list) \<times> DB" where
  "ListPendingOperations groupID = with_io (\<lambda>db.
    (Inr (order_by po_CreatedAt (filter (\<lambda>r. po_GroupID r = groupID) (db_ops db))), db))"

text \<open>Several finished operations may carry the key; SQLite returns the first row it meets.\<close>

definition GetPendingOperationByIdempotencyKey :: "string \<Rightarrow> string \<Rightarrow> DB \<Rightarrow> (error + PendingOperation) \<times> DB" where
  "GetPendingOperationByIdempotencyKey groupID idempotencyKey = with_io (\<lambda>db.
    (case find (\<lambda>r. po_GroupID r = groupID \<and> po_IdempotencyKey r = Some idempotencyKey) (db_ops db) of
       None \<Rightarrow> Inl ErrNoRows
     | Some op \<Rightarrow> Inr op, db))"

definition DeletePendingOperation :: "string \<Rightarrow> DB \<Rightarrow> (error + unit) \<times> DB" where
  "DeletePendingOperation opID = with_io (\<lambda>db.
    (Inr (), db\<lparr>db_ops := filter (\<lambda>r. po_OperationID r \<noteq> opID) (db_ops db)\<rparr>))"

section \<open>Healing jobs\<close>

text \<open>The table has no column for the private part of the pending bundle.\<close>

definition job_stored :: "ForkHealingJob \<Rightarrow> ForkHealingJob" where
  "job_stored job = job\<lparr>fj_PendingBundlePrivate := []\<rparr>"

definition job_merge :: "ForkHealingJob \<Rightarrow> ForkHealingJob \<Rightarrow> ForkHealingJob" where
  "job_merge new old = new\<lparr>fj_CreatedAtMs := fj_CreatedAtMs old\<rparr>"

definition job_active :: "ForkHealingJob \<Rightarrow> bool" where
  "job_active job \<longleftrightarrow> fj_Status job \<notin> {''CLEANED'', ''FAILED_TERMINAL''}"

definition job_index :: "ForkHealingJob \<Rightarrow> string option" where
  "job_index job = (if job_active job then Some (fj_GroupID job) else None)"

definition SaveForkHealingJob :: "ForkHealingJob \<Rightarrow> DB \<Rightarrow> (error + unit) \<times> DB" where
  "SaveForkHealingJob job = with_io (\<lambda>db.
    (case save_row fj_JobID job_merge job_index (job_stored job) (db_jobs db) of
       Inl err \<Rightarrow> (Inl err, db)
     | Inr rows \<Rightarrow> (Inr (), db\<lparr>db_jobs := rows\<rparr>)))"

definition GetActiveForkHealingJob :: "string \<Rightarrow> DB \<Rightarrow> (error + ForkHealingJob option) \<times> DB" where
  "GetActiveForkHealingJob groupID = with_io (\<lambda>db.
    (let rows = SliceStable (\<lambda>a b. fj_CreatedAtMs a > fj_CreatedAtMs b)
           (filter (\<lambda>r. fj_GroupID r = groupID \<and> job_active r) (db_jobs db))
     in (Inr (case rows of [] \<Rightarrow> None | r # _ \<Rightarrow> Some r), db)))"

definition GetForkHealingJobByID :: "string \<Rightarrow> DB \<Rightarrow> (error + ForkHealingJob option) \<times> DB" where
  "GetForkHealingJobByID jobID = with_io (\<lambda>db. (Inr (find (\<lambda>r. fj_JobID r = jobID) (db_jobs db)), db))"

definition DeleteForkHealingJob :: "string \<Rightarrow> DB \<Rightarrow> (error + unit) \<times> DB" where
  "DeleteForkHealingJob jobID = with_io (\<lambda>db.
    (Inr (), db\<lparr>db_jobs := filter (\<lambda>r. fj_JobID r \<noteq> jobID) (db_jobs db)\<rparr>))"

section \<open>Application events and outbound replays\<close>

definition event_merge :: "ApplicationEvent \<Rightarrow> ApplicationEvent \<Rightarrow> ApplicationEvent" where
  "event_merge new old = old\<lparr>ae_PayloadSealed := ae_PayloadSealed new, ae_Status := ae_Status new,
     ae_ReplayOperationID := ae_ReplayOperationID new, ae_ReplayedEnvelopeHash := ae_ReplayedEnvelopeHash new,
     ae_ReplayedAtMs := ae_ReplayedAtMs new, ae_ReplayAttemptCount := ae_ReplayAttemptCount new,
     ae_LastError := ae_LastError new, ae_UpdatedAtMs := ae_UpdatedAtMs new\<rparr>"

definition SaveApplicationEvent :: "ApplicationEvent \<Rightarrow> DB \<Rightarrow> (error + unit) \<times> DB" where
  "SaveApplicationEvent ev = with_io (\<lambda>db.
    (Inr (), db\<lparr>db_events := upsert_by ae_EventID event_merge ev (db_events db)\<rparr>))"

definition event_before :: "ApplicationEvent \<Rightarrow> ApplicationEvent \<Rightarrow> bool" where
  "event_before a b \<longleftrightarrow> ae_HlcWallTimeMs a < ae_HlcWallTimeMs b \<or>
     ae_HlcWallTimeMs a = ae_HlcWallTimeMs b \<and> ae_HlcCounter a < ae_HlcCounter b"

definition ListApplicationEvents :: "string \<Rightarrow> DB \<Rightarrow> (error + ApplicationEvent list) \<times> DB" where
  "ListApplicationEvents jobID = with_io (\<lambda>db.
    (Inr (SliceStable event_before (filter (\<lambda>r. ae_JobID r = jobID) (db_events db))), db))"

definition UpdateApplicationEventStatus :: "time \<Rightarrow> string \<Rightarrow> string \<Rightarrow> DB \<Rightarrow> (error + unit) \<times> DB" where
  "UpdateApplicationEventStatus now eventID status = with_io (\<lambda>db.
    (Inr (), db\<lparr>db_events := map (\<lambda>r. if ae_EventID r = eventID
       then r\<lparr>ae_Status := status, ae_UpdatedAtMs := UnixMilli now\<rparr> else r) (db_events db)\<rparr>))"

definition ClearSealedPayloads :: "string \<Rightarrow> DB \<Rightarrow> (error + unit) \<times> DB" where
  "ClearSealedPayloads jobID = with_io (\<lambda>db.
    (Inr (), db\<lparr>db_events := map (\<lambda>r.
       if ae_JobID r = jobID \<and> ae_Status r \<in> {''REPLAYED'', ''WAITING_AUTHOR_REPLAY'', ''UNRECOVERABLE''}
       then r\<lparr>ae_PayloadSealed := [], ae_SealNonce := [], ae_SealKeyID := ''''\<rparr> else r) (db_events db)\<rparr>))"

definition outbound_merge :: "OutboundReplay \<Rightarrow> OutboundReplay \<Rightarrow> OutboundReplay" where
  "outbound_merge new old = old\<lparr>or_Status := or_Status new, or_AttemptCount := or_AttemptCount new,
     or_UpdatedAtMs := or_UpdatedAtMs new\<rparr>"

definition SaveOutboundReplay :: "OutboundReplay \<Rightarrow> DB \<Rightarrow> (error + unit) \<times> DB" where
  "SaveOutboundReplay req = with_io (\<lambda>db.
    (Inr (), db\<lparr>db_outbound := upsert_by or_ReplayOperationID outbound_merge req (db_outbound db)\<rparr>))"

definition ListOutboundReplays :: "string \<Rightarrow> DB \<Rightarrow> (error + OutboundReplay list) \<times> DB" where
  "ListOutboundReplays jobID = with_io (\<lambda>db.
    (Inr (filter (\<lambda>r. or_JobID r = jobID) (db_outbound db)), db))"

definition DeleteOutboundReplaysForJob :: "string \<Rightarrow> DB \<Rightarrow> (error + unit) \<times> DB" where
  "DeleteOutboundReplaysForJob jobID = with_io (\<lambda>db.
    (Inr (), db\<lparr>db_outbound := filter (\<lambda>r. or_JobID r \<noteq> jobID) (db_outbound db)\<rparr>))"

section \<open>Healing history\<close>

definition forkHealRetentionDays :: int where "forkHealRetentionDays = 30"
definition forkHealMaxPerGroup :: int where "forkHealMaxPerGroup = 10"

text \<open>
  The pruning a recorded event starts in the background is a later, separate call of
  \<^verbatim>\<open>PruneForkHealHistory\<close> with the retention bounds.
\<close>

definition RecordForkHealEvent :: "time \<Rightarrow> ForkHealEventRecord \<Rightarrow> DB \<Rightarrow> (error + unit) \<times> DB" where
  "RecordForkHealEvent now event = with_io (\<lambda>db.
    (Inr (), db\<lparr>db_heal_events := db_heal_events db @ [(db_heal_next_id db, Unix now, event)],
                db_heal_next_id := db_heal_next_id db + 1\<rparr>))"

definition heal_prune_cutoff :: "time \<Rightarrow> int" where
  "heal_prune_cutoff now = Unix (now - forkHealRetentionDays * 24 * 3600 * 1000000000)"

definition RecordForkHealAudit :: "time \<Rightarrow> ForkHealAuditRecord \<Rightarrow> DB \<Rightarrow> (error + unit) \<times> DB" where
  "RecordForkHealAudit now audit = with_io (\<lambda>db.
    (Inr (), db\<lparr>db_heal_audit := db_heal_audit db @ [(Unix now, audit)]\<rparr>))"

definition ListForkHealEvents :: "string \<Rightarrow> int \<Rightarrow> DB \<Rightarrow> (error + ForkHealEventRecord list) \<times> DB" where
  "ListForkHealEvents groupID limit = with_io (\<lambda>db.
    (let n = (if limit \<le> 0 then 50 else limit);
         rows = (if groupID \<noteq> '''' then filter (\<lambda>(_, _, r). he_GroupID r = groupID) (db_heal_events db)
                 else db_heal_events db);
         sorted = SliceStable (\<lambda>(i, c, _) (j, d, _). c > d \<or> c = d \<and> i > j) rows
     in (Inr (map (\<lambda>(_, _, r). r) (sql_limit n sorted)), db)))"

definition ListForkHealAudit :: "string \<Rightarrow> DB \<Rightarrow> (error + ForkHealAuditRecord list) \<times> DB" where
  "ListForkHealAudit traceID = with_io (\<lambda>db.
    (Inr (filter (\<lambda>r. ha_TraceID r = traceID) (map snd (db_heal_audit db))), db))"

definition heal_oldest :: "(ForkHealEventRecord \<Rightarrow> bool) \<Rightarrow> DB \<Rightarrow> (int \<times> int \<times> ForkHealEventRecord) option" where
  "heal_oldest P db =
    (case order_by (\<lambda>(i, c, _). (c, i)) (filter (\<lambda>(_, _, r). P r) (db_heal_events db)) of
       [] \<Rightarrow> None
     | x # _ \<Rightarrow> Some x)"

definition delete_heal_event :: "string \<Rightarrow> string \<Rightarrow> DB \<Rightarrow> nat \<times> DB" where
  "delete_heal_event gid traceID db =
    (case heal_oldest (\<lambda>r. he_GroupID r = gid \<and> he_TraceID r = traceID) db of
       None \<Rightarrow> (0, db)
     | Some (i, _, _) \<Rightarrow>
        let rows = filter (\<lambda>(j, _, _). j \<noteq> i) (db_heal_events db)
        in (length (db_heal_events db) - length rows, db\<lparr>db_heal_events := rows\<rparr>))"

definition delete_heal_audit :: "string \<Rightarrow> string \<Rightarrow> DB \<Rightarrow> DB" where
  "delete_heal_audit gid traceID db =
    db\<lparr>db_heal_audit := filter (\<lambda>(_, a). \<not> (ha_GroupID a = gid \<and> ha_TraceID a = traceID)) (db_heal_audit db)\<rparr>"

definition heal_count :: "string \<Rightarrow> DB \<Rightarrow> nat" where
  "heal_count gid db = length (filter (\<lambda>(_, _, r). he_GroupID r = gid) (db_heal_events db))"

lemma heal_oldest_member: "heal_oldest P db = Some (i, c, r) \<Longrightarrow> (i, c, r) \<in> set (db_heal_events db) \<and> P r"
proof -
  assume h: "heal_oldest P db = Some (i, c, r)"
  let ?xs = "filter (\<lambda>(_, _, r). P r) (db_heal_events db)"
  obtain ys where "order_by (\<lambda>(i, c, _). (c, i)) ?xs = (i, c, r) # ys"
    using h by (auto simp: heal_oldest_def split: list.splits)
  then have "(i, c, r) \<in> set (order_by (\<lambda>(i, c, _). (c, i)) ?xs)" by simp
  then show ?thesis by simp
qed

lemma heal_oldest_None: "heal_oldest P db = None \<longleftrightarrow> (\<forall>(i, c, r) \<in> set (db_heal_events db). \<not> P r)"
proof -
  let ?xs = "filter (\<lambda>(_, _, r). P r) (db_heal_events db)"
  have "heal_oldest P db = None \<longleftrightarrow> order_by (\<lambda>(i, c, _). (c, i)) ?xs = []"
    by (simp add: heal_oldest_def split: list.splits)
  also have "\<dots> \<longleftrightarrow> ?xs = []" by (simp add: order_by_def)
  finally show ?thesis by (auto simp: filter_empty_conv)
qed

lemma delete_heal_event_decreases:
  assumes "(i, c, r) \<in> set (db_heal_events db)" "he_GroupID r = gid" "he_TraceID r = tr"
  shows "length (db_heal_events (snd (delete_heal_event gid tr db))) < length (db_heal_events db)"
proof -
  obtain j d q where o: "heal_oldest (\<lambda>r. he_GroupID r = gid \<and> he_TraceID r = tr) db = Some (j, d, q)"
    using assms heal_oldest_None [of "\<lambda>r. he_GroupID r = gid \<and> he_TraceID r = tr" db] by fastforce
  from heal_oldest_member [OF o] have "(j, d, q) \<in> set (db_heal_events db)" by simp
  then have "length (filter (\<lambda>(k, _, _). k \<noteq> j) (db_heal_events db)) < length (db_heal_events db)"
    by (intro length_filter_less) auto
  then show ?thesis using o by (simp add: delete_heal_event_def Let_def)
qed

lemma heal_events_unfaulted [simp]: "db_heal_events (unfaulted db) = db_heal_events db"
  by (simp add: unfaulted_def)

lemma with_io_Inr: "with_io f db = (Inr x, db') \<Longrightarrow> f (unfaulted db) = (Inr x, db')"
  by (simp add: with_io_def split: if_splits)

lemma prune_heal_round:
  assumes "(Inr cnt, db1) = with_io (\<lambda>db. (Inr (heal_count gid db), db)) db"
    and "(Inr (Some (i, c, ev)), db2) =
      with_io (\<lambda>db. (Inr (heal_oldest (\<lambda>r. he_GroupID r = gid) db), db)) db1"
    and "(Inr u, db3) = with_io (\<lambda>db. (Inr (), delete_heal_audit gid (he_TraceID ev) db)) db2"
    and "(Inr n, db4) =
      with_io (\<lambda>db. (let (n, db') = delete_heal_event gid (he_TraceID ev) db in (Inr n, db'))) db3"
  shows "length (db_heal_events db4) < length (db_heal_events db)"
proof -
  note eqs = assms [symmetric, THEN with_io_Inr]
  have e1: "db_heal_events db1 = db_heal_events db" using eqs(1) by auto
  have e2: "db_heal_events db2 = db_heal_events db"
    and o: "heal_oldest (\<lambda>r. he_GroupID r = gid) (unfaulted db1) = Some (i, c, ev)"
    using eqs(2) e1 by auto
  have e3: "db_heal_events db3 = db_heal_events db" using eqs(3) e2 by (auto simp: delete_heal_audit_def)
  have e4: "db4 = snd (delete_heal_event gid (he_TraceID ev) (unfaulted db3))"
    using eqs(4) by (auto simp: Let_def split: prod.splits)
  show ?thesis
    unfolding e4 using delete_heal_event_decreases [of i c ev "unfaulted db3"] heal_oldest_member [OF o] e1 e3 by simp
qed

text \<open>The loop counts the rows of the group again in every round.\<close>

function (sequential) prune_heal_group :: "int \<Rightarrow> string \<Rightarrow> int \<Rightarrow> DB \<Rightarrow> (int \<times> error option) \<times> DB" where
  "prune_heal_group maxPerGroup gid removed db =
    (case with_io (\<lambda>db. (Inr (heal_count gid db), db)) db of
       (Inl err, db1) \<Rightarrow> ((removed, Some err), db1)
     | (Inr cnt, db1) \<Rightarrow>
       if int cnt \<le> maxPerGroup then ((removed, None), db1)
       else case with_io (\<lambda>db. (Inr (heal_oldest (\<lambda>r. he_GroupID r = gid) db), db)) db1 of
           (Inl err, db2) \<Rightarrow> ((removed, Some err), db2)
         | (Inr None, db2) \<Rightarrow> ((removed, None), db2)
         | (Inr (Some (_, _, ev)), db2) \<Rightarrow>
           case with_io (\<lambda>db. (Inr (), delete_heal_audit gid (he_TraceID ev) db)) db2 of
               (Inl err, db3) \<Rightarrow> ((removed, Some err), db3)
             | (Inr _, db3) \<Rightarrow>
               case with_io (\<lambda>db. (let (n, db') = delete_heal_event gid (he_TraceID ev) db in (Inr n, db'))) db3 of
                   (Inl err, db4) \<Rightarrow> ((removed, Some err), db4)
                 | (Inr n, db4) \<Rightarrow> prune_heal_group maxPerGroup gid (removed + int n) db4)"
  by pat_completeness auto

termination
proof (relation "measure (\<lambda>(_, _, _, db). length (db_heal_events db))", goal_cases)
  case 1
  then show ?case by simp
next
  case 2
  then show ?case by (auto intro: prune_heal_round)
qed

declare prune_heal_group.simps [simp del]

fun prune_heal_groups :: "int \<Rightarrow> string list \<Rightarrow> int \<Rightarrow> DB \<Rightarrow> (int \<times> error option) \<times> DB" where
  "prune_heal_groups maxPerGroup [] removed db = ((removed, None), db)"
| "prune_heal_groups maxPerGroup (gid # gids) removed db =
    (case prune_heal_group maxPerGroup gid removed db of
       ((removed', Some err), db1) \<Rightarrow> ((removed', Some err), db1)
     | ((removed', None), db1) \<Rightarrow> prune_heal_groups maxPerGroup gids removed' db1)"

definition delete_audit_before :: "int \<Rightarrow> DB \<Rightarrow> DB" where
  "delete_audit_before c db = db\<lparr>db_heal_audit := filter (\<lambda>(at, _). \<not> at < c) (db_heal_audit db)\<rparr>"

definition delete_events_before :: "int \<Rightarrow> DB \<Rightarrow> DB" where
  "delete_events_before c db = db\<lparr>db_heal_events := filter (\<lambda>(_, at, _). \<not> at < c) (db_heal_events db)\<rparr>"

definition PruneForkHealHistory :: "int \<Rightarrow> int \<Rightarrow> DB \<Rightarrow> (int \<times> error option) \<times> DB" where
  "PruneForkHealHistory cutoffUnix maxPerGroup db =
    (case with_io (\<lambda>db. (Inr (length (db_heal_audit db) - length (db_heal_audit (delete_audit_before cutoffUnix db))),
                          delete_audit_before cutoffUnix db)) db of
       (Inl err, db1) \<Rightarrow> ((0, Some err), db1)
     | (Inr n, db1) \<Rightarrow>
       case with_io (\<lambda>db. (Inr (length (db_heal_events db) - length (db_heal_events (delete_events_before cutoffUnix db))),
                             delete_events_before cutoffUnix db)) db1 of
           (Inl err, db2) \<Rightarrow> ((int n, Some err), db2)
         | (Inr m, db2) \<Rightarrow>
           if maxPerGroup < 1 then ((int n + int m, None), db2)
           else case with_io (\<lambda>db. (Inr (remdups (map (\<lambda>(_, _, r). he_GroupID r) (db_heal_events db))), db)) db2 of
               (Inl err, db3) \<Rightarrow> ((int n + int m, Some err), db3)
             | (Inr gids, db3) \<Rightarrow> prune_heal_groups maxPerGroup gids (int n + int m) db3)"

section \<open>The keyed table interface\<close>

text \<open>
  What the callers rely on when they save a row: keys stay unique, a lookup finds the saved row merged
  with the one it replaced, and other rows are not touched.
\<close>

locale keyed_rows =
  fixes key :: "'r \<Rightarrow> 'k" and merge :: "'r \<Rightarrow> 'r \<Rightarrow> 'r"
  assumes merge_key: "key new = key old \<Longrightarrow> key (merge new old) = key old"
begin

lemma keys_upsert_old: "list_ex (\<lambda>q. key q = key r) rows \<Longrightarrow> map key (upsert_by key merge r rows) = map key rows"
  by (simp add: upsert_by_def merge_key)

lemma distinct_upsert: "distinct (map key rows) \<Longrightarrow> distinct (map key (upsert_by key merge r rows))"
  by (cases "list_ex (\<lambda>q. key q = key r) rows")
    (simp_all add: keys_upsert_old, auto simp: upsert_by_def list_ex_iff)

lemma find_map_merge:
  "find (\<lambda>q. key q = k) (map (\<lambda>q. if key q = key r then merge r q else q) rows) =
    (if k = key r then map_option (merge r) (find (\<lambda>q. key q = k) rows) else find (\<lambda>q. key q = k) rows)"
  by (induction rows) (auto simp: merge_key)

lemma find_upsert:
  "find (\<lambda>q. key q = k) (upsert_by key merge r rows) =
    (if k = key r then Some (case find (\<lambda>q. key q = k) rows of None \<Rightarrow> r | Some q \<Rightarrow> merge r q)
     else find (\<lambda>q. key q = k) rows)"
proof (cases "list_ex (\<lambda>q. key q = key r) rows")
  case True
  then have "find (\<lambda>q. key q = key r) rows \<noteq> None"
    by (auto simp: find_None_iff list_ex_iff)
  with True show ?thesis by (auto simp: upsert_by_def find_map_merge)
next
  case False
  then have "find (\<lambda>q. key q = key r) rows = None"
    by (auto simp: find_None_iff list_ex_iff)
  moreover have "find P (xs @ [r]) = (case find P xs of None \<Rightarrow> if P r then Some r else None | Some q \<Rightarrow> Some q)"
    for P xs by (induction xs) auto
  ultimately show ?thesis using False by (auto simp: upsert_by_def split: option.splits)
qed

lemma save_row_cases:
  assumes "distinct (map key rows)" and "index_ok idx rows"
  obtains (conflict) "save_row key merge idx r rows = Inl ErrDB" "\<not> index_ok idx (upsert_by key merge r rows)"
  | (saved) "save_row key merge idx r rows = Inr (upsert_by key merge r rows)"
      "distinct (map key (upsert_by key merge r rows))" "index_ok idx (upsert_by key merge r rows)"
  using assms distinct_upsert by (cases "index_ok idx (upsert_by key merge r rows)") (auto simp: save_row_def)

end

interpretation op_rows: keyed_rows po_OperationID op_merge
  by unfold_locales (simp add: op_merge_def)

interpretation job_rows: keyed_rows fj_JobID job_merge
  by unfold_locales (simp add: job_merge_def)

interpretation event_rows: keyed_rows ae_EventID event_merge
  by unfold_locales (simp add: event_merge_def)

interpretation outbound_rows: keyed_rows or_ReplayOperationID outbound_merge
  by unfold_locales (simp add: outbound_merge_def)

lemma index_ok_filter: "index_ok idx rows \<Longrightarrow> index_ok idx (filter P rows)"
proof -
  assume "index_ok idx rows"
  then have "distinct (map idx (filter P (filter (\<lambda>r. idx r \<noteq> None) rows)))"
    unfolding index_ok_def by (rule distinct_map_filter)
  then show ?thesis
    by (simp add: index_ok_def conj_commute)
qed

lemma index_ok_at_most_one:
  assumes "index_ok idx rows"
  shows "length (filter (\<lambda>r. idx r = Some i) rows) \<le> 1"
proof -
  have "distinct (map idx (filter (\<lambda>r. idx r = Some i) (filter (\<lambda>r. idx r \<noteq> None) rows)))"
    using assms unfolding index_ok_def by (rule distinct_map_filter)
  moreover have "map idx (filter (\<lambda>r. idx r = Some i) xs) = replicate (length (filter (\<lambda>r. idx r = Some i) xs)) (Some i)"
    for xs by (induction xs) simp_all
  moreover have "filter (\<lambda>r. idx r = Some i) (filter (\<lambda>r. idx r \<noteq> None) rows) = filter (\<lambda>r. idx r = Some i) rows"
    unfolding filter_filter by (rule filter_cong) auto
  moreover have "distinct (replicate n x) \<Longrightarrow> n \<le> 1" for n and x :: "'b option"
    by (cases n; cases "n - 1") auto
  ultimately show ?thesis by metis
qed

section \<open>The invariant of the job tables\<close>

definition jobs_ok :: "DB \<Rightarrow> bool" where
  "jobs_ok db \<longleftrightarrow>
     distinct (map po_OperationID (db_ops db)) \<and> index_ok op_index (db_ops db) \<and>
     distinct (map fj_JobID (db_jobs db)) \<and> index_ok job_index (db_jobs db) \<and>
     distinct (map ae_EventID (db_events db)) \<and> distinct (map or_ReplayOperationID (db_outbound db))"

datatype job_op =
    JSaveOp PendingOperation | JDeleteOp string
  | JSaveJob ForkHealingJob | JDeleteJob string
  | JSaveEvent ApplicationEvent | JEventStatus time string string | JClearSealed string
  | JSaveOutbound OutboundReplay | JDeleteOutbound string

fun job_exec :: "job_op \<Rightarrow> DB \<Rightarrow> (error + unit) \<times> DB" where
  "job_exec (JSaveOp op) db = SavePendingOperation op db"
| "job_exec (JDeleteOp i) db = DeletePendingOperation i db"
| "job_exec (JSaveJob job) db = SaveForkHealingJob job db"
| "job_exec (JDeleteJob i) db = DeleteForkHealingJob i db"
| "job_exec (JSaveEvent ev) db = SaveApplicationEvent ev db"
| "job_exec (JEventStatus now i st) db = UpdateApplicationEventStatus now i st db"
| "job_exec (JClearSealed i) db = ClearSealedPayloads i db"
| "job_exec (JSaveOutbound req) db = SaveOutboundReplay req db"
| "job_exec (JDeleteOutbound i) db = DeleteOutboundReplaysForJob i db"

lemma jobs_ok_unfaulted [simp]: "jobs_ok (unfaulted db) = jobs_ok db"
  by (simp add: jobs_ok_def unfaulted_def)

lemma jobs_ok_with_io:
  assumes "\<And>d. jobs_ok d \<Longrightarrow> jobs_ok (snd (f d))" and "jobs_ok db"
  shows "jobs_ok (snd (with_io f db))"
  by (rule with_io_cases [of f db]) (simp_all add: assms)

lemma jobs_ok_save_op:
  assumes "jobs_ok db"
  shows "jobs_ok (snd (case save_row po_OperationID op_merge op_index (op_stored op) (db_ops db) of
       Inl err \<Rightarrow> (Inl err, db) | Inr rows \<Rightarrow> (Inr (), db\<lparr>db_ops := rows\<rparr>)))"
proof (cases rule: op_rows.save_row_cases [of "db_ops db" op_index "op_stored op"])
qed (use assms in \<open>simp_all add: jobs_ok_def\<close>)

lemma jobs_ok_save_job:
  assumes "jobs_ok db"
  shows "jobs_ok (snd (case save_row fj_JobID job_merge job_index (job_stored job) (db_jobs db) of
       Inl err \<Rightarrow> (Inl err, db) | Inr rows \<Rightarrow> (Inr (), db\<lparr>db_jobs := rows\<rparr>)))"
proof (cases rule: job_rows.save_row_cases [of "db_jobs db" job_index "job_stored job"])
qed (use assms in \<open>simp_all add: jobs_ok_def\<close>)

lemma jobs_ok_exec:
  assumes "jobs_ok db"
  shows "jobs_ok (snd (job_exec c db))"
proof (cases c)
  case (JSaveOp op)
  then show ?thesis unfolding JSaveOp job_exec.simps SavePendingOperation_def
    using assms by (intro jobs_ok_with_io jobs_ok_save_op)
next
  case (JSaveJob job)
  then show ?thesis unfolding JSaveJob job_exec.simps SaveForkHealingJob_def
    using assms by (intro jobs_ok_with_io jobs_ok_save_job)
next
  case (JEventStatus now i st)
  then show ?thesis unfolding JEventStatus job_exec.simps UpdateApplicationEventStatus_def
    using assms by (intro jobs_ok_with_io) (auto simp: jobs_ok_def o_def if_distrib [of ae_EventID] cong: if_cong)
next
  case (JClearSealed i)
  then show ?thesis unfolding JClearSealed job_exec.simps ClearSealedPayloads_def
    using assms by (intro jobs_ok_with_io) (auto simp: jobs_ok_def o_def if_distrib [of ae_EventID] cong: if_cong)
qed (use assms in \<open>auto simp: DeletePendingOperation_def DeleteForkHealingJob_def SaveApplicationEvent_def
      SaveOutboundReplay_def DeleteOutboundReplaysForJob_def jobs_ok_def distinct_map_filter index_ok_filter
      event_rows.distinct_upsert outbound_rows.distinct_upsert intro!: jobs_ok_with_io [unfolded jobs_ok_def]\<close>)

definition job_run :: "job_op list \<Rightarrow> DB \<Rightarrow> (error + unit) list \<times> DB" where
  "job_run = run_steps job_exec"

lemma jobs_ok_run: "jobs_ok db \<Longrightarrow> jobs_ok (snd (job_run cs db))"
proof (induction cs arbitrary: db)
  case (Cons c cs)
  from Cons.IH [OF jobs_ok_exec [OF Cons.prems, of c]] show ?case
    unfolding job_run_def run_steps_Cons by simp
qed (simp add: job_run_def)


text \<open>
  Saving a healing job and reading it back returns the job, with the creation time of the row it
  replaced and without the private part of the pending bundle, which the table does not store. When
  another active job of the group exists, saving an active job fails and changes no table.
\<close>

theorem healing_job_roundtrip:
  assumes "calm 2 db"
  shows "if index_ok job_index (upsert_by fj_JobID job_merge (job_stored job) (db_jobs db))
    then fst (SaveForkHealingJob job db) = Inr () \<and>
      fst (GetForkHealingJobByID (fj_JobID job) (snd (SaveForkHealingJob job db))) =
        Inr (Some (job\<lparr>fj_PendingBundlePrivate := [],
          fj_CreatedAtMs := (case find (\<lambda>r. fj_JobID r = fj_JobID job) (db_jobs db) of
             None \<Rightarrow> fj_CreatedAtMs job | Some r \<Rightarrow> fj_CreatedAtMs r)\<rparr>))
    else SaveForkHealingJob job db = (Inl ErrDB, unfaulted db)"
proof -
  have c: "calm (Suc (Suc 0)) db" using assms by (simp add: numeral_2_eq_2)
  let ?rows = "upsert_by fj_JobID job_merge (job_stored job) (db_jobs db)"
  have s: "SaveForkHealingJob job db = (if index_ok job_index ?rows
      then (Inr (), (unfaulted db)\<lparr>db_jobs := ?rows\<rparr>) else (Inl ErrDB, unfaulted db))"
    unfolding SaveForkHealingJob_def by (subst with_io_calm [OF c]) (simp add: save_row_def Let_def)
  have "calm (Suc 0) ((unfaulted db)\<lparr>db_jobs := ?rows\<rparr>)"
    using calm_unfaulted [OF c] by (simp add: calm_def)
  then have "fst (GetForkHealingJobByID (fj_JobID job) ((unfaulted db)\<lparr>db_jobs := ?rows\<rparr>)) =
      Inr (find (\<lambda>r. fj_JobID r = fj_JobID job) ?rows)"
    unfolding GetForkHealingJobByID_def by (subst with_io_calm, assumption) (simp add: unfaulted_def)
  moreover have "find (\<lambda>r. fj_JobID r = fj_JobID job) ?rows =
      Some (job\<lparr>fj_PendingBundlePrivate := [],
          fj_CreatedAtMs := (case find (\<lambda>r. fj_JobID r = fj_JobID job) (db_jobs db) of
             None \<Rightarrow> fj_CreatedAtMs job | Some r \<Rightarrow> fj_CreatedAtMs r)\<rparr>)"
    using job_rows.find_upsert [of "fj_JobID job" "job_stored job" "db_jobs db"]
    by (simp add: job_stored_def job_merge_def split: option.splits)
  ultimately show ?thesis by (simp add: s)
qed

section \<open>Pruning the healing history ends within its bounds\<close>

lemma heal_frame [simp]:
  "db_heal_events (delete_heal_audit gid tr db) = db_heal_events db"
  "db_faults (delete_heal_audit gid tr db) = db_faults db"
  "db_faults (snd (delete_heal_event gid tr db)) = db_faults db"
  by (simp_all add: delete_heal_audit_def delete_heal_event_def Let_def split: option.splits prod.splits)

lemma delete_heal_event_filter: "\<exists>P. db_heal_events (snd (delete_heal_event gid tr db)) = filter P (db_heal_events db)"
proof (cases "heal_oldest (\<lambda>r. he_GroupID r = gid \<and> he_TraceID r = tr) db")
  case None
  then show ?thesis by (intro exI [of _ "\<lambda>_. True"]) (simp add: delete_heal_event_def)
next
  case (Some x)
  then show ?thesis
    by (cases x) (auto simp: delete_heal_event_def Let_def)
qed

lemma heal_count_unfaulted [simp]: "heal_count gid (unfaulted db) = heal_count gid db"
  by (simp add: heal_count_def)

lemma heal_oldest_unfaulted [simp]: "heal_oldest P (unfaulted db) = heal_oldest P db"
  by (simp add: heal_oldest_def)

lemma faultless_io: "True \<notin> set (db_faults db) \<Longrightarrow> with_io f db = f (unfaulted db)"
  by (rule with_io_calm [OF calm_all])

lemma prune_heal_group_spec:
  assumes "True \<notin> set (db_faults db)" and "0 \<le> m"
  shows "\<exists>removed' db' P. prune_heal_group m gid removed db = ((removed', None), db') \<and>
    int (heal_count gid db') \<le> m \<and> db_heal_events db' = filter P (db_heal_events db) \<and>
    True \<notin> set (db_faults db')"
  using assms
proof (induction m gid removed db rule: prune_heal_group.induct)
  case (1 m gid removed db)
  let ?d1 = "unfaulted db"
  have f1: "True \<notin> set (db_faults ?d1)" using 1(2) by (rule faultless_unfaulted)
  show ?case
  proof (cases "int (heal_count gid db) \<le> m")
    case True
    then show ?thesis
      using f1 by (intro exI [of _ removed] exI [of _ ?d1] exI [of _ "\<lambda>_. True"])
        (simp add: prune_heal_group.simps [of m gid removed db] faultless_io [OF 1(2)])
  next
    case False
    have "heal_oldest (\<lambda>r. he_GroupID r = gid) db \<noteq> None"
    proof
      assume "heal_oldest (\<lambda>r. he_GroupID r = gid) db = None"
      then have "filter (\<lambda>(_, _, r). he_GroupID r = gid) (db_heal_events db) = []"
        unfolding heal_oldest_None by (fastforce simp: filter_empty_conv)
      then have "heal_count gid db = 0" by (simp add: heal_count_def)
      with False 1(3) show False by simp
    qed
    then obtain i c ev where o: "heal_oldest (\<lambda>r. he_GroupID r = gid) db = Some (i, c, ev)" by auto
    let ?d2 = "unfaulted ?d1"
    let ?d3 = "delete_heal_audit gid (he_TraceID ev) (unfaulted ?d2)"
    let ?d4 = "snd (delete_heal_event gid (he_TraceID ev) (unfaulted ?d3))"
    have f2: "True \<notin> set (db_faults ?d2)" by (rule faultless_unfaulted [OF f1])
    have f3: "True \<notin> set (db_faults ?d3)" using faultless_unfaulted [OF f2] by simp
    have f4: "True \<notin> set (db_faults ?d4)" using faultless_unfaulted [OF f3] by simp
    let ?n = "fst (delete_heal_event gid (he_TraceID ev) (unfaulted ?d3))"
    have step: "prune_heal_group m gid removed db = prune_heal_group m gid (removed + int ?n) ?d4"
      using False o f1 f2 f3
      by (simp add: prune_heal_group.simps [of m gid removed db] faultless_io [OF 1(2)] faultless_io split_beta)
    have ih: "\<exists>removed' db' P. prune_heal_group m gid (removed + int ?n) ?d4 = ((removed', None), db') \<and>
        int (heal_count gid db') \<le> m \<and> db_heal_events db' = filter P (db_heal_events ?d4) \<and>
        True \<notin> set (db_faults db')"
      by (rule 1(1) [of _ ?d1 "heal_count gid db" _ ?d2 "Some (i, c, ev)" "(i, c, ev)" i "(c, ev)" c ev _ ?d3 "()" _ ?d4 ?n])
        (use False o f1 f2 f3 f4 1(3) in \<open>simp_all add: faultless_io [OF 1(2)] faultless_io split_beta\<close>)
    obtain Q where Q: "db_heal_events ?d4 = filter Q (db_heal_events db)"
      using delete_heal_event_filter [of gid "he_TraceID ev" "unfaulted ?d3"] by auto
    from ih obtain r d P where d: "prune_heal_group m gid (removed + int ?n) ?d4 = ((r, None), d)"
      "int (heal_count gid d) \<le> m" "db_heal_events d = filter P (db_heal_events ?d4)" "True \<notin> set (db_faults d)"
      by blast
    show ?thesis
      by (rule exI [of _ r], rule exI [of _ d], rule exI [of _ "\<lambda>x. Q x \<and> P x"])
        (simp only: step d(1,3) Q filter_filter d(2,4) simp_thms)
  qed
qed

lemma heal_count_filter: "db_heal_events db' = filter P (db_heal_events db) \<Longrightarrow> heal_count g db' \<le> heal_count g db"
proof -
  assume h: "db_heal_events db' = filter P (db_heal_events db)"
  have "filter R (filter P xs) = filter P (filter R xs)" for R and xs :: "(int \<times> int \<times> ForkHealEventRecord) list"
    by (simp add: conj_commute)
  then show ?thesis
    unfolding heal_count_def h by (simp only: length_filter_le)
qed

lemma prune_heal_groups_spec:
  assumes "True \<notin> set (db_faults db)" and "0 \<le> m"
  shows "\<exists>removed' db' P. prune_heal_groups m gids removed db = ((removed', None), db') \<and>
    (\<forall>g \<in> set gids. int (heal_count g db') \<le> m) \<and> db_heal_events db' = filter P (db_heal_events db)"
  using assms(1)
proof (induction gids arbitrary: removed db)
  case Nil
  then show ?case by (auto intro: exI [of _ "\<lambda>_. True"])
next
  case (Cons gid gids)
  obtain r1 d1 P where d1: "prune_heal_group m gid removed db = ((r1, None), d1)"
    "int (heal_count gid d1) \<le> m" "db_heal_events d1 = filter P (db_heal_events db)" "True \<notin> set (db_faults d1)"
    using prune_heal_group_spec [OF Cons.prems assms(2)] by blast
  obtain r2 d2 Q where d2: "prune_heal_groups m gids r1 d1 = ((r2, None), d2)"
    "\<forall>g \<in> set gids. int (heal_count g d2) \<le> m" "db_heal_events d2 = filter Q (db_heal_events d1)"
    using Cons.IH [OF d1(4)] by blast
  have "int (heal_count gid d2) \<le> m" using heal_count_filter [OF d2(3), of gid] d1(2) by simp
  with d1 d2 show ?case by (intro exI [of _ r2] exI [of _ d2] exI [of _ "\<lambda>x. P x \<and> Q x"]) simp
qed

text \<open>
  Pruning the healing history ends, and without a storage fault it reports no error, leaves no
  event older than the cutoff and at most the given number of events per group, all of them events
  that were there before.
\<close>

theorem prune_heal_history_bounded:
  assumes "True \<notin> set (db_faults db)" and "1 \<le> m"
    and call: "PruneForkHealHistory cutoff m db = ((removed, err), db')"
  shows "err = None \<and> (\<forall>g. int (heal_count g db') \<le> m) \<and>
    set (db_heal_events db') \<subseteq> {(i, at, r) \<in> set (db_heal_events db). cutoff \<le> at}"
proof -
  let ?d1 = "delete_audit_before cutoff (unfaulted db)"
  let ?d2 = "delete_events_before cutoff (unfaulted ?d1)"
  let ?d3 = "unfaulted ?d2"
  have f1: "True \<notin> set (db_faults ?d1)"
    using faultless_unfaulted [OF assms(1)] by (simp add: delete_audit_before_def)
  have f2: "True \<notin> set (db_faults ?d2)"
    using faultless_unfaulted [OF f1] by (simp add: delete_events_before_def)
  define gids where "gids = remdups (map (\<lambda>(_, _, r). he_GroupID r) (db_heal_events ?d3))"
  have ev: "db_heal_events ?d3 = filter (\<lambda>(_, at, _). \<not> at < cutoff) (db_heal_events db)"
    by (simp add: delete_events_before_def delete_audit_before_def)
  obtain n where n: "PruneForkHealHistory cutoff m db = prune_heal_groups m gids n ?d3"
    using assms(2) unfolding PruneForkHealHistory_def gids_def
    by (simp add: faultless_io [OF assms(1)] faultless_io [OF f1] faultless_io [OF f2])
  obtain r d P where d: "prune_heal_groups m gids n ?d3 = ((r, None), d)"
    "\<forall>g \<in> set gids. int (heal_count g d) \<le> m" "db_heal_events d = filter P (db_heal_events ?d3)"
    using prune_heal_groups_spec [OF faultless_unfaulted [OF f2], of m gids n] assms(2) by auto
  have dd: "d = db'" "err = None" using n d(1) call by auto
  have "int (heal_count g db') \<le> m" for g
  proof (cases "g \<in> set gids")
    case True
    then show ?thesis using d(2) dd by simp
  next
    case False
    then have "filter (\<lambda>(_, _, r). he_GroupID r = g) (db_heal_events ?d3) = []"
      by (auto simp: gids_def filter_empty_conv image_iff)
    then have "heal_count g ?d3 = 0" by (simp only: heal_count_def list.size(3))
    then show ?thesis using heal_count_filter [OF d(3), of g] dd assms(2) by simp
  qed
  moreover have "set (db_heal_events db') \<subseteq> {(i, at, r) \<in> set (db_heal_events db). cutoff \<le> at}"
    using d(3) dd ev by auto
  ultimately show ?thesis using dd by simp
qed

section \<open>Samples\<close>

definition sample_job :: "string \<Rightarrow> string \<Rightarrow> ForkHealingJob" where
  "sample_job i st = \<lparr>fj_JobID = i, fj_GroupID = ''g1'', fj_TraceID = ''t'', fj_Status = st,
     fj_LosingBranchID = ''l'', fj_WinningBranchID = ''w'', fj_ForkBaseEpoch = 0, fj_LosingEpoch = 3,
     fj_WinningEpoch = 4, fj_LosingTreeHash = [1], fj_WinningTreeHash = [2], fj_WinningCommitHash = [3],
     fj_WinningGroupInfoHash = [4], fj_WinnerPeerID = ''p2'', fj_WinnerGroupInfo = [], fj_BranchWeightJSON = '''',
     fj_PendingGroupState = [], fj_PendingEpoch = 0, fj_PendingTreeHash = [], fj_PendingBundlePrivate = [9],
     fj_ErrorMessage = '''', fj_RetryCount = 0, fj_CreatedAtMs = 5, fj_UpdatedAtMs = 5, fj_CompletedAtMs = 0\<rparr>"

definition sample_heal :: "string \<Rightarrow> ForkHealEventRecord" where
  "sample_heal tr = \<lparr>he_TraceID = tr, he_GroupID = ''g1'', he_WinnerPeerID = ''p2'', he_WinnerEpoch = 4,
     he_NewEpoch = 5, he_Outcome = ''ok'', he_FailedStep = '''', he_WinnerTreeHash = [], he_NewTreeHash = [],
     he_PartitionStartedAtMs = 0, he_ScheduledAtMs = 0, he_StartedAtMs = 0, he_CompletedAtMs = 0,
     he_DurationMs = 0, he_TotalMs = 0, he_ReplayedMessageCount = 0\<rparr>"

lemma jobs_ok_empty: "jobs_ok empty_db"
  by (simp add: jobs_ok_def empty_db_def index_ok_def)


theorem healing_job_roundtrip_witness:
  "fst (GetForkHealingJobByID ''j1'' (snd (SaveForkHealingJob (sample_job ''j1'' ''DETECTED'') empty_db))) =
     Inr (Some ((sample_job ''j1'' ''DETECTED'')\<lparr>fj_PendingBundlePrivate := []\<rparr>))"
  using healing_job_roundtrip [of empty_db "sample_job ''j1'' ''DETECTED''"]
  by (simp add: empty_db_def calm_def upsert_by_def index_ok_def sample_job_def split: if_splits)

theorem prune_heal_history_bounded_witness:
  "let db = snd (RecordForkHealEvent 9000000000 (sample_heal ''t2'')
              (snd (RecordForkHealEvent 8000000000 (sample_heal ''t1'') empty_db)));
       ((removed, err), db') = PruneForkHealHistory 0 1 db
   in heal_count ''g1'' db = 2 \<and> err = None \<and> heal_count ''g1'' db' \<le> 1"
proof -
  define db where "db = snd (RecordForkHealEvent 9000000000 (sample_heal ''t2'')
              (snd (RecordForkHealEvent 8000000000 (sample_heal ''t1'') empty_db)))"
  have "db_faults db = []" "heal_count ''g1'' db = 2" unfolding db_def by code_simp+
  moreover obtain removed err db' where call: "PruneForkHealHistory 0 1 db = ((removed, err), db')"
    by (metis prod.collapse)
  ultimately show ?thesis
    using prune_heal_history_bounded [OF _ _ call] by (simp add: db_def [symmetric] Let_def)
qed

end
