(* ===== verification/Coordinator.thy ===== *)
theory Coordinator
  imports Epoch Metrics MessageStore JobStore
begin

text \<open>
  The state of the coordinator of one group (\<^verbatim>\<open>coordination/coordinator.go\<close>) and the operations its
  handlers share: hashing and the history chain (\<^verbatim>\<open>coordinator_replay.go\<close>), sealing
  (\<^verbatim>\<open>coordinator_crypto.go\<close>), envelopes, persistence and membership checks
  (\<^verbatim>\<open>coordinator_broadcast.go\<close>), the getters and periodic broadcasts (\<^verbatim>\<open>coordinator_observability.go\<close>).

  A method that holds the mutex is a function on the state. What the code cannot compute alone is in
  \<open>Deps\<close>: the MLS engine (a separate process), SHA-256, AES-GCM, JSON, the codec of peer identifiers. A call
  of the engine or of the random source is numbered, so two calls with the same arguments may answer
  differently, and an error is one of the answers. Callbacks, published messages, started goroutines and
  timers are recorded, in order, in the list of effects. The clock is read once per step. Nil and empty
  byte slices are not told apart.
\<close>

section \<open>What the coordinator is given\<close>

record CreateProposalResult =
  cpr_ProposalBytes :: bytes
  cpr_ProposalRef :: bytes
  cpr_NewGroupState :: bytes

record ProcessProposalResult =
  ppr_ProposalRef :: bytes
  ppr_ProposalType :: string
  ppr_NewGroupState :: bytes

record CreateCommitResult =
  ccr_CommitBytes :: bytes
  ccr_WelcomeBytes :: bytes
  ccr_GroupInfo :: bytes
  ccr_CommittedProposalRefs :: "bytes list"
  ccr_NewGroupState :: bytes
  ccr_NewTreeHash :: bytes

record StageCommitResult =
  scr_Epoch :: u64
  scr_ProposalRefs :: "bytes list"
  scr_ProposalTypes :: "string list"

text \<open>The methods of \<^verbatim>\<open>MLSEngine\<close> the coordinator calls; the first argument is the number of the call.\<close>

record MLSEngine =
  mls_CreateGroup :: "nat \<Rightarrow> string \<Rightarrow> bytes \<Rightarrow> u32 \<Rightarrow> error + bytes \<times> bytes"
  mls_CreateProposal :: "nat \<Rightarrow> bytes \<Rightarrow> ProposalType \<Rightarrow> bytes \<Rightarrow> error + CreateProposalResult"
  mls_ProcessProposal :: "nat \<Rightarrow> bytes \<Rightarrow> bytes \<Rightarrow> error + ProcessProposalResult"
  mls_CreateCommit :: "nat \<Rightarrow> bytes \<Rightarrow> bytes list \<Rightarrow> error + CreateCommitResult"
  mls_StageCommit :: "nat \<Rightarrow> bytes \<Rightarrow> bytes \<Rightarrow> bytes list \<Rightarrow> error + StageCommitResult"
  mls_ProcessCommit :: "nat \<Rightarrow> bytes \<Rightarrow> bytes \<Rightarrow> bytes list \<Rightarrow> error + bytes \<times> bytes"
  mls_ProcessWelcome :: "nat \<Rightarrow> bytes \<Rightarrow> bytes \<Rightarrow> bytes \<Rightarrow> u32 \<Rightarrow> error + bytes \<times> bytes \<times> u64"
  mls_GenerateKeyPackage :: "nat \<Rightarrow> bytes \<Rightarrow> error + bytes \<times> bytes"
  mls_HasMember :: "nat \<Rightarrow> bytes \<Rightarrow> bytes \<Rightarrow> error + bool"
  mls_EncryptMessage :: "nat \<Rightarrow> bytes \<Rightarrow> bytes \<Rightarrow> error + bytes \<times> bytes"
  mls_DecryptMessage :: "nat \<Rightarrow> bytes \<Rightarrow> bytes \<Rightarrow> error + bytes \<times> bytes"

text \<open>The payloads that are marshalled into an envelope.\<close>

datatype payload = HeartbeatMsg | AnnounceMsg GroupStateAnnouncement | ProposalPayload ProposalMsg
  | CommitPayload CommitMsg | ApplicationMsg bytes | BatchedApplicationMsg bytes | DeliveryAckMsg bytes
  | HistoryQueryPayload HistoryQueryMsg | HistoryReplyPayload HistoryReplyMsg

record Codecs =
  j_payload :: "payload \<Rightarrow> bytes option"
  j_envelope :: "Envelope \<Rightarrow> bytes option"
  j_batch :: "BatchedPlaintext \<Rightarrow> bytes"
  j_timestamp :: "HLCTimestamp \<Rightarrow> bytes"
  u_envelope :: "bytes \<Rightarrow> error + Envelope"
  u_announce :: "bytes \<Rightarrow> error + GroupStateAnnouncement"
  u_proposal :: "bytes \<Rightarrow> error + ProposalMsg"
  u_commit :: "bytes \<Rightarrow> error + CommitMsg"
  u_application :: "bytes \<Rightarrow> error + bytes"
  u_batched :: "bytes \<Rightarrow> error + bytes"
  u_ack :: "bytes \<Rightarrow> error + bytes"
  u_query :: "bytes \<Rightarrow> error + HistoryQueryMsg"
  u_reply :: "bytes \<Rightarrow> error + HistoryReplyMsg"
  u_batch :: "bytes \<Rightarrow> error + BatchedPlaintext"
  u_timestamp :: "bytes \<Rightarrow> HLCTimestamp"  \<comment> \<open>what is left of the target when decoding fails included\<close>

record Deps =
  d_cfg :: CoordinatorConfig
  d_localID :: peer_id
  d_groupID :: string
  d_signingKey :: bytes
  d_authorized :: "AuthorizedCommittersProvider option"
  d_onSyncRequired :: bool  \<comment> \<open>a callback for catch-up is registered\<close>
  d_mls :: MLSEngine
  d_mlsAvailable :: bool
  d_json :: Codecs
  d_sha256 :: "bytes \<Rightarrow> bytes"
  d_pidString :: "peer_id \<Rightarrow> string"
  d_pidDecode :: "string \<Rightarrow> peer_id option"
  d_seedPublic :: "bytes \<Rightarrow> bytes"  \<comment> \<open>Ed25519 public key of a seed\<close>
  d_keyPublic :: "bytes \<Rightarrow> bytes"  \<comment> \<open>Ed25519 public key of a private key\<close>
  d_gcmSeal :: "nat \<Rightarrow> bytes \<Rightarrow> bytes \<Rightarrow> error + bytes \<times> bytes"
  d_gcmOpen :: "bytes \<Rightarrow> bytes \<Rightarrow> bytes \<Rightarrow> error + bytes"
  d_random :: "nat \<Rightarrow> bytes option"
  d_connected :: "nat \<Rightarrow> peer_id list"
  d_errText :: "error \<Rightarrow> string"

section \<open>State\<close>

record pendingAppDelivery =
  pd_peerID :: peer_id
  pd_envelopeHash :: string
  pd_envelope :: bytes
  pd_attempts :: int

record ForkHealAuditSummary =
  fhs_GroupID :: string
  fhs_TraceID :: string
  fhs_Stage :: string
  fhs_WinnerPeerID :: string
  fhs_WinnerEpoch :: u64
  fhs_NewEpoch :: u64
  fhs_FailedStep :: string
  fhs_ReplayedMessageCount :: int
  fhs_DurationMs :: int

datatype effect =
    Publish MessageType bytes
  | OnEnvelope MessageType bytes
  | SendDirect peer_id bytes
  | OnMessage StoredMessage
  | OnEpochChange u64
  | OnAccessLost u64 string
  | OnAddCommitted AddCommitDelivery u64 bytes
  | OnPeerObserved peer_id time
  | OnProposalObserved ProposalAuditSummary
  | OnCommitIssued CommitAuditSummary
  | OnPendingOperation PendingOperationAuditSummary
  | OnForkHealEvent ForkHealAuditSummary
  | OnSyncRequired peer_id string
  | ViewChanged "peer_id list"
  | StartTimer nat int
  | WatchAck peer_id bytes
  | StartBatchReplay string
  | StartHeal string ForkEvent time
  | ResumeHeal ForkHealingJob
  | Subscribe string
  | Unsubscribe string

record Coord =
  c_now :: time
  c_calls :: nat
  c_out :: "effect list"
  c_db :: DB
  c_hlc :: HLC
  c_metrics :: Metrics
  c_groupState :: bytes
  c_treeHash :: bytes
  c_lastCommitHash :: bytes
  c_historyHash :: bytes
  c_historyChain :: "(u64, bytes) gomap"
  c_epoch :: u64
  c_view :: ActiveView
  c_sw :: "SingleWriter option"
  c_et :: "EpochTracker option"
  c_fd :: ForkDetector
  c_proposalTimer :: "nat option"
  c_failoverTimer :: "nat option"
  c_nextTimer :: nat
  c_lastTokenHolder :: peer_id
  c_startedAt :: time
  c_started :: bool
  c_healing :: bool
  c_accessRevoked :: bool
  c_pending :: "(string, pendingAppDelivery) gomap"
  c_syncRetryAttempts :: int
  c_deferredForkEvent :: "ForkEvent option"
  c_mode :: GroupOperationalMode
  c_welcome :: bool  \<comment> \<open>a signal waits in \<^verbatim>\<open>welcomeReceivedChan\<close>\<close>

text \<open>The ways a method touches its state: the database, the engine, the metrics, a callback.\<close>

definition on_db :: "(DB \<Rightarrow> 'a \<times> DB) \<Rightarrow> Coord \<Rightarrow> 'a \<times> Coord" where
  "on_db f c = (let (r, db) = f (c_db c) in (r, c\<lparr>c_db := db\<rparr>))"

definition engine :: "(nat \<Rightarrow> 'a) \<Rightarrow> Coord \<Rightarrow> 'a \<times> Coord" where
  "engine f c = (f (c_calls c), c\<lparr>c_calls := c_calls c + 1\<rparr>)"

definition meter :: "(Metrics \<Rightarrow> Metrics) \<Rightarrow> Coord \<Rightarrow> Coord" where
  "meter f c = c\<lparr>c_metrics := f (c_metrics c)\<rparr>"

definition emit :: "effect \<Rightarrow> Coord \<Rightarrow> Coord" where
  "emit e c = c\<lparr>c_out := c_out c @ [e]\<rparr>"

definition on_writer :: "(SingleWriter \<Rightarrow> SingleWriter) \<Rightarrow> Coord \<Rightarrow> Coord" where
  "on_writer f c = c\<lparr>c_sw := map_option f (c_sw c)\<rparr>"

definition on_tracker :: "(EpochTracker \<Rightarrow> EpochTracker) \<Rightarrow> Coord \<Rightarrow> Coord" where
  "on_tracker f c = c\<lparr>c_et := map_option f (c_et c)\<rparr>"

definition hlc_now :: "Coord \<Rightarrow> HLCTimestamp \<times> Coord" where
  "hlc_now c =
    (let (ts, h) = Now (UnixMilli (c_now c)) (UnixMilli (c_now c + millisecond)) (c_hlc c)
     in (ts, c\<lparr>c_hlc := h\<rparr>))"

definition hlc_update :: "HLCTimestamp \<Rightarrow> Coord \<Rightarrow> (error + HLCTimestamp) \<times> Coord" where
  "hlc_update ts c =
    (let (r, h) = Update (UnixMilli (c_now c)) (UnixMilli (c_now c + millisecond)) ts (c_hlc c)
     in (r, c\<lparr>c_hlc := h\<rparr>))"

definition nowMs :: "Coord \<Rightarrow> int" where
  "nowMs c = UnixMilli (c_now c)"

text \<open>The election, asked of the writer the coordinator owns.\<close>

definition CurrentTokenHolder_c :: "Deps \<Rightarrow> Coord \<Rightarrow> error + peer_id" where
  "CurrentTokenHolder_c D c =
    (case c_sw c of None \<Rightarrow> Inl (ErrMsg ''singleWriter not initialized'')
     | Some sw \<Rightarrow> CurrentTokenHolder (d_sha256 D) (d_pidString D) (c_view c) sw)"

definition IsTokenHolder_c :: "Deps \<Rightarrow> Coord \<Rightarrow> bool" where
  "IsTokenHolder_c D c =
    (case c_sw c of None \<Rightarrow> False
     | Some sw \<Rightarrow> IsTokenHolder (d_sha256 D) (d_pidString D) (c_view c) sw)"

definition proposal_count :: "Coord \<Rightarrow> nat" where
  "proposal_count c = (case c_sw c of None \<Rightarrow> 0 | Some sw \<Rightarrow> ProposalCount sw)"

section \<open>Hashes and the history chain\<close>

definition hashEnvelope :: "Deps \<Rightarrow> bytes \<Rightarrow> bytes" where
  "hashEnvelope D wire = (if wire = [] then [] else d_sha256 D wire)"

definition hashCommitData :: "Deps \<Rightarrow> bytes \<Rightarrow> bytes" where
  "hashCommitData D commitData = (if commitData = [] then [] else d_sha256 D commitData)"

definition initialHistoryHash :: "Deps \<Rightarrow> string \<Rightarrow> bytes" where
  "initialHistoryHash D groupID = d_sha256 D (string_bytes ''phoenix/history/v1'' @ string_bytes groupID)"

definition computeHistoryHash :: "Deps \<Rightarrow> bytes \<Rightarrow> bytes \<Rightarrow> bytes" where
  "computeHistoryHash D prevHistoryHash commitHash = d_sha256 D (prevHistoryHash @ commitHash)"

definition markInvalidCommitLocked :: "bytes \<Rightarrow> Coord \<Rightarrow> Coord" where
  "markInvalidCommitLocked commitHash c =
    (if commitHash = [] then c else c\<lparr>c_fd := MarkInvalidCommit commitHash (c_fd c)\<rparr>)"

section \<open>Sealing and identifiers\<close>

definition deriveStorageKey :: "Deps \<Rightarrow> bytes \<Rightarrow> bytes" where
  "deriveStorageKey D signingKey = d_sha256 D signingKey"

definition sealPayload :: "Deps \<Rightarrow> bytes \<Rightarrow> bytes \<Rightarrow> Coord \<Rightarrow> (error + bytes \<times> bytes) \<times> Coord" where
  "sealPayload D plaintext key = engine (\<lambda>n. d_gcmSeal D n key plaintext)"

definition openPayload :: "Deps \<Rightarrow> bytes \<Rightarrow> bytes \<Rightarrow> bytes \<Rightarrow> error + bytes" where
  "openPayload D ciphertext nonce key =
    (if ciphertext = [] \<or> nonce = [] then Inl (ErrMsg ''openPayload: empty ciphertext or nonce'')
     else d_gcmOpen D key nonce ciphertext)"

definition newTraceID :: "Deps \<Rightarrow> Coord \<Rightarrow> string \<times> Coord" where
  "newTraceID D c =
    (case engine (d_random D) c of
       (None, c1) \<Rightarrow> (''00000000'', c1)
     | (Some b, c1) \<Rightarrow> (hex b, c1))"

definition deriveIdentityFromSigningKey :: "Deps \<Rightarrow> bytes \<Rightarrow> bytes" where
  "deriveIdentityFromSigningKey D signingKey =
    (if length signingKey = 32 then d_seedPublic D signingKey
     else if length signingKey = 64 then d_keyPublic D signingKey
     else [])"

definition localIdentity :: "Deps \<Rightarrow> bytes" where
  "localIdentity D = deriveIdentityFromSigningKey D (d_signingKey D)"

definition decodeEnvelopePeerID :: "Deps \<Rightarrow> string \<Rightarrow> peer_id \<Rightarrow> peer_id" where
  "decodeEnvelopePeerID D raw fallback =
    (if raw = '''' then fallback
     else case d_pidDecode D raw of None \<Rightarrow> fallback | Some pid \<Rightarrow> pid)"

definition validateSenderTimestamp :: "int \<Rightarrow> int \<Rightarrow> error + unit" where
  "validateSenderTimestamp now senderMs =
    (if senderMs > wrap64 (now + 5 * 60 * 1000) then Inl (ErrMsg ''sender timestamp too far in future'')
     else Inr ())"

section \<open>Envelopes\<close>

definition buildEnvelopeWithEpochAndTimestampLocked ::
  "Deps \<Rightarrow> MessageType \<Rightarrow> payload \<Rightarrow> u64 \<Rightarrow> HLCTimestamp \<Rightarrow> bytes" where
  "buildEnvelopeWithEpochAndTimestampLocked D msgType p epoch ts =
    (case j_payload (d_json D) p of
       None \<Rightarrow> []
     | Some payloadBytes \<Rightarrow>
        (case j_envelope (d_json D)
                \<lparr>env_Type = msgType, env_GroupID = d_groupID D, env_Epoch = epoch,
                 env_From = d_pidString D (d_localID D), env_Timestamp = ts, env_Payload = payloadBytes\<rparr> of
           None \<Rightarrow> []
         | Some envBytes \<Rightarrow> envBytes))"

definition buildEnvelopeWithTimestampLocked ::
  "Deps \<Rightarrow> MessageType \<Rightarrow> payload \<Rightarrow> HLCTimestamp \<Rightarrow> Coord \<Rightarrow> bytes" where
  "buildEnvelopeWithTimestampLocked D msgType p ts c =
    buildEnvelopeWithEpochAndTimestampLocked D msgType p (c_epoch c) ts"

definition publishPreparedEnvelopeLocked :: "MessageType \<Rightarrow> bytes \<Rightarrow> Coord \<Rightarrow> Coord" where
  "publishPreparedEnvelopeLocked msgType envBytes c =
    (let c1 = emit (Publish msgType envBytes) c in
     if msgType = MsgCommit \<or> msgType = MsgApplication then emit (OnEnvelope msgType envBytes) c1 else c1)"

definition broadcastWithTimestampLocked ::
  "Deps \<Rightarrow> MessageType \<Rightarrow> payload \<Rightarrow> HLCTimestamp \<Rightarrow> Coord \<Rightarrow> bytes \<times> Coord" where
  "broadcastWithTimestampLocked D msgType p ts c =
    (let envBytes = buildEnvelopeWithTimestampLocked D msgType p ts c in
     if envBytes = [] then ([], c) else (envBytes, publishPreparedEnvelopeLocked msgType envBytes c))"

definition broadcastLocked :: "Deps \<Rightarrow> MessageType \<Rightarrow> payload \<Rightarrow> Coord \<Rightarrow> Coord" where
  "broadcastLocked D msgType p c =
    (let (ts, c1) = hlc_now c in snd (broadcastWithTimestampLocked D msgType p ts c1))"

definition appendOfflineEnvelopeLocked :: "Deps \<Rightarrow> bytes \<Rightarrow> Coord \<Rightarrow> Coord" where
  "appendOfflineEnvelopeLocked D wire c =
    (if \<not> OfflineSyncEnabled (d_cfg D) \<or> wire = [] then c
     else case u_envelope (d_json D) wire of
         Inl _ \<Rightarrow> c
       | Inr env \<Rightarrow>
          if env_Type env \<noteq> MsgCommit \<and> env_Type env \<noteq> MsgApplication then c
          else snd (on_db (AppendEnvelope (d_sha256 D) (c_now c) (d_groupID D) (env_Type env)
                       (env_Epoch env) (env_Timestamp env) wire) c))"

section \<open>Persistence\<close>

definition persistCoordStateLocked :: "Deps \<Rightarrow> Coord \<Rightarrow> (error + unit) \<times> Coord" where
  "persistCoordStateLocked D c =
    (let holder = (case CurrentTokenHolder_c D c of Inl _ \<Rightarrow> '''' | Inr h \<Rightarrow> h) in
     on_db (SaveCoordState (d_pidString D)
       \<lparr>cs_GroupID = d_groupID D, cs_ActiveView = Members (c_view c), cs_TokenHolder = holder,
        cs_LastCommitHash = c_lastCommitHash c, cs_LastCommitAt = zero_time, cs_PendingProposals = [],
        cs_HistoryChain = c_historyChain c\<rparr>) c)"

definition persistCurrentEpochStateLocked :: "Deps \<Rightarrow> bytes \<Rightarrow> Coord \<Rightarrow> (error + unit) \<times> Coord" where
  "persistCurrentEpochStateLocked D newState c =
    (let now = c_now c;
         rec = \<lparr>gr_GroupID = d_groupID D, gr_GroupState = newState, gr_Epoch = c_epoch c,
                gr_TreeHash = c_treeHash c, gr_MyRole = '''', gr_GroupType = '''', gr_CategoryID = '''',
                gr_DMCounterpartyPeerID = '''', gr_CreatedAt = zero_time, gr_UpdatedAt = now\<rparr>;
         (prev, c1) = on_db (GetGroupRecord (d_groupID D)) c;
         rec1 = (case prev of
                   Inl _ \<Rightarrow> rec
                 | Inr p \<Rightarrow> rec\<lparr>gr_MyRole := gr_MyRole p, gr_GroupType := gr_GroupType p,
                              gr_CategoryID := gr_CategoryID p,
                              gr_DMCounterpartyPeerID := gr_DMCounterpartyPeerID p,
                              gr_CreatedAt := gr_CreatedAt p\<rparr>);
         rec2 = (if gr_CreatedAt rec1 = zero_time then rec1\<lparr>gr_CreatedAt := now\<rparr> else rec1)
     in on_db (SaveGroupRecord rec2) c1)"

text \<open>The record that \<^verbatim>\<open>saveCurrentGroupStateLocked\<close> and \<^verbatim>\<open>applyHealedState\<close> build from the stored one.\<close>

definition carried_record :: "Deps \<Rightarrow> GroupRecord option \<Rightarrow> bytes \<Rightarrow> u64 \<Rightarrow> bytes \<Rightarrow> time \<Rightarrow> GroupRecord" where
  "carried_record D prevRec state epoch treeHash now =
    \<lparr>gr_GroupID = d_groupID D, gr_GroupState = state, gr_Epoch = epoch, gr_TreeHash = treeHash,
     gr_MyRole = (case prevRec of None \<Rightarrow> RoleMember
                  | Some p \<Rightarrow> if gr_MyRole p \<noteq> '''' then gr_MyRole p else RoleMember),
     gr_GroupType = (case prevRec of None \<Rightarrow> '''' | Some p \<Rightarrow> gr_GroupType p),
     gr_CategoryID = (case prevRec of None \<Rightarrow> '''' | Some p \<Rightarrow> gr_CategoryID p),
     gr_DMCounterpartyPeerID = '''',
     gr_CreatedAt = (case prevRec of None \<Rightarrow> now
                     | Some p \<Rightarrow> if gr_CreatedAt p \<noteq> zero_time then gr_CreatedAt p else now),
     gr_UpdatedAt = now\<rparr>"

definition saveCurrentGroupStateLocked :: "Deps \<Rightarrow> time \<Rightarrow> Coord \<Rightarrow> (error + unit) \<times> Coord" where
  "saveCurrentGroupStateLocked D now c =
    (case on_db (GetGroupRecord (d_groupID D)) c of
       (Inl err, c1) \<Rightarrow>
         if err \<noteq> ErrGroupNotFound then (Inl err, c1)
         else on_db (SaveGroupRecord
                (carried_record D None (c_groupState c) (c_epoch c) (c_treeHash c) now)) c1
     | (Inr prev, c1) \<Rightarrow>
         on_db (SaveGroupRecord
           (carried_record D (Some prev) (c_groupState c) (c_epoch c) (c_treeHash c) now)) c1)"

section \<open>Local membership\<close>

definition updateLocalAccessRevocationLocked :: "Deps \<Rightarrow> bytes \<Rightarrow> u64 \<Rightarrow> Coord \<Rightarrow> Coord" where
  "updateLocalAccessRevocationLocked D groupState epoch c =
    (if c_accessRevoked c then c
     else if localIdentity D = [] then c
     else case engine (\<lambda>n. mls_HasMember (d_mls D) n groupState (localIdentity D)) c of
         (Inl _, c1) \<Rightarrow> c1
       | (Inr True, c1) \<Rightarrow> c1
       | (Inr False, c1) \<Rightarrow> emit (OnAccessLost epoch ''removed'') (c1\<lparr>c_accessRevoked := True\<rparr>))"

section \<open>Lifecycle\<close>

definition local_announcement :: "Coord \<Rightarrow> GroupStateAnnouncement" where
  "local_announcement c =
    \<lparr>gsa_TreeHash = c_treeHash c, gsa_MemberCount = int (Size (c_view c)), gsa_Epoch = c_epoch c,
     gsa_CommitHash = c_lastCommitHash c, gsa_HistoryHash = c_historyHash c\<rparr>"

definition NewCoordinator :: "Deps \<Rightarrow> peer_id list \<Rightarrow> HLC option \<Rightarrow> time \<Rightarrow> DB \<Rightarrow> error + Coord" where
  "NewCoordinator D initialActiveView hlc now db =
    (case Validate (d_cfg D) of
       Inl err \<Rightarrow> Inl err
     | Inr _ \<Rightarrow> Inr
        \<lparr>c_now = now, c_calls = 0, c_out = [], c_db = db,
         c_hlc = (case hlc of Some h \<Rightarrow> h | None \<Rightarrow> NewHLC (d_pidString D (d_localID D))),
         c_metrics = NewMetrics, c_groupState = [], c_treeHash = [], c_lastCommitHash = [],
         c_historyHash = [], c_historyChain = [], c_epoch = 0,
         c_view = Seed initialActiveView (NewActiveView (d_cfg D) (d_localID D)),
         c_sw = None, c_et = None, c_fd = NewForkDetector, c_proposalTimer = None, c_failoverTimer = None,
         c_nextTimer = 0, c_lastTokenHolder = '''', c_startedAt = zero_time, c_started = False,
         c_healing = False, c_accessRevoked = False, c_pending = [], c_syncRetryAttempts = 0,
         c_deferredForkEvent = None, c_mode = ModeLive, c_welcome = False\<rparr>)"

definition CreateGroup :: "Deps \<Rightarrow> Coord \<Rightarrow> (error + unit) \<times> Coord" where
  "CreateGroup D c =
    (if c_started c then (Inl (ErrMsg ''coordinator already started''), c)
     else case engine (\<lambda>n. mls_CreateGroup (d_mls D) n (d_groupID D) (d_signingKey D)
                             (GetMaxPastEpochs (d_cfg D))) c of
         (Inl err, c1) \<Rightarrow> (Inl (ErrWrap ''CreateGroup: '' err), c1)
       | (Inr (state, treeHash), c1) \<Rightarrow>
          (case on_db (SaveGroupRecord
                  \<lparr>gr_GroupID = d_groupID D, gr_GroupState = state, gr_Epoch = 0, gr_TreeHash = treeHash,
                   gr_MyRole = RoleCreator, gr_GroupType = '''', gr_CategoryID = '''',
                   gr_DMCounterpartyPeerID = '''', gr_CreatedAt = c_now c1, gr_UpdatedAt = c_now c1\<rparr>)
                  (c1\<lparr>c_groupState := state, c_epoch := 0, c_treeHash := treeHash\<rparr>) of
             (Inl err, c2) \<Rightarrow> (Inl err, c2)
           | (Inr _, c2) \<Rightarrow> persistCoordStateLocked D c2))"

definition InitializeGroup :: "bytes \<Rightarrow> u64 \<Rightarrow> bytes \<Rightarrow> Coord \<Rightarrow> Coord" where
  "InitializeGroup groupState epoch treeHash c =
    c\<lparr>c_groupState := groupState, c_epoch := epoch, c_treeHash := treeHash\<rparr>"

text \<open>
  \<^verbatim>\<open>Start\<close>, in the order of the code: the stored group, the stored coordination state, the root of the
  history chain, the components, the subscription, the resumption of an unfinished heal. The answer of
  the transport to \<^verbatim>\<open>Subscribe\<close> is an argument.
\<close>

definition load_group :: "Deps \<Rightarrow> Coord \<Rightarrow> (error + unit) \<times> Coord" where
  "load_group D c =
    (if c_groupState c \<noteq> [] then (Inr (), c)
     else case on_db (GetGroupRecord (d_groupID D)) c of
         (Inl err, c1) \<Rightarrow> (Inl (ErrWrap ''no group state: '' err), c1)
       | (Inr rec, c1) \<Rightarrow>
          (Inr (), c1\<lparr>c_groupState := gr_GroupState rec, c_epoch := gr_Epoch rec, c_treeHash := gr_TreeHash rec\<rparr>))"

definition load_coord :: "Deps \<Rightarrow> Coord \<Rightarrow> (error + unit) \<times> Coord" where
  "load_coord D c =
    (case on_db (GetCoordState (d_pidDecode D) (d_groupID D)) c of
       (Inr cs, c1) \<Rightarrow>
         (let c2 = c1\<lparr>c_lastCommitHash := cs_LastCommitHash cs\<rparr> in
          if cs_HistoryChain cs = [] then (Inr (), c2)
          else let c3 = c2\<lparr>c_historyChain := cs_HistoryChain cs\<rparr>
               in case gget (c_historyChain c3) (c_epoch c3) of
                    Some h \<Rightarrow> (Inr (), c3\<lparr>c_historyHash := h\<rparr>)
                  | None \<Rightarrow> (Inr (), c3))
     | (Inl err, c1) \<Rightarrow>
         if err \<noteq> ErrGroupNotFound then (Inl (ErrWrap ''load coordination state: '' err), c1)
         else (Inr (), c1))"

definition seed_history :: "Deps \<Rightarrow> Coord \<Rightarrow> Coord" where
  "seed_history D c =
    (if c_historyHash c \<noteq> [] then c
     else let r0 = initialHistoryHash D (d_groupID D)
          in c\<lparr>c_historyHash := r0, c_historyChain := gput (c_epoch c) r0 (c_historyChain c)\<rparr>)"

definition install_components :: "Deps \<Rightarrow> Coord \<Rightarrow> Coord" where
  "install_components D c =
    (let c1 = c\<lparr>c_et := Some (NewEpochTracker (c_epoch c) (c_treeHash c)),
                c_sw := Some (SetAuthorizedCommitters (d_groupID D) (d_authorized D)
                          (NewSingleWriter (d_localID D) (c_epoch c) (d_cfg D)))\<rparr>;
         c2 = (case CurrentTokenHolder_c D c1 of Inl _ \<Rightarrow> c1 | Inr h \<Rightarrow> c1\<lparr>c_lastTokenHolder := h\<rparr>)
     in c2\<lparr>c_fd := UpdateLocal (local_announcement c2) (c_fd c2)\<rparr>)"

definition resume_on_start :: "Deps \<Rightarrow> Coord \<Rightarrow> Coord" where
  "resume_on_start D c =
    (case on_db (GetActiveForkHealingJob (d_groupID D)) c of
       (Inr (Some job), c1) \<Rightarrow>
         if fj_Status job \<noteq> ''CLEANED'' \<and> fj_Status job \<noteq> ''FAILED_TERMINAL''
         then emit (ResumeHeal job) c1 else c1
     | (_, c1) \<Rightarrow> c1)"

definition Start :: "Deps \<Rightarrow> (error + unit) \<Rightarrow> Coord \<Rightarrow> (error + unit) \<times> Coord" where
  "Start D subscribed c =
    (if c_started c then (Inl (ErrMsg ''coordinator already started''), c)
     else case load_group D c of
         (Inl err, c1) \<Rightarrow> (Inl err, c1)
       | (Inr _, c1) \<Rightarrow>
          (case load_coord D c1 of
             (Inl err, c2) \<Rightarrow> (Inl err, c2)
           | (Inr _, c2) \<Rightarrow>
              (let c3 = install_components D (seed_history D c2) in
               case subscribed of
                 Inl err \<Rightarrow> (Inl (ErrWrap ''subscribe: '' err), c3)
               | Inr _ \<Rightarrow>
                  (Inr (), resume_on_start D (emit (Subscribe (GroupTopic (d_groupID D)))
                             (c3\<lparr>c_started := True, c_startedAt := c_now c3\<rparr>))))))"

definition Stop :: "Deps \<Rightarrow> Coord \<Rightarrow> Coord" where
  "Stop D c =
    (if \<not> c_started c then c
     else (emit (Unsubscribe (GroupTopic (d_groupID D))) (c\<lparr>c_failoverTimer := None\<rparr>))\<lparr>c_started := False\<rparr>)"

section \<open>Observation and periodic broadcasts\<close>

definition CurrentEpoch :: "Coord \<Rightarrow> u64" where "CurrentEpoch c = c_epoch c"
definition ActiveMembers :: "Coord \<Rightarrow> peer_id list" where "ActiveMembers c = Members (c_view c)"
definition GetMetrics :: "Coord \<Rightarrow> MetricsSnapshot" where "GetMetrics c = Snapshot (c_metrics c)"
definition GetGroupState :: "Coord \<Rightarrow> bytes" where "GetGroupState c = c_groupState c"
definition GetTreeHash :: "Coord \<Rightarrow> bytes" where "GetTreeHash c = c_treeHash c"
definition GetHistoryHash :: "Coord \<Rightarrow> bytes" where "GetHistoryHash c = c_historyHash c"
definition GetOperationalMode :: "Coord \<Rightarrow> GroupOperationalMode" where "GetOperationalMode c = c_mode c"
definition IsHealing :: "Coord \<Rightarrow> bool" where "IsHealing c = c_healing c"

definition SetOperationalMode :: "GroupOperationalMode \<Rightarrow> Coord \<Rightarrow> Coord" where
  "SetOperationalMode mode c = c\<lparr>c_mode := mode\<rparr>"

definition SeedHistoryAnchor :: "Deps \<Rightarrow> u64 \<Rightarrow> bytes \<Rightarrow> Coord \<Rightarrow> Coord" where
  "SeedHistoryAnchor D epoch anchor c =
    snd (persistCoordStateLocked D
      (c\<lparr>c_historyChain := gput epoch anchor (c_historyChain c), c_historyHash := anchor, c_epoch := epoch\<rparr>))"

text \<open>A call of the view's callback starts \<^verbatim>\<open>handleActiveViewChange\<close> on a goroutine of its own.\<close>

definition view_changed :: "peer_id list option \<Rightarrow> Coord \<Rightarrow> Coord" where
  "view_changed members c = (case members of None \<Rightarrow> c | Some ms \<Rightarrow> emit (ViewChanged ms) c)"

definition observePeerAliveLocked :: "Deps \<Rightarrow> peer_id \<Rightarrow> Coord \<Rightarrow> Coord" where
  "observePeerAliveLocked D from c =
    (if from = '''' \<or> from = d_localID D then c
     else let (fresh, members, av) = RecordHeartbeat from (c_view c);
              c1 = view_changed members (c\<lparr>c_view := av\<rparr>)
          in if \<not> fresh then c1 else emit (OnPeerObserved from (c_now c1)) c1)"

definition TriggerLivenessCheck :: "Coord \<Rightarrow> peer_id list \<times> Coord" where
  "TriggerLivenessCheck c =
    (let (evicted, members, av) = CheckLiveness (c_view c)
     in (evicted, view_changed members (c\<lparr>c_view := av\<rparr>)))"

definition heartbeat_tick :: "Deps \<Rightarrow> Coord \<Rightarrow> Coord" where
  "heartbeat_tick D c = broadcastLocked D MsgHeartbeat HeartbeatMsg (snd (TriggerLivenessCheck c))"

definition BroadcastHeartbeat :: "Deps \<Rightarrow> Coord \<Rightarrow> Coord" where
  "BroadcastHeartbeat D c = broadcastLocked D MsgHeartbeat HeartbeatMsg c"

definition broadcastAnnounceLocked :: "Deps \<Rightarrow> Coord \<Rightarrow> Coord" where
  "broadcastAnnounceLocked D c =
    (if c_groupState c = [] \<or> c_healing c then c
     else let ann = local_announcement c
          in broadcastLocked D MsgAnnounce (AnnounceMsg ann) (c\<lparr>c_fd := UpdateLocal ann (c_fd c)\<rparr>))"

section \<open>Steps that stay on the current epoch\<close>

definition writer_id :: "SingleWriter \<Rightarrow> peer_id \<times> u64 \<times> CoordinatorConfig \<times> string \<times> AuthorizedCommittersProvider option" where
  "writer_id sw = (sw_localID sw, sw_epoch sw, sw_cfg sw, sw_groupID sw, sw_authorized sw)"

definition writer_ok :: "Coord \<Rightarrow> bool" where
  "writer_ok c \<longleftrightarrow> (case c_sw c of None \<Rightarrow> True | Some sw \<Rightarrow> sw_ok sw)"

text \<open>
  \<open>keeps c c'\<close>: the step from \<open>c\<close> to \<open>c'\<close> leaves the epoch, the history chain, the epoch tracker, the
  active view and the local announcement alone, changes of the writer only its buffer, and does not take
  back a revocation.
\<close>

definition keeps :: "Coord \<Rightarrow> Coord \<Rightarrow> bool" where
  "keeps c c' \<longleftrightarrow>
    c_epoch c' = c_epoch c \<and> c_historyHash c' = c_historyHash c \<and> c_historyChain c' = c_historyChain c \<and>
    c_et c' = c_et c \<and> c_view c' = c_view c \<and> c_started c' = c_started c \<and>
    fd_local (c_fd c') = fd_local (c_fd c) \<and> map_option writer_id (c_sw c') = map_option writer_id (c_sw c) \<and>
    (writer_ok c \<longrightarrow> writer_ok c') \<and> (c_accessRevoked c \<longrightarrow> c_accessRevoked c')"

named_theorems keeps_intros

lemma keeps_refl [keeps_intros, simp]: "keeps c c"
  by (simp add: keeps_def)

lemma keeps_trans: "keeps a b \<Longrightarrow> keeps b c \<Longrightarrow> keeps a c"
  by (auto simp: keeps_def)

lemma keeps_field [keeps_intros]:
  assumes "keeps a c"
  shows "keeps a (c\<lparr>c_db := db\<rparr>)" "keeps a (c\<lparr>c_calls := n\<rparr>)" "keeps a (c\<lparr>c_hlc := h\<rparr>)"
    "keeps a (c\<lparr>c_groupState := s\<rparr>)" "keeps a (c\<lparr>c_proposalTimer := t\<rparr>)" "keeps a (c\<lparr>c_failoverTimer := t\<rparr>)"
    "keeps a (c\<lparr>c_nextTimer := n\<rparr>)" "keeps a (c\<lparr>c_pending := p\<rparr>)" "keeps a (c\<lparr>c_lastTokenHolder := h'\<rparr>)"
    "keeps a (c\<lparr>c_accessRevoked := True\<rparr>)" "keeps a (c\<lparr>c_deferredForkEvent := ev\<rparr>)"
    "keeps a (c\<lparr>c_healing := b\<rparr>)" "keeps a (c\<lparr>c_mode := m\<rparr>)"
    "keeps a (c\<lparr>c_syncRetryAttempts := i\<rparr>)" "keeps a (c\<lparr>c_welcome := b\<rparr>)" "keeps a (c\<lparr>c_now := i\<rparr>)"
  using assms by (simp_all add: keeps_def writer_ok_def)

lemma keeps_prim [keeps_intros]:
  assumes "keeps a c"
  shows "keeps a (snd (on_db f c))" "keeps a (snd (engine g c))" "keeps a (meter m c)" "keeps a (emit e c)"
    "keeps a (snd (hlc_now c))" "keeps a (snd (hlc_update ts c))"
  using assms
  by (simp_all add: keeps_def writer_ok_def on_db_def engine_def meter_def emit_def hlc_now_def hlc_update_def
      split: prod.split)

text \<open>The same for an intermediate state that is named by a pattern.\<close>

lemma keeps_bind:
  "on_db f c = (r, c') \<Longrightarrow> keeps a c \<Longrightarrow> keeps a c'"
  "engine g c = (r2, c') \<Longrightarrow> keeps a c \<Longrightarrow> keeps a c'"
  "hlc_now c = (ts, c') \<Longrightarrow> keeps a c \<Longrightarrow> keeps a c'"
  "hlc_update ts2 c = (r3, c') \<Longrightarrow> keeps a c \<Longrightarrow> keeps a c'"
  using keeps_prim by (metis snd_conv)+

lemma keeps_writer [keeps_intros]:
  assumes "keeps a c" "\<And>sw. writer_id (f sw) = writer_id sw" "\<And>sw. sw_ok sw \<Longrightarrow> sw_ok (f sw)"
  shows "keeps a (on_writer f c)"
  using assms by (cases "c_sw c") (auto simp: keeps_def on_writer_def writer_ok_def)

lemma keeps_fd [keeps_intros]:
  "keeps a c \<Longrightarrow> fd_local fd = fd_local (c_fd c) \<Longrightarrow> keeps a (c\<lparr>c_fd := fd\<rparr>)"
  by (simp add: keeps_def writer_ok_def)

lemma keeps_fold [keeps_intros]:
  assumes "\<And>x c. keeps c (f x c)" "keeps a c"
  shows "keeps a (fold f xs c)"
  using assms(2) by (induction xs arbitrary: c) (auto intro: keeps_trans [OF _ assms(1)])

lemma MarkInvalidCommit_local [simp]: "fd_local (MarkInvalidCommit h fd) = fd_local fd"
  by (simp add: MarkInvalidCommit_def)

lemma keeps_helpers [keeps_intros]:
  assumes "keeps a c"
  shows "keeps a (markInvalidCommitLocked h c)"
    and "keeps a (snd (sealPayload D p key c))"
    and "keeps a (snd (newTraceID D c))"
    and "keeps a (publishPreparedEnvelopeLocked mt wire c)"
    and "keeps a (snd (broadcastWithTimestampLocked D mt pl ts c))"
    and "keeps a (broadcastLocked D mt pl c)"
    and "keeps a (appendOfflineEnvelopeLocked D wire c)"
    and "keeps a (snd (persistCoordStateLocked D c))"
    and "keeps a (snd (persistCurrentEpochStateLocked D s c))"
    and "keeps a (snd (saveCurrentGroupStateLocked D now c))"
    and "keeps a (updateLocalAccessRevocationLocked D s e c)"
proof -
  show "keeps a (markInvalidCommitLocked h c)"
    unfolding markInvalidCommitLocked_def using assms by (auto intro: keeps_intros)
  show "keeps a (snd (sealPayload D p key c))"
    unfolding sealPayload_def using assms by (auto intro: keeps_intros)
  show "keeps a (snd (newTraceID D c))"
    unfolding newTraceID_def using assms by (auto split: prod.split option.split intro: keeps_bind)
  have pub: "keeps a (publishPreparedEnvelopeLocked mt w c')" if "keeps a c'" for c' w
    unfolding publishPreparedEnvelopeLocked_def Let_def using that by (auto intro: keeps_intros)
  from assms show "keeps a (publishPreparedEnvelopeLocked mt wire c)" by (rule pub)
  have cast: "keeps a (snd (broadcastWithTimestampLocked D mt pl t c'))" if "keeps a c'" for c' t
    unfolding broadcastWithTimestampLocked_def Let_def using that by (auto intro: pub)
  from assms show "keeps a (snd (broadcastWithTimestampLocked D mt pl ts c))" by (rule cast)
  show "keeps a (broadcastLocked D mt pl c)"
    unfolding broadcastLocked_def using assms by (auto split: prod.split intro: cast keeps_bind)
  show "keeps a (appendOfflineEnvelopeLocked D wire c)"
    unfolding appendOfflineEnvelopeLocked_def using assms by (auto split: sum.split intro: keeps_intros)
  show "keeps a (snd (persistCoordStateLocked D c))"
    unfolding persistCoordStateLocked_def Let_def using assms by (intro keeps_prim)
  show "keeps a (snd (persistCurrentEpochStateLocked D s c))"
    unfolding persistCurrentEpochStateLocked_def Let_def using assms
    by (auto split: prod.split intro!: keeps_prim dest: keeps_bind)
  show "keeps a (snd (saveCurrentGroupStateLocked D now c))"
    unfolding saveCurrentGroupStateLocked_def using assms
    by (auto split: prod.split sum.split intro!: keeps_prim intro: keeps_bind)
  show "keeps a (updateLocalAccessRevocationLocked D s e c)"
    unfolding updateLocalAccessRevocationLocked_def using assms
    by (auto split: prod.split sum.split bool.split intro!: keeps_prim keeps_field intro: keeps_bind)
qed

lemma keeps_bind_helpers:
  "persistCoordStateLocked D c = (r, c') \<Longrightarrow> keeps a c \<Longrightarrow> keeps a c'"
  "persistCurrentEpochStateLocked D s c = (r, c') \<Longrightarrow> keeps a c \<Longrightarrow> keeps a c'"
  "saveCurrentGroupStateLocked D now c = (r, c') \<Longrightarrow> keeps a c \<Longrightarrow> keeps a c'"
  "sealPayload D p key c = (r2, c') \<Longrightarrow> keeps a c \<Longrightarrow> keeps a c'"
  "newTraceID D c = (t, c') \<Longrightarrow> keeps a c \<Longrightarrow> keeps a c'"
  using keeps_helpers by (metis snd_conv)+

section \<open>The invariant of a started coordinator\<close>

text \<open>
  The components agree on the epoch, the history chain has an entry for it, the fork detector announces
  it, and every component satisfies its own invariant.
\<close>

definition coord_ok :: "Deps \<Rightarrow> Coord \<Rightarrow> bool" where
  "coord_ok D c \<longleftrightarrow>
    c_historyHash c \<noteq> [] \<and> gget (c_historyChain c) (c_epoch c) = Some (c_historyHash c) \<and>
    view_ok (c_view c) \<and>
    (\<exists>sw. c_sw c = Some sw \<and> sw_ok sw \<and>
       writer_id sw = (d_localID D, c_epoch c, d_cfg D, d_groupID D, d_authorized D)) \<and>
    (\<exists>et. c_et c = Some et \<and> et_epoch et = c_epoch c \<and> tracker_ok et) \<and>
    (\<exists>ann. fd_local (c_fd c) = Some ann \<and> gsa_Epoch ann = c_epoch c \<and> gsa_HistoryHash ann = c_historyHash c)"

text \<open>
  \<open>advances D hs c c'\<close>: on the way from \<open>c\<close> to \<open>c'\<close> the commits with the hashes \<open>hs\<close> were applied, one epoch
  each, and nothing else touched the history.
\<close>

definition advances :: "Deps \<Rightarrow> bytes list \<Rightarrow> Coord \<Rightarrow> Coord \<Rightarrow> bool" where
  "advances D hs c c' \<longleftrightarrow>
    c_epoch c' = c_epoch c + of_nat (length hs) \<and>
    c_historyHash c' = foldl (computeHistoryHash D) (c_historyHash c) hs \<and>
    (\<forall>e. e \<notin> (\<lambda>i. c_epoch c + of_nat i) ` {1..length hs} \<longrightarrow>
       gget (c_historyChain c') e = gget (c_historyChain c) e) \<and>
    c_started c' = c_started c \<and> (c_accessRevoked c \<longrightarrow> c_accessRevoked c')"

definition hash_ok :: "Deps \<Rightarrow> bool" where
  "hash_ok D \<longleftrightarrow> (\<forall>x. length (d_sha256 D x) = 32)"

definition evolves :: "Deps \<Rightarrow> Coord \<Rightarrow> Coord \<Rightarrow> bool" where
  "evolves D c c' \<longleftrightarrow> (hash_ok D \<longrightarrow> coord_ok D c \<longrightarrow> coord_ok D c' \<and> (\<exists>hs. advances D hs c c'))"

lemma advances_Nil: "advances D [] c c"
  by (simp add: advances_def)

lemma advances_trans:
  assumes "advances D xs a b" "advances D ys b c"
  shows "advances D (xs @ ys) a c"
proof -
  have "gget (c_historyChain c) e = gget (c_historyChain a) e"
    if e: "e \<notin> (\<lambda>i. c_epoch a + of_nat i) ` {1..length (xs @ ys)}" for e
  proof -
    have "e \<notin> (\<lambda>i. c_epoch a + of_nat i) ` {1..length xs}" using e by auto
    moreover have "e \<notin> (\<lambda>i. c_epoch b + of_nat i) ` {1..length ys}"
    proof
      assume "e \<in> (\<lambda>i. c_epoch b + of_nat i) ` {1..length ys}"
      then obtain i where i: "i \<in> {1..length ys}" "e = c_epoch b + of_nat i" by auto
      then have "e = c_epoch a + of_nat (length xs + i)" using assms(1) by (simp add: advances_def)
      moreover have "length xs + i \<in> {1..length (xs @ ys)}" using i by auto
      ultimately show False using e by blast
    qed
    ultimately show ?thesis using assms by (simp add: advances_def)
  qed
  then show ?thesis using assms by (auto simp: advances_def)
qed

lemma evolves_refl [simp]: "evolves D c c"
  using advances_Nil by (auto simp: evolves_def)

lemma evolves_trans: "evolves D a b \<Longrightarrow> evolves D b c \<Longrightarrow> evolves D a c"
  unfolding evolves_def by (blast intro: advances_trans)

lemma keeps_coord_ok: "keeps c c' \<Longrightarrow> coord_ok D c \<Longrightarrow> coord_ok D c'"
  by (auto simp: keeps_def coord_ok_def writer_ok_def map_option_case split: option.splits)

lemma keeps_evolves: "keeps c c' \<Longrightarrow> evolves D c c'"
  using keeps_coord_ok [of c c' D] by (auto simp: evolves_def keeps_def advances_def intro: exI [of _ "[]"])

lemma buffer_evolves: "evolves D c (on_tracker (BufferFuture e wire) c)"
proof -
  have "coord_ok D (on_tracker (BufferFuture e wire) c)" if ok: "coord_ok D c"
  proof -
    obtain et where "c_et c = Some et" "et_epoch et = c_epoch c" "tracker_ok et"
      using ok by (auto simp: coord_ok_def)
    then show ?thesis
      using ok by (simp add: coord_ok_def on_tracker_def tracker_ok_Buffer)
  qed
  then show ?thesis
    by (auto simp: evolves_def advances_def on_tracker_def intro: exI [of _ "[]"])
qed

lemma view_evolves: "(view_ok (c_view c) \<Longrightarrow> view_ok av) \<Longrightarrow> evolves D c (c\<lparr>c_view := av\<rparr>)"
  by (auto simp: evolves_def coord_ok_def advances_def intro!: exI [of _ "[]"])

section \<open>Samples\<close>

definition sample_engine :: MLSEngine where
  "sample_engine = \<lparr>
     mls_CreateGroup = (\<lambda>n gid key past. Inr ([1], [2])),
     mls_CreateProposal = (\<lambda>n s t d. Inr \<lparr>cpr_ProposalBytes = d, cpr_ProposalRef = [7], cpr_NewGroupState = 3 # s\<rparr>),
     mls_ProcessProposal = (\<lambda>n s d. Inr \<lparr>ppr_ProposalRef = [7], ppr_ProposalType = '''', ppr_NewGroupState = 3 # s\<rparr>),
     mls_CreateCommit = (\<lambda>n s refs. Inr \<lparr>ccr_CommitBytes = [5], ccr_WelcomeBytes = [6], ccr_GroupInfo = [],
        ccr_CommittedProposalRefs = refs, ccr_NewGroupState = [4], ccr_NewTreeHash = [8]\<rparr>),
     mls_StageCommit = (\<lambda>n s commit ps. Inr \<lparr>scr_Epoch = 0, scr_ProposalRefs = [], scr_ProposalTypes = []\<rparr>),
     mls_ProcessCommit = (\<lambda>n s commit ps. Inr ([4], [8])),
     mls_ProcessWelcome = (\<lambda>n w key priv past. Inr ([4], [8], 9)),
     mls_GenerateKeyPackage = (\<lambda>n key. Inr ([10], [11])),
     mls_HasMember = (\<lambda>n s i. Inr True),
     mls_EncryptMessage = (\<lambda>n s p. Inr (p, 9 # s)),
     mls_DecryptMessage = (\<lambda>n s p. Inr (p, 9 # s))\<rparr>"

definition sample_codecs :: Codecs where
  "sample_codecs = \<lparr>
     j_payload = (\<lambda>p. Some [1]), j_envelope = (\<lambda>e. Some [2, ucast (env_Epoch e)]), j_batch = (\<lambda>b. [3]), j_timestamp = (\<lambda>t. [4]),
     u_envelope = (\<lambda>b. Inl ErrDB), u_announce = (\<lambda>b. Inl ErrDB), u_proposal = (\<lambda>b. Inl ErrDB),
     u_commit = (\<lambda>b. Inr \<lparr>cm_CommitData = b, cm_WelcomeData = [], cm_NewTreeHash = [8], cm_AddDeliveries = [],
        cm_IncludedProposals = [], cm_CommittedProposalRefs = []\<rparr>),
     u_application = Inr, u_batched = Inr, u_ack = Inr, u_query = (\<lambda>b. Inl ErrDB), u_reply = (\<lambda>b. Inl ErrDB),
     u_batch = (\<lambda>b. Inl ErrDB), u_timestamp = (\<lambda>b. HLCTimestamp 0 0 '''')\<rparr>"

definition sample_deps :: Deps where
  "sample_deps = \<lparr>d_cfg = TestConfig, d_localID = ''A'', d_groupID = ''g'', d_signingKey = [1], d_authorized = None,
     d_onSyncRequired = False, d_mls = sample_engine, d_mlsAvailable = True, d_json = sample_codecs,
     d_sha256 = (\<lambda>b. replicate 32 (of_nat (length b))), d_pidString = (\<lambda>p. p), d_pidDecode = Some,
     d_seedPublic = (\<lambda>b. b), d_keyPublic = (\<lambda>b. b), d_gcmSeal = (\<lambda>n k p. Inr (p, [1])),
     d_gcmOpen = (\<lambda>k n p. Inr p), d_random = (\<lambda>n. Some [of_nat n]), d_connected = (\<lambda>n. []),
     d_errText = (\<lambda>e. ''error'')\<rparr>"

definition sample_node :: Coord where
  "sample_node = \<lparr>c_now = 1000000000, c_calls = 0, c_out = [], c_db = empty_db, c_hlc = NewHLC ''A'',
     c_metrics = NewMetrics, c_groupState = [1], c_treeHash = [2], c_lastCommitHash = [], c_historyHash = [9],
     c_historyChain = [(3, [9])], c_epoch = 3, c_view = NewActiveView TestConfig ''A'',
     c_sw = Some (SetAuthorizedCommitters ''g'' None (NewSingleWriter ''A'' 3 TestConfig)),
     c_et = Some (NewEpochTracker 3 [2]),
     c_fd = UpdateLocal \<lparr>gsa_TreeHash = [2], gsa_MemberCount = 1, gsa_Epoch = 3, gsa_CommitHash = [],
              gsa_HistoryHash = [9]\<rparr> NewForkDetector,
     c_proposalTimer = None, c_failoverTimer = None, c_nextTimer = 0, c_lastTokenHolder = ''A'',
     c_startedAt = 0, c_started = True, c_healing = False, c_accessRevoked = False, c_pending = [],
     c_syncRetryAttempts = 0, c_deferredForkEvent = None, c_mode = ModeLive, c_welcome = False\<rparr>"

lemma sample_node_ok: "coord_ok sample_deps sample_node"
  using view_run_ok [of "[]" TestConfig "''A''"]
  by (simp add: coord_ok_def sample_node_def sample_deps_def writer_id_def SetAuthorizedCommitters_def
      NewSingleWriter_def NewEpochTracker_def UpdateLocal_def NewForkDetector_def tracker_ok_def sw_ok_def gget_def)

lemma sample_hash_ok: "hash_ok sample_deps"
  by (simp add: hash_ok_def sample_deps_def)

end
