(* ===== verification/Application.thy ===== *)
theory Application
  imports Coordinator
begin

text \<open>
  Application messages: receiving and sending them, delivery receipts and retries
  (\<^verbatim>\<open>coordinator_application.go\<close>), the bookkeeping of replayed envelopes (\<^verbatim>\<open>coordinator_replay.go\<close>) and
  the batched replay of orphaned messages (\<^verbatim>\<open>coordinator_batch.go\<close>).
\<close>

section \<open>Results of replayed envelopes\<close>

text \<open>\<^verbatim>\<open>newReplayResultLocked\<close> is never given a nil envelope.\<close>

definition newReplayResultLocked :: "Deps \<Rightarrow> Envelope \<Rightarrow> bytes \<Rightarrow> Coord \<Rightarrow> ReplayEnvelopeResult" where
  "newReplayResultLocked D env wire c =
    \<lparr>rr_GroupID = env_GroupID env, rr_MsgType = env_Type env, rr_EnvelopeHash = hashEnvelope D wire,
     rr_State = '''', rr_Seq = 0, rr_MsgEpoch = env_Epoch env, rr_LocalEpoch = c_epoch c, rr_Error = '''',
     rr_Terminal = False, rr_CursorSafe = False, rr_Applied = False, rr_AlreadyApplied = False\<rparr>"

definition markReplayResultLocked :: "Deps \<Rightarrow> ReplayEnvelopeResult \<Rightarrow> Coord \<Rightarrow> Coord" where
  "markReplayResultLocked D result c =
    (if rr_EnvelopeHash result = [] \<or> rr_State result = '''' then c
     else snd (on_db (MarkEnvelopeReplayState (d_groupID D) (rr_EnvelopeHash result) (rr_State result)
                  (rr_Error result) (c_now c)) c))"

definition checkAppliedEnvelopeLocked :: "Deps \<Rightarrow> Envelope \<Rightarrow> bytes \<Rightarrow> Coord \<Rightarrow> (bytes \<times> bool) \<times> Coord" where
  "checkAppliedEnvelopeLocked D env wire c =
    (if wire = [] \<or> (env_Type env \<noteq> MsgCommit \<and> env_Type env \<noteq> MsgApplication) then (([], False), c)
     else let envelopeHash = hashEnvelope D wire in
       case on_db (HasAppliedEnvelope (d_groupID D) envelopeHash) c of
         (Inl _, c1) \<Rightarrow> ((envelopeHash, False), c1)
       | (Inr applied, c1) \<Rightarrow> ((envelopeHash, applied), c1))"

definition duplicate_result :: "ReplayEnvelopeResult \<Rightarrow> ReplayEnvelopeResult" where
  "duplicate_result r = r\<lparr>rr_State := ReplayStateDuplicateApplied, rr_AlreadyApplied := True,
     rr_CursorSafe := True, rr_Terminal := True\<rparr>"

definition stale_result :: "ReplayEnvelopeResult \<Rightarrow> ReplayEnvelopeResult" where
  "stale_result r = r\<lparr>rr_State := ReplayStateStaleEpoch, rr_Terminal := True, rr_CursorSafe := True\<rparr>"

definition applied_result :: "ReplayEnvelopeResult \<Rightarrow> ReplayEnvelopeResult" where
  "applied_result r = r\<lparr>rr_State := ReplayStateApplied, rr_Applied := True, rr_CursorSafe := True,
     rr_Terminal := True\<rparr>"

definition failed_result :: "ReplayEnvelopeState \<Rightarrow> string \<Rightarrow> bool \<Rightarrow> ReplayEnvelopeResult \<Rightarrow> ReplayEnvelopeResult" where
  "failed_result state err terminal r = r\<lparr>rr_State := state, rr_Error := err, rr_Terminal := terminal\<rparr>"

definition finish :: "Deps \<Rightarrow> ReplayEnvelopeResult \<Rightarrow> Coord \<Rightarrow> ReplayEnvelopeResult \<times> Coord" where
  "finish D r c = (r, markReplayResultLocked D r c)"

section \<open>Receiving an application message\<close>

definition ensure_tracker :: "Coord \<Rightarrow> Coord" where
  "ensure_tracker c =
    (case c_et c of None \<Rightarrow> c\<lparr>c_et := Some (NewEpochTracker (c_epoch c) (c_treeHash c))\<rparr> | Some _ \<Rightarrow> c)"

text \<open>
  The age limit on messages of past epochs, measured from the first time this node saw the envelope.
\<close>

definition within_retention :: "Deps \<Rightarrow> bytes \<Rightarrow> Coord \<Rightarrow> bool \<times> Coord" where
  "within_retention D envelopeHash c =
    (let (rec, c1) = on_db (GetEnvelope envelopeHash) c;
         firstSeenMs = (case rec of
             Inr (Some r) \<Rightarrow> if er_FirstSeenAtMs r > 0 then er_FirstSeenAtMs r else nowMs c
           | _ \<Rightarrow> nowMs c);
         maxPastAgeSeconds = GetMaxPastAgeSeconds (d_cfg D);
         ageSeconds = max 0 (go_div (wrap64 (nowMs c - firstSeenMs)) 1000)
     in (\<not> (maxPastAgeSeconds > 0 \<and> ageSeconds > maxPastAgeSeconds), c1))"

definition in_past_window :: "Deps \<Rightarrow> Envelope \<Rightarrow> Coord \<Rightarrow> bool" where
  "in_past_window D env c \<longleftrightarrow> env_Epoch env + ucast (GetMaxPastEpochs (d_cfg D)) \<ge> c_epoch c"

definition application_action :: "Deps \<Rightarrow> bool \<Rightarrow> Envelope \<Rightarrow> bytes \<Rightarrow> Coord \<Rightarrow> EpochAction \<times> Coord" where
  "application_action D windowed env envelopeHash c =
    (let action = Validate_et (env_Epoch env) (the (c_et c)) in
     if action = ActionRejectStale \<and> windowed \<and> in_past_window D env c
     then let (ok, c1) = within_retention D envelopeHash c
          in (if ok then ActionProcess else action, c1)
     else (action, c))"

definition named_ts :: "Deps \<Rightarrow> HLCTimestamp \<Rightarrow> HLCTimestamp" where
  "named_ts D ts =
    (if NodeID ts = '''' then HLCTimestamp (WallTimeMs ts) (Counter ts) (d_pidString D (d_localID D)) else ts)"

definition state_record :: "Deps \<Rightarrow> bytes \<Rightarrow> u64 \<Rightarrow> bytes \<Rightarrow> time \<Rightarrow> GroupRecord" where
  "state_record D state epoch treeHash now =
    \<lparr>gr_GroupID = d_groupID D, gr_GroupState = state, gr_Epoch = epoch, gr_TreeHash = treeHash,
     gr_MyRole = '''', gr_GroupType = '''', gr_CategoryID = '''', gr_DMCounterpartyPeerID = '''',
     gr_CreatedAt = zero_time, gr_UpdatedAt = now\<rparr>"

definition new_message ::
  "Deps \<Rightarrow> u64 \<Rightarrow> peer_id \<Rightarrow> bytes \<Rightarrow> HLCTimestamp \<Rightarrow> string \<Rightarrow> bytes \<Rightarrow> StoredMessage" where
  "new_message D epoch sender content ts echo hash =
    \<lparr>sm_MessageID = '''', sm_GroupID = d_groupID D, sm_Epoch = epoch, sm_SenderID = sender,
     sm_Content = content, sm_Timestamp = ts, sm_LocalEchoToken = echo, sm_EnvelopeHash = hash,
     sm_CommentCount = 0, sm_ReplayedAt = None, sm_SupersedesMessageID = ''''\<rparr>"

definition apply_application ::
  "Deps \<Rightarrow> GroupRecord \<Rightarrow> StoredMessage \<Rightarrow> MessageType \<Rightarrow> bytes \<Rightarrow> HLCTimestamp \<Rightarrow> u64 \<Rightarrow> Coord
    \<Rightarrow> ((error + bool \<times> int) \<times> StoredMessage) \<times> Coord" where
  "apply_application D rec msg msgType wire ts envEpoch c = on_db (\<lambda>db.
    (let (r, m, db') = ApplyApplication (d_sha256 D) (d_pidString D) (c_now c) rec msg msgType wire ts envEpoch db
     in ((r, m), db'))) c"

definition sendDeliveryAckLocked :: "Deps \<Rightarrow> peer_id \<Rightarrow> bytes \<Rightarrow> Coord \<Rightarrow> Coord" where
  "sendDeliveryAckLocked D to envelopeHash c =
    (if to = '''' \<or> to = d_localID D \<or> envelopeHash = [] then c
     else let (ts, c1) = hlc_now c;
              envBytes = buildEnvelopeWithEpochAndTimestampLocked D MsgDeliveryAck
                           (DeliveryAckMsg envelopeHash) (c_epoch c1) ts
          in if envBytes = [] then c1 else emit (SendDirect to envBytes) c1)"

definition receive_plaintext ::
  "Deps \<Rightarrow> peer_id \<Rightarrow> Envelope \<Rightarrow> bytes \<Rightarrow> bytes \<Rightarrow> ReplayEnvelopeResult \<Rightarrow> HLCTimestamp \<Rightarrow> bytes \<Rightarrow> bytes \<Rightarrow> Coord
    \<Rightarrow> ReplayEnvelopeResult \<times> Coord" where
  "receive_plaintext D from env wire envelopeHash result localTs plaintext newState c =
    (let sender = decodeEnvelopePeerID D (env_From env) from;
         msg = new_message D (env_Epoch env) sender plaintext localTs '''' envelopeHash;
         rec = state_record D newState (c_epoch c) (c_treeHash c) (c_now c)
     in case apply_application D rec msg (env_Type env) wire (env_Timestamp env) (env_Epoch env) c of
          ((Inl err, _), c1) \<Rightarrow> finish D (failed_result ReplayStatePersistFailed (d_errText D err) False result) c1
        | ((Inr (False, _), _), c1) \<Rightarrow> finish D (duplicate_result result) c1
        | ((Inr (True, _), msg'), c1) \<Rightarrow>
            finish D (applied_result result)
              (sendDeliveryAckLocked D sender envelopeHash
                 (emit (OnMessage msg') (c1\<lparr>c_groupState := newState\<rparr>))))"

definition decrypt_application ::
  "Deps \<Rightarrow> peer_id \<Rightarrow> Envelope \<Rightarrow> bytes \<Rightarrow> bytes \<Rightarrow> ReplayEnvelopeResult \<Rightarrow> Coord \<Rightarrow> ReplayEnvelopeResult \<times> Coord" where
  "decrypt_application D from env wire envelopeHash result c =
    (case u_application (d_json D) (env_Payload env) of
       Inl err \<Rightarrow> finish D (failed_result ReplayStateInvalid (d_errText D err) True result) c
     | Inr ciphertext \<Rightarrow>
        (case hlc_update (env_Timestamp env) c of
           (Inl err, c1) \<Rightarrow> finish D (failed_result ReplayStateInvalid (''hlc: '' @ d_errText D err) True result) c1
         | (Inr ts, c1) \<Rightarrow>
            if \<not> d_mlsAvailable D
            then finish D (failed_result ReplayStateDecryptFailed ''crypto engine not available'' True result) c1
            else case engine (\<lambda>n. mls_DecryptMessage (d_mls D) n (c_groupState c1) ciphertext) c1 of
                (Inl err, c2) \<Rightarrow> finish D (failed_result ReplayStateDecryptFailed (d_errText D err) True result) c2
              | (Inr (plaintext, newState), c2) \<Rightarrow>
                  receive_plaintext D from env wire envelopeHash result (named_ts D ts) plaintext newState c2))"

definition handleApplicationDetailedLocked ::
  "Deps \<Rightarrow> peer_id \<Rightarrow> Envelope \<Rightarrow> bytes \<Rightarrow> Coord \<Rightarrow> ReplayEnvelopeResult \<times> Coord" where
  "handleApplicationDetailedLocked D from env wire c =
    (let ((envelopeHash, alreadyApplied), c1) = checkAppliedEnvelopeLocked D env wire c;
         result = (newReplayResultLocked D env wire c)\<lparr>rr_EnvelopeHash := envelopeHash\<rparr>
     in if alreadyApplied then finish D (duplicate_result result) c1
        else let c2 = ensure_tracker c1;
                 (action, c3) = application_action D (env_Type env = MsgApplication) env envelopeHash c2
             in case action of
                  ActionRejectStale \<Rightarrow> finish D (stale_result result) c3
                | ActionBufferFuture \<Rightarrow>
                    finish D (result\<lparr>rr_State := ReplayStateFutureEpoch\<rparr>)
                      (on_tracker (BufferFuture (env_Epoch env) wire) c3)
                | ActionProcess \<Rightarrow> decrypt_application D from env wire envelopeHash result c3)"

definition handleApplicationLocked :: "Deps \<Rightarrow> peer_id \<Rightarrow> Envelope \<Rightarrow> bytes \<Rightarrow> Coord \<Rightarrow> bool \<times> Coord" where
  "handleApplicationLocked D from env wire c =
    (let (r, c1) = handleApplicationDetailedLocked D from env wire c in (rr_Applied r, c1))"

section \<open>Sending an application message\<close>

definition pendingAppDeliveryKey :: "Deps \<Rightarrow> peer_id \<Rightarrow> bytes \<Rightarrow> string" where
  "pendingAppDeliveryKey D pid envelopeHash = d_pidString D pid @ ''|'' @ hex envelopeHash"

definition add_recipient :: "Deps \<Rightarrow> peer_id \<Rightarrow> peer_id list \<Rightarrow> peer_id list" where
  "add_recipient D pid out =
    (if pid = '''' \<or> pid = d_localID D then out
     else if d_pidString D pid \<in> set (map (d_pidString D) out) then out
     else out @ [pid])"

definition applicationRecipientsLocked :: "Deps \<Rightarrow> Coord \<Rightarrow> peer_id list \<times> Coord" where
  "applicationRecipientsLocked D c =
    (let out = fold (add_recipient D) (Members (c_view c)) [] in
     if out \<noteq> [] then (out, c)
     else let (ps, c1) = engine (d_connected D) c in (fold (add_recipient D) ps [], c1))"

definition track_recipient :: "Deps \<Rightarrow> bytes \<Rightarrow> bytes \<Rightarrow> peer_id \<Rightarrow> Coord \<Rightarrow> Coord" where
  "track_recipient D envBytes envelopeHash pid c =
    (let key = pendingAppDeliveryKey D pid envelopeHash in
     if ghas (c_pending c) key then c
     else emit (WatchAck pid envelopeHash)
            (c\<lparr>c_pending := gput key \<lparr>pd_peerID = pid, pd_envelopeHash = hex envelopeHash,
                 pd_envelope = envBytes, pd_attempts = 0\<rparr> (c_pending c)\<rparr>))"

definition trackPendingApplicationDeliveriesLocked :: "Deps \<Rightarrow> bytes \<Rightarrow> bytes \<Rightarrow> Coord \<Rightarrow> Coord" where
  "trackPendingApplicationDeliveriesLocked D envBytes envelopeHash c =
    (if envBytes = [] \<or> envelopeHash = [] \<or> ApplicationDirectRetryLimit (d_cfg D) = 0 then c
     else let (recipients, c1) = applicationRecipientsLocked D c
          in fold (track_recipient D envBytes envelopeHash) recipients c1)"

definition send_ciphertext ::
  "Deps \<Rightarrow> bytes \<Rightarrow> string \<Rightarrow> HLCTimestamp \<Rightarrow> bytes \<Rightarrow> bytes \<Rightarrow> Coord \<Rightarrow> (error + HLCTimestamp) \<times> Coord" where
  "send_ciphertext D plaintext localEchoToken ts ciphertext newState c =
    (let envBytes = buildEnvelopeWithTimestampLocked D MsgApplication (ApplicationMsg ciphertext) ts c in
     if envBytes = [] then (Inl (ErrMsg ''encode envelope''), c)
     else
       let envelopeHash = hashEnvelope D envBytes;
           msg = new_message D (c_epoch c) (d_localID D) plaintext ts localEchoToken envelopeHash;
           rec = state_record D newState (c_epoch c) (c_treeHash c) (c_now c)
       in case apply_application D rec msg MsgApplication envBytes ts (c_epoch c) c of
            ((Inl err, _), c1) \<Rightarrow> (Inl (ErrWrap ''persist application: '' err), c1)
          | ((Inr (False, _), _), c1) \<Rightarrow> (Inl (ErrMsg ''application envelope already applied''), c1)
          | ((Inr (True, _), msg'), c1) \<Rightarrow>
              (Inr ts, emit (OnMessage msg')
                 (trackPendingApplicationDeliveriesLocked D envBytes envelopeHash
                   (publishPreparedEnvelopeLocked MsgApplication envBytes (c1\<lparr>c_groupState := newState\<rparr>)))))"

definition sendMessage :: "Deps \<Rightarrow> bytes \<Rightarrow> string \<Rightarrow> Coord \<Rightarrow> (error + HLCTimestamp) \<times> Coord" where
  "sendMessage D plaintext localEchoToken c =
    (if c_healing c then (Inl (ErrMsg ''fork healing in progress''), c)
     else if \<not> c_started c then (Inl (ErrMsg ''coordinator not started''), c)
     else
       let c1 = updateLocalAccessRevocationLocked D (c_groupState c) (c_epoch c) c in
       if c_accessRevoked c1 then (Inl ErrAccessRevoked, c1)
       else
         let (ts0, c2) = hlc_now c1; ts = named_ts D ts0 in
         if \<not> d_mlsAvailable D then (Inl (ErrMsg ''crypto engine not available''), c2)
         else case engine (\<lambda>n. mls_EncryptMessage (d_mls D) n (c_groupState c2) plaintext) c2 of
             (Inl err, c3) \<Rightarrow> (Inl (ErrWrap ''encrypt: '' err), c3)
           | (Inr (ciphertext, newState), c3) \<Rightarrow> send_ciphertext D plaintext localEchoToken ts ciphertext newState c3)"

section \<open>Delivery receipts\<close>

definition handleDeliveryAckLocked :: "Deps \<Rightarrow> peer_id \<Rightarrow> Envelope \<Rightarrow> Coord \<Rightarrow> Coord" where
  "handleDeliveryAckLocked D from env c =
    (case u_ack (d_json D) (env_Payload env) of
       Inl _ \<Rightarrow> c
     | Inr envelopeHash \<Rightarrow>
        if envelopeHash = [] then c
        else c\<lparr>c_pending := gdel (pendingAppDeliveryKey D from envelopeHash) (c_pending c)\<rparr>)"

text \<open>One round of \<^verbatim>\<open>applicationAckWatchLoop\<close> after its timeout; the loop goes on while the answer is true.\<close>

definition applicationAckWatch :: "Deps \<Rightarrow> peer_id \<Rightarrow> bytes \<Rightarrow> Coord \<Rightarrow> bool \<times> Coord" where
  "applicationAckWatch D pid envelopeHash c =
    (let key = pendingAppDeliveryKey D pid envelopeHash in
     case gget (c_pending c) key of
       None \<Rightarrow> (False, c)
     | Some p \<Rightarrow>
        if pd_attempts p \<ge> ApplicationDirectRetryLimit (d_cfg D) then (False, c)
        else (True, emit (SendDirect pid (pd_envelope p))
               (c\<lparr>c_pending := gput key (p\<lparr>pd_attempts := pd_attempts p + 1\<rparr>) (c_pending c)\<rparr>)))"

definition RetryOutstandingDeliveriesTo :: "Deps \<Rightarrow> peer_id \<Rightarrow> Coord \<Rightarrow> Coord" where
  "RetryOutstandingDeliveriesTo D pid c =
    (if pid = '''' \<or> pid = d_localID D then c
     else fold (\<lambda>p. emit (SendDirect pid (pd_envelope p)))
            (filter (\<lambda>p. pd_peerID p = pid) (map snd (c_pending c))) c)"

section \<open>Batched replay of orphaned messages\<close>

definition save_event :: "ApplicationEvent \<Rightarrow> Coord \<Rightarrow> Coord" where
  "save_event ev c = snd (on_db (SaveApplicationEvent ev) c)"

definition replayed_event :: "Deps \<Rightarrow> ApplicationEvent \<Rightarrow> Coord \<Rightarrow> Coord" where
  "replayed_event D ev c =
    (let c1 = save_event (ev\<lparr>ae_Status := ''REPLAYED'', ae_ReplayedAtMs := nowMs c\<rparr>) c in
     if ae_EnvelopeHash ev = [] then c1
     else snd (on_db (MarkMessageReplayed (d_groupID D) (ae_EnvelopeHash ev) (c_now c1)) c1))"

definition broadcastBatchedOutboundReplay ::
  "Deps \<Rightarrow> OutboundReplay \<Rightarrow> ApplicationEvent list \<Rightarrow> Coord \<Rightarrow> (error + unit) \<times> Coord" where
  "broadcastBatchedOutboundReplay D outbound evs c =
    (let c1 = publishPreparedEnvelopeLocked MsgApplicationBatched (or_ReplayEnvelope outbound)
                (appendOfflineEnvelopeLocked D (or_ReplayEnvelope outbound) c)
     in case on_db (SaveOutboundReplay (outbound\<lparr>or_Status := ''BROADCASTED'', or_UpdatedAtMs := nowMs c1\<rparr>)) c1 of
          (Inl err, c2) \<Rightarrow> (Inl err, c2)
        | (Inr _, c2) \<Rightarrow> (Inr (), fold (replayed_event D) evs c2))"

definition collect_event ::
  "Deps \<Rightarrow> bytes \<Rightarrow> ApplicationEvent \<Rightarrow> (ApplicationEventPayload \<times> ApplicationEvent) list \<times> Coord
    \<Rightarrow> (ApplicationEventPayload \<times> ApplicationEvent) list \<times> Coord" where
  "collect_event D storageKey ev = (\<lambda>(batch, c).
    if ae_AuthorID ev \<noteq> d_pidString D (d_localID D)
    then (batch, save_event (ev\<lparr>ae_Status := ''WAITING_AUTHOR_REPLAY'', ae_PayloadSealed := [],
                    ae_SealNonce := [], ae_SealKeyID := ''''\<rparr>) c)
    else if ae_Status ev = ''ORPHANED_OWN'' \<or> ae_Status ev = ''REPLAY_PENDING'' then
      (if ae_PayloadSealed ev = [] \<or> ae_SealNonce ev = []
       then (batch, save_event (ev\<lparr>ae_Status := ''WAITING_AUTHOR_REPLAY''\<rparr>) c)
       else
         let ev1 = ev\<lparr>ae_Status := ''REPLAY_PENDING'', ae_ReplayAttemptCount := ae_ReplayAttemptCount ev + 1\<rparr>;
             c1 = save_event ev1 c
         in case openPayload D (ae_PayloadSealed ev1) (ae_SealNonce ev1) storageKey of
              Inr plaintext \<Rightarrow>
                (batch @ [(\<lparr>ap_EventID = ae_EventID ev1, ap_Plaintext = plaintext,
                    ap_HLC = j_timestamp (d_json D)
                      (HLCTimestamp (ae_HlcWallTimeMs ev1) (ae_HlcCounter ev1) (ae_HlcNodeID ev1))\<rparr>, ev1)], c1)
            | Inl err \<Rightarrow>
                (batch, save_event (ev1\<lparr>ae_Status := ''REPLAY_FAILED'', ae_LastError := d_errText D err\<rparr>) c1))
    else (batch, c))"

fun chunks :: "nat \<Rightarrow> 'a list \<Rightarrow> 'a list list" where
  "chunks k [] = []"
| "chunks k (x # xs) = (x # take (k - 1) xs) # chunks k (drop (k - 1) xs)"

definition replay_chunk ::
  "Deps \<Rightarrow> string \<Rightarrow> string \<Rightarrow> nat \<times> (ApplicationEventPayload \<times> ApplicationEvent) list \<Rightarrow> int \<times> Coord \<Rightarrow> int \<times> Coord" where
  "replay_chunk D jobID groupID = (\<lambda>(i, chunk) (replayedCount, c).
    (let evs = map snd chunk;
         batchBytes = j_batch (d_json D) (map fst chunk)
     in case engine (\<lambda>n. mls_EncryptMessage (d_mls D) n (c_groupState c) batchBytes) c of
          (Inl err, c1) \<Rightarrow>
            (replayedCount, fold (\<lambda>ev. save_event (ev\<lparr>ae_Status := ''REPLAY_FAILED'',
                              ae_LastError := d_errText D err\<rparr>)) evs c1)
        | (Inr (ciphertext, nextGroupState), c1) \<Rightarrow>
            let (ts, c2) = hlc_now c1;
                envBytes = buildEnvelopeWithTimestampLocked D MsgApplicationBatched
                             (BatchedApplicationMsg ciphertext) ts c2;
                c3 = snd (saveCurrentGroupStateLocked D (c_now c2) (c2\<lparr>c_groupState := nextGroupState\<rparr>));
                replayedHash = d_sha256 D envBytes;
                outbound = \<lparr>or_ReplayOperationID = hex replayedHash, or_EventID = ''BATCH-'' @ dec_digits i,
                   or_JobID = jobID, or_GroupID = groupID, or_ReplayEnvelope = envBytes,
                   or_ReplayedEnvelopeHash = replayedHash, or_Status = ''ENQUEUED'', or_AttemptCount = 1,
                   or_CreatedAtMs = nowMs c3, or_UpdatedAtMs = nowMs c3\<rparr>;
                c4 = snd (on_db (SaveOutboundReplay outbound) c3);
                evs' = map (\<lambda>ev. ev\<lparr>ae_ReplayOperationID := hex replayedHash,
                          ae_ReplayedEnvelopeHash := replayedHash, ae_Status := ''REPLAY_ENQUEUED''\<rparr>) evs;
                c5 = fold save_event evs' c4
            in case broadcastBatchedOutboundReplay D outbound evs' c5 of
                 (Inl _, c6) \<Rightarrow> (replayedCount, c6)
               | (Inr _, c6) \<Rightarrow> (replayedCount + int (length evs'), c6)))"

definition MaxBatchSize :: nat where "MaxBatchSize = 50"

definition batchAndReplayOutbox :: "Deps \<Rightarrow> string \<Rightarrow> string \<Rightarrow> Coord \<Rightarrow> int \<times> Coord" where
  "batchAndReplayOutbox D jobID groupID c =
    (case on_db (ListApplicationEvents jobID) c of
       (Inl _, c1) \<Rightarrow> (0, c1)
     | (Inr events, c1) \<Rightarrow>
        let (batch, c2) = fold (collect_event D (deriveStorageKey D (d_signingKey D))) events ([], c1) in
        if batch = [] then (0, c2)
        else fold (replay_chunk D jobID groupID) (enumerate 0 (chunks MaxBatchSize batch)) (0, c2))"

text \<open>
  The goroutine of \<^verbatim>\<open>triggerBatchReplayAsync\<close> runs \<^const>\<open>batchAndReplayOutbox\<close> for a job named after the
  time it starts at; \<open>batch_replay_job\<close> is that name.
\<close>

definition triggerBatchReplayAsync :: "string \<Rightarrow> Coord \<Rightarrow> Coord" where
  "triggerBatchReplayAsync groupID = emit (StartBatchReplay groupID)"

definition batch_replay_job :: "string \<Rightarrow> time \<Rightarrow> string" where
  "batch_replay_job groupID nanos =
    ''WINNER-REPLAY-'' @ groupID @ ''-'' @ (if nanos < 0 then ''-'' else '''') @ dec_digits (nat \<bar>nanos\<bar>)"

section \<open>Receiving a batch\<close>

definition receive_batched_event ::
  "Deps \<Rightarrow> Envelope \<Rightarrow> bytes \<Rightarrow> peer_id \<Rightarrow> bytes \<Rightarrow> ApplicationEventPayload \<Rightarrow> StoredMessage list \<times> Coord
    \<Rightarrow> StoredMessage list \<times> Coord" where
  "receive_batched_event D env envelopeHash sender storageKey p = (\<lambda>(msgs, c).
    (let localTs = u_timestamp (d_json D) (ap_HLC p);
         msg = new_message D (env_Epoch env) sender (ap_Plaintext p) localTs '''' envelopeHash;
         (sealed, c1) = sealPayload D (ap_Plaintext p) storageKey c;
         appEv = \<lparr>ae_EventID = ap_EventID p, ae_JobID = '''', ae_GroupID = d_groupID D,
           ae_OriginalBranchID = '''', ae_OriginalEpoch = env_Epoch env, ae_AuthorID = d_pidString D sender,
           ae_EnvelopeHash = [],
           ae_PayloadSealed = (case sealed of Inl _ \<Rightarrow> [] | Inr (s, _) \<Rightarrow> s),
           ae_PayloadHash = (case sealed of Inl _ \<Rightarrow> [] | Inr _ \<Rightarrow> d_sha256 D (ap_Plaintext p)),
           ae_SealKeyID = ''local_node_key'', ae_SealNonce = (case sealed of Inl _ \<Rightarrow> [] | Inr (_, n) \<Rightarrow> n),
           ae_HlcWallTimeMs = WallTimeMs localTs, ae_HlcCounter = Counter localTs,
           ae_HlcNodeID = NodeID localTs, ae_Status = ''DELIVERED'', ae_ReplayOperationID = '''',
           ae_ReplayedEnvelopeHash = [], ae_ReplayedAtMs = 0, ae_ReplayAttemptCount = 0, ae_LastError = '''',
           ae_CreatedAtMs = nowMs c, ae_UpdatedAtMs = 0\<rparr>
     in case on_db (SaveApplicationEvent appEv) c1 of
          (Inl _, c2) \<Rightarrow> (msgs @ [msg], c2)
        | (Inr _, c2) \<Rightarrow> (msgs @ [msg], emit (OnMessage msg) c2)))"

definition apply_batch ::
  "Deps \<Rightarrow> peer_id \<Rightarrow> Envelope \<Rightarrow> bytes \<Rightarrow> bytes \<Rightarrow> BatchedPlaintext \<Rightarrow> bytes \<Rightarrow> Coord \<Rightarrow> Coord" where
  "apply_batch D from env wire envelopeHash batch newState c =
    (let sender = decodeEnvelopePeerID D (env_From env) from;
         (msgs, c1) = fold (receive_batched_event D env envelopeHash sender (deriveStorageKey D (d_signingKey D)))
                        batch ([], c);
         c2 = snd (saveCurrentGroupStateLocked D (c_now c1) (c1\<lparr>c_groupState := newState\<rparr>))
     in snd (on_db (ApplyBatchedApplication (d_sha256 D) (d_pidString D) (c_now c2)
               (state_record D newState (c_epoch c2) (c_treeHash c2) (c_now c2))
               msgs (env_Type env) wire (env_Timestamp env) (env_Epoch env)) c2))"

definition handleApplicationBatchedLocked :: "Deps \<Rightarrow> peer_id \<Rightarrow> Envelope \<Rightarrow> bytes \<Rightarrow> Coord \<Rightarrow> bool \<times> Coord" where
  "handleApplicationBatchedLocked D from env wire c =
    (let ((envelopeHash, alreadyApplied), c1) = checkAppliedEnvelopeLocked D env wire c;
         result = (newReplayResultLocked D env wire c)\<lparr>rr_EnvelopeHash := envelopeHash\<rparr>
     in if alreadyApplied then (True, markReplayResultLocked D (duplicate_result result) c1)
        else
          let c2 = ensure_tracker c1;
              (action, c3) = application_action D True env envelopeHash c2
          in if action \<noteq> ActionProcess then (False, c3)
             else case u_batched (d_json D) (env_Payload env) of
                 Inl _ \<Rightarrow> (False, c3)
               | Inr ciphertext \<Rightarrow>
                  (case engine (\<lambda>n. mls_DecryptMessage (d_mls D) n (c_groupState c3) ciphertext) c3 of
                     (Inl _, c4) \<Rightarrow> (False, c4)
                   | (Inr (plaintext, newState), c4) \<Rightarrow>
                      (case u_batch (d_json D) plaintext of
                         Inl _ \<Rightarrow> (False, c4)
                       | Inr batch \<Rightarrow> (True, apply_batch D from env wire envelopeHash batch newState c4))))"

section \<open>The replay of a partition window\<close>

definition collectReplayWindowMessages ::
  "Deps \<Rightarrow> time \<Rightarrow> time \<Rightarrow> Coord \<Rightarrow> (error + StoredMessage list) \<times> Coord" where
  "collectReplayWindowMessages D partitionStart healStartedAt c =
    (if partitionStart = zero_time then (Inr [], c)
     else case on_db (GetMessagesByOwnerInRange (d_pidDecode D) (d_groupID D) (d_pidString D (d_localID D))
                        (UnixMilli partitionStart) (UnixMilli healStartedAt)) c of
         (Inl err, c1) \<Rightarrow> (Inl (ErrWrap ''GetMessagesByOwnerInRange: '' err), c1)
       | (Inr msgs, c1) \<Rightarrow> (Inr msgs, c1))"

text \<open>
  \<^verbatim>\<open>replayWindowMessages\<close> as one run of its loop; \<open>cancelled\<close> is the number of messages after which its
  context is done, if it ever is.
\<close>

fun replay_window ::
  "Deps \<Rightarrow> nat option \<Rightarrow> int \<Rightarrow> StoredMessage list \<Rightarrow> Coord \<Rightarrow> (int \<times> error option) \<times> Coord" where
  "replay_window D cancelled replayed [] c =
    (case saveCurrentGroupStateLocked D (c_now c) c of
       (Inl err, c1) \<Rightarrow> ((replayed, Some err), c1)
     | (Inr _, c1) \<Rightarrow> ((replayed, None), c1))"
| "replay_window D cancelled replayed (msg # window) c =
    (if cancelled = Some 0 then ((replayed, Some (ErrMsg ''context canceled'')), c)
     else case engine (\<lambda>n. mls_EncryptMessage (d_mls D) n (c_groupState c) (sm_Content msg)) c of
         (Inl err, c1) \<Rightarrow> ((replayed, Some (ErrWrap ''EncryptMessage replay: '' err)), c1)
       | (Inr (ciphertext, newState), c1) \<Rightarrow>
          let (ts, c2) = hlc_now c1;
              wire = buildEnvelopeWithTimestampLocked D MsgApplication (ApplicationMsg ciphertext) ts c2
          in if wire = [] then ((replayed, Some (ErrMsg ''encode replay application envelope'')), c2)
             else let c3 = appendOfflineEnvelopeLocked D wire
                             (publishPreparedEnvelopeLocked MsgApplication wire (c2\<lparr>c_groupState := newState\<rparr>));
                      c4 = (if sm_EnvelopeHash msg = [] then c3
                            else snd (on_db (MarkMessageReplayed (d_groupID D) (sm_EnvelopeHash msg) (c_now c3)) c3))
                  in replay_window D (map_option (\<lambda>k. k - 1) cancelled) (replayed + 1) window c4)"

definition replayWindowMessages ::
  "Deps \<Rightarrow> nat option \<Rightarrow> StoredMessage list \<Rightarrow> Coord \<Rightarrow> (int \<times> error option) \<times> Coord" where
  "replayWindowMessages D cancelled window c =
    (if window = [] then ((0, None), c) else replay_window D cancelled 0 window c)"

section \<open>Application messages stay on the epoch\<close>

lemma keeps_results [keeps_intros]:
  assumes "keeps a c"
  shows "keeps a (markReplayResultLocked D r c)" "keeps a (snd (finish D r c))"
    "keeps a (snd (checkAppliedEnvelopeLocked D env wire c))"
    "keeps a (snd (within_retention D h c))" "keeps a (snd (application_action D b env h c))"
    "keeps a (snd (apply_application D rec msg mt wire ts e c))" "keeps a (sendDeliveryAckLocked D p h c)"
proof -
  show m: "keeps a (markReplayResultLocked D r c)"
    unfolding markReplayResultLocked_def using assms by (auto intro: keeps_intros)
  then show "keeps a (snd (finish D r c))" by (simp add: finish_def)
  show "keeps a (snd (checkAppliedEnvelopeLocked D env wire c))"
    unfolding checkAppliedEnvelopeLocked_def Let_def using assms
    by (auto split: prod.split sum.split intro: keeps_bind)
  show w: "keeps a (snd (within_retention D h c))"
    unfolding within_retention_def Let_def using assms by (auto split: prod.split intro: keeps_bind)
  show "keeps a (snd (application_action D b env h c))"
    unfolding application_action_def Let_def using assms w by (auto split: prod.split)
  show "keeps a (snd (apply_application D rec msg mt wire ts e c))"
    unfolding apply_application_def using assms by (rule keeps_prim)
  show "keeps a (sendDeliveryAckLocked D p h c)"
    unfolding sendDeliveryAckLocked_def Let_def using assms
    by (auto split: prod.split intro: keeps_prim keeps_bind)
qed

lemma keeps_bind_results:
  "checkAppliedEnvelopeLocked D env wire c = (r, c') \<Longrightarrow> keeps a c \<Longrightarrow> keeps a c'"
  "application_action D b env h c = (r2, c') \<Longrightarrow> keeps a c \<Longrightarrow> keeps a c'"
  "apply_application D rec msg mt wire ts e c = (r3, c') \<Longrightarrow> keeps a c \<Longrightarrow> keeps a c'"
  using keeps_results by (metis snd_conv)+

lemma keeps_receive [keeps_intros]:
  "keeps a c \<Longrightarrow> keeps a (snd (receive_plaintext D from env wire h result ts pt s c))"
  unfolding receive_plaintext_def Let_def
  by (auto split: prod.split sum.split bool.split intro!: keeps_results keeps_prim keeps_field
      intro: keeps_bind_results)

lemma keeps_decrypt [keeps_intros]:
  "keeps a c \<Longrightarrow> keeps a (snd (decrypt_application D from env wire h result c))"
  unfolding decrypt_application_def
  by (auto split: prod.split sum.split bool.split intro!: keeps_results keeps_receive intro: keeps_bind)

lemma ensure_tracker_id [simp]: "c_et c = Some et \<Longrightarrow> ensure_tracker c = c"
  by (simp add: ensure_tracker_def)

text \<open>
  A handled application message leaves the epoch alone; at most it joins the buffer of a future epoch.
\<close>

definition keeps_or_buffers :: "u64 \<Rightarrow> bytes \<Rightarrow> Coord \<Rightarrow> Coord \<Rightarrow> bool" where
  "keeps_or_buffers e wire c c' \<longleftrightarrow> keeps c c' \<or>
    (\<exists>et. c_et c = Some et \<and> et_epoch et < e \<and> keeps (on_tracker (BufferFuture e wire) c) c')"

lemma keeps_or_buffers_evolves: "keeps_or_buffers e wire c c' \<Longrightarrow> evolves D c c'"
  unfolding keeps_or_buffers_def by (auto intro: keeps_evolves evolves_trans [OF buffer_evolves])

lemma keeps_tracker: "keeps a c \<Longrightarrow> keeps (on_tracker f a) (on_tracker f c)"
  by (auto simp: keeps_def on_tracker_def writer_ok_def)

lemma keeps_application:
  assumes et: "c_et c = Some et"
  shows "keeps_or_buffers (env_Epoch env) wire c (snd (handleApplicationDetailedLocked D from env wire c))"
proof -
  obtain h b c1 where ck: "checkAppliedEnvelopeLocked D env wire c = ((h, b), c1)" by (metis prod.exhaust)
  have k1: "keeps c c1" using ck by (auto intro: keeps_bind_results)
  then have et1: "c_et c1 = Some et" using et by (simp add: keeps_def)
  obtain act c3 where ac: "application_action D (env_Type env = MsgApplication) env h c1 = (act, c3)"
    by (metis prod.exhaust)
  have k3: "keeps c c3" using ac k1 by (auto intro: keeps_bind_results)
  have fut: "et_epoch et < env_Epoch env" if "act = ActionBufferFuture"
    using ac that et1
    by (auto simp: application_action_def Let_def Validate_et_def ValidateEpoch_def split: if_splits prod.splits)
  have "keeps (on_tracker (BufferFuture (env_Epoch env) wire) c)
      (markReplayResultLocked D r (on_tracker (BufferFuture (env_Epoch env) wire) c3))" for r
    using keeps_tracker [OF k3] by (intro keeps_results)
  then show ?thesis
    unfolding handleApplicationDetailedLocked_def ck Let_def
    using et et1 ac k1 k3 fut
    by (cases act) (auto simp: keeps_or_buffers_def finish_def intro: keeps_intros)
qed

lemma keeps_batched_event:
  "keeps a (snd acc) \<Longrightarrow> keeps a (snd (receive_batched_event D env h sender key p acc))"
  unfolding receive_batched_event_def Let_def
  by (simp add: case_prod_beta keeps_intros split: sum.split)

lemma keeps_apply_batch [keeps_intros]: "keeps a c \<Longrightarrow> keeps a (apply_batch D from env wire h batch s c)"
proof -
  assume k: "keeps a c"
  have "keeps a (snd (fold (receive_batched_event D env h sender key) ps acc))" if "keeps a (snd acc)" for sender key ps acc
    using that
  proof (induction ps arbitrary: acc)
    case (Cons p ps)
    then show ?case by (metis fold_simps(2) keeps_batched_event)
  qed simp
  from this [of "([], c)"] k show ?thesis
    unfolding apply_batch_def Let_def by (simp add: case_prod_beta keeps_intros)
qed

lemma keeps_application_batched:
  assumes et: "c_et c = Some et"
  shows "keeps c (snd (handleApplicationBatchedLocked D from env wire c))"
proof -
  obtain h b c1 where ck: "checkAppliedEnvelopeLocked D env wire c = ((h, b), c1)" by (metis prod.exhaust)
  have k1: "keeps c c1" using ck by (auto intro: keeps_bind_results)
  then have "ensure_tracker c1 = c1" using et by (simp add: keeps_def)
  then show ?thesis
    unfolding handleApplicationBatchedLocked_def ck Let_def using k1
    by (auto split: prod.split sum.split intro!: keeps_intros intro: keeps_bind keeps_bind_results)
qed

lemma keeps_sending [keeps_intros]:
  assumes "keeps a c"
  shows "keeps a (snd (applicationRecipientsLocked D c))"
    "keeps a (trackPendingApplicationDeliveriesLocked D wire h c)"
    "keeps a (snd (send_ciphertext D pt echo ts ct s c))"
    "keeps a (snd (sendMessage D pt echo c))"
    "keeps a (handleDeliveryAckLocked D from env c)"
    "keeps a (snd (applicationAckWatch D pid h c))"
    "keeps a (RetryOutstandingDeliveriesTo D pid c)"
proof -
  have r: "keeps a (snd (applicationRecipientsLocked D x))" if "keeps a x" for x
    unfolding applicationRecipientsLocked_def Let_def using that
    by (simp add: case_prod_beta keeps_intros)
  from assms show "keeps a (snd (applicationRecipientsLocked D c))" by (rule r)
  have t1: "keeps x (track_recipient D w g pid x)" for w g pid x
    unfolding track_recipient_def Let_def by (auto intro: keeps_intros)
  have t: "keeps a (trackPendingApplicationDeliveriesLocked D w g x)" if "keeps a x" for x w g
    unfolding trackPendingApplicationDeliveriesLocked_def Let_def using that
    by (simp add: case_prod_beta keeps_fold t1 r)
  from assms show "keeps a (trackPendingApplicationDeliveriesLocked D wire h c)" by (rule t)
  have s: "keeps a (snd (send_ciphertext D pt echo u v w x))" if "keeps a x" for x u v w
    unfolding send_ciphertext_def Let_def using that
    by (simp add: case_prod_beta keeps_intros t split: sum.split bool.split)
  from assms show "keeps a (snd (send_ciphertext D pt echo ts ct s c))" by (rule s)
  show "keeps a (snd (sendMessage D pt echo c))"
    unfolding sendMessage_def Let_def using assms
    by (simp add: case_prod_beta keeps_intros s split: sum.split)
  show "keeps a (handleDeliveryAckLocked D from env c)"
    unfolding handleDeliveryAckLocked_def using assms by (auto intro: keeps_intros split: sum.split)
  show "keeps a (snd (applicationAckWatch D pid h c))"
    unfolding applicationAckWatch_def Let_def using assms by (auto intro: keeps_intros split: option.split)
  show "keeps a (RetryOutstandingDeliveriesTo D pid c)"
    unfolding RetryOutstandingDeliveriesTo_def using assms by (auto intro!: keeps_fold keeps_prim)
qed

lemma keeps_save_event [keeps_intros]: "keeps a c \<Longrightarrow> keeps a (save_event ev c)"
  unfolding save_event_def by (rule keeps_prim)

lemma keeps_outbound [keeps_intros]:
  "keeps a c \<Longrightarrow> keeps a (snd (broadcastBatchedOutboundReplay D ob evs c))"
proof -
  have "keeps x (replayed_event D ev x)" for ev x
    unfolding replayed_event_def Let_def by (simp add: keeps_intros)
  then show "keeps a c \<Longrightarrow> keeps a (snd (broadcastBatchedOutboundReplay D ob evs c))"
    unfolding broadcastBatchedOutboundReplay_def Let_def
    by (simp add: case_prod_beta keeps_intros split: sum.split)
qed

lemma keeps_collect: "keeps a (snd acc) \<Longrightarrow> keeps a (snd (collect_event D key ev acc))"
  unfolding collect_event_def Let_def by (simp add: case_prod_beta keeps_intros split: sum.split)

lemma keeps_chunk: "keeps a (snd acc) \<Longrightarrow> keeps a (snd (replay_chunk D job gid ch acc))"
proof -
  assume k: "keeps a (snd acc)"
  have "keeps a (fold save_event evs x)" if "keeps a x" for evs x
    using that by (auto intro!: keeps_fold keeps_save_event)
  moreover have "keeps a (fold (\<lambda>ev. save_event (f ev)) evs x)" if "keeps a x" for f evs x
    using that by (auto intro!: keeps_fold keeps_save_event)
  ultimately show ?thesis
    unfolding replay_chunk_def Let_def using k by (simp add: case_prod_beta keeps_intros split: sum.split)
qed

lemma keeps_fold_acc:
  assumes "\<And>x acc. keeps a (snd acc) \<Longrightarrow> keeps a (snd (f x acc))" "keeps a (snd acc)"
  shows "keeps a (snd (fold f xs acc))"
  using assms(2)
proof (induction xs arbitrary: acc)
  case (Cons x xs)
  then show ?case by (metis fold_simps(2) assms(1))
qed simp

lemma keeps_outbox [keeps_intros]: "keeps a c \<Longrightarrow> keeps a (snd (batchAndReplayOutbox D job gid c))"
  unfolding batchAndReplayOutbox_def Let_def
  by (simp add: case_prod_beta keeps_intros keeps_fold_acc keeps_collect keeps_chunk split: sum.split)

section \<open>What an application message does\<close>

definition delivered :: "Coord \<Rightarrow> StoredMessage list" where
  "delivered c = List.map_filter (\<lambda>e. case e of OnMessage m \<Rightarrow> Some m | _ \<Rightarrow> None) (c_out c)"

definition db_facts :: "DB \<Rightarrow> (string, mls_group_row) gomap \<times> message_row list \<times> ((string \<times> bytes), (MessageType \<times> u64 \<times> int)) gomap" where
  "db_facts db = (db_groups db, db_messages db, db_applied db)"

text \<open>\<open>quiet c c'\<close>: the step changes neither the group's state, in memory or stored, nor what was delivered.\<close>

definition quiet :: "Coord \<Rightarrow> Coord \<Rightarrow> bool" where
  "quiet c c' \<longleftrightarrow> c_groupState c' = c_groupState c \<and> c_treeHash c' = c_treeHash c \<and>
    db_facts (c_db c') = db_facts (c_db c) \<and> delivered c' = delivered c"

lemma quiet_refl [simp]: "quiet c c"
  by (simp add: quiet_def)

lemma quiet_trans: "quiet a b \<Longrightarrow> quiet b c \<Longrightarrow> quiet a c"
  by (simp add: quiet_def)

lemma delivered_emit: "delivered (emit e c) = delivered c @ (case e of OnMessage m \<Rightarrow> [m] | _ \<Rightarrow> [])"
  by (cases e) (simp_all add: delivered_def emit_def map_filter_def)

lemma delivered_cong: "c_out c' = c_out c \<Longrightarrow> delivered c' = delivered c"
  by (simp add: delivered_def)

lemma facts_with_io:
  "(\<And>d. db_facts (snd (f d)) = db_facts d) \<Longrightarrow> db_facts (snd (with_io f db)) = db_facts db"
  by (rule with_io_cases [of f db]) (simp_all add: db_facts_def)

lemma facts_storage [simp]:
  "db_facts (snd (HasAppliedEnvelope gid h db)) = db_facts db"
  "db_facts (snd (GetEnvelope h db)) = db_facts db"
  "db_facts (snd (MarkEnvelopeReplayState gid h st err now db)) = db_facts db"
  "db_facts (unfaulted db) = db_facts db"
proof -
  show "db_facts (snd (HasAppliedEnvelope gid h db)) = db_facts db"
    by (simp add: HasAppliedEnvelope_def facts_with_io)
  show "db_facts (snd (GetEnvelope h db)) = db_facts db"
    unfolding GetEnvelope_def by (rule facts_with_io) simp
  show "db_facts (snd (MarkEnvelopeReplayState gid h st err now db)) = db_facts db"
  proof (cases "h = []")
    case False
    show ?thesis
      unfolding MarkEnvelopeReplayState_def if_not_P [OF False]
      by (rule facts_with_io) (simp add: markEnvelopeReplayStateTx_def db_facts_def)
  qed (simp add: MarkEnvelopeReplayState_def)
qed (simp add: db_facts_def)

lemma quiet_db: "db_facts (snd (f (c_db c))) = db_facts (c_db c) \<Longrightarrow> quiet c (snd (on_db f c))"
  by (simp add: quiet_def on_db_def delivered_def case_prod_beta)

lemma quiet_prims [simp]:
  "quiet c (snd (engine g c))" "quiet c (snd (hlc_now c))" "quiet c (snd (hlc_update ts c))"
  "quiet c (on_tracker f c)" "quiet c (ensure_tracker c)"
  by (simp_all add: quiet_def engine_def hlc_now_def hlc_update_def on_tracker_def ensure_tracker_def
      delivered_def split: prod.split option.split)

lemma quiet_mark: "quiet c (markReplayResultLocked D r c)"
  by (simp add: markReplayResultLocked_def quiet_db)

lemma quiet_check: "quiet c (snd (checkAppliedEnvelopeLocked D env wire c))"
proof -
  have "quiet c (snd (on_db (HasAppliedEnvelope g h) c))" for g h by (simp add: quiet_db)
  then show ?thesis
    unfolding checkAppliedEnvelopeLocked_def Let_def by (simp add: case_prod_beta split: sum.split)
qed

lemma quiet_action: "quiet c (snd (application_action D b env h c))"
  by (simp add: application_action_def within_retention_def Let_def case_prod_beta quiet_db)

lemma quiet_ack: "quiet c (sendDeliveryAckLocked D p h c)"
  unfolding sendDeliveryAckLocked_def Let_def
  by (auto simp: quiet_def delivered_emit hlc_now_def case_prod_beta emit_def delivered_def map_filter_def)

text \<open>The outcomes of the applying transaction, seen from the coordinator.\<close>

lemma apply_application_cases:
  assumes "apply_application D (state_record D s e th now) (new_message D me sender pt ts echo h) mt wire ts2 ee c =
    ((res, m'), c')"
  shows "(\<exists>seq. res = Inr (True, seq) \<and> \<not> ghas (db_applied (c_db c)) (d_groupID D, d_sha256 D wire) \<and>
      ghas (db_applied (c_db c')) (d_groupID D, d_sha256 D wire) \<and>
      (\<forall>k. ghas (db_applied (c_db c')) k \<longleftrightarrow> k = (d_groupID D, d_sha256 D wire) \<or> ghas (db_applied (c_db c)) k) \<and>
      m' = stamped_message (d_sha256 D wire) (new_message D me sender pt ts echo h) \<and>
      (\<exists>row. gget (db_groups (c_db c')) (d_groupID D) = Some row \<and> mg_group_state row = s \<and> mg_epoch row = e)) \<or>
    (\<forall>seq. res \<noteq> Inr (True, seq)) \<and> db_facts (c_db c') = db_facts (c_db c)"
proof -
  let ?rec = "state_record D s e th now" and ?msg = "new_message D me sender pt ts echo h"
  have g: "gr_GroupID ?rec = d_groupID D" "sm_GroupID ?msg = d_groupID D" "gr_Epoch ?rec = e" "gr_GroupState ?rec = s"
    by (simp_all add: state_record_def new_message_def)
  have call: "ApplyApplication (d_sha256 D) (d_pidString D) (c_now c) ?rec ?msg mt wire ts2 ee (c_db c) = (res, m', c_db c')"
    using assms by (auto simp: apply_application_def on_db_def split: prod.splits)
  show ?thesis
  proof (cases "d_groupID D = '''' \<or> wire = []")
    case True
    then show ?thesis using call g by (auto simp: ApplyApplication_def)
  next
    case False
    let ?save = "saveMessageTx (d_pidString D) (stamped_message (d_sha256 D wire) ?msg)"
    from False have tx: "apply_tx (d_sha256 D) (c_now c) ?rec ?save mt wire ts2 ee (c_db c) = (res, c_db c')"
      and m: "m' = stamped_message (d_sha256 D wire) ?msg"
      using call g by (auto simp: ApplyApplication_apply_tx split: prod.splits)
    show ?thesis
    proof (cases rule: apply_tx_cases [of "d_sha256 D" "c_now c" ?rec ?save mt wire ts2 ee "c_db c"])
      case (commit seq d)
      then have d: "c_db c' = snd (appendEnvelopeTx (d_sha256 D) (c_now c) (d_groupID D) mt ee ts2 wire
          (markEnvelopeAppliedTx (c_now c) (d_groupID D) mt e (d_sha256 D wire)
            (?save (upsert_group ?rec (unfaulted (c_db c))))))" and r: "res = Inr (True, seq)"
        using tx g by simp_all
      have "\<exists>row. gget (db_groups (c_db c')) (d_groupID D) = Some row \<and> mg_group_state row = s \<and> mg_epoch row = e"
        by (simp add: d upsert_group_def g inserted_group_def updated_group_def Let_def split: option.split)
      then show ?thesis using commit(1) r m g by (simp add: d)
    qed (use tx in simp_all)
  qed
qed

definition app_outcome :: "Deps \<Rightarrow> u64 \<Rightarrow> bytes \<Rightarrow> Coord \<Rightarrow> bool \<Rightarrow> Coord \<Rightarrow> bool" where
  "app_outcome D epoch wire c applied c' \<longleftrightarrow>
    (if applied
     then \<not> ghas (db_applied (c_db c)) (d_groupID D, d_sha256 D wire) \<and>
       ghas (db_applied (c_db c')) (d_groupID D, d_sha256 D wire) \<and>
       (\<forall>k. ghas (db_applied (c_db c')) k \<longleftrightarrow> k = (d_groupID D, d_sha256 D wire) \<or> ghas (db_applied (c_db c)) k) \<and>
       (\<exists>m. delivered c' = delivered c @ [m] \<and> sm_EnvelopeHash m = d_sha256 D wire \<and> sm_Epoch m = epoch) \<and>
       (\<exists>row. gget (db_groups (c_db c')) (d_groupID D) = Some row \<and>
          mg_group_state row = c_groupState c' \<and> mg_epoch row = c_epoch c')
     else quiet c c')"

lemma app_outcome_before: "quiet a c \<Longrightarrow> app_outcome D e wire c b c' \<Longrightarrow> app_outcome D e wire a b c'"
  by (auto simp: app_outcome_def quiet_def db_facts_def split: if_splits)

lemma app_outcome_after:
  "quiet c' d \<Longrightarrow> c_epoch d = c_epoch c' \<Longrightarrow> app_outcome D e wire c b c' \<Longrightarrow> app_outcome D e wire c b d"
  by (auto simp: app_outcome_def quiet_def db_facts_def split: if_splits)

lemma finish_outcome:
  "\<not> rr_Applied r \<Longrightarrow> quiet c c1 \<Longrightarrow>
   app_outcome D e wire c (rr_Applied (fst (finish D r c1))) (snd (finish D r c1))"
  using quiet_trans [OF _ quiet_mark] by (simp add: finish_def app_outcome_def)

lemma result_flags [simp]:
  "rr_Applied (duplicate_result r) = rr_Applied r" "rr_Applied (stale_result r) = rr_Applied r"
  "rr_Applied (failed_result st err t r) = rr_Applied r" "rr_Applied (applied_result r)"
  "\<not> rr_Applied (newReplayResultLocked D env wire c)"
  by (simp_all add: duplicate_result_def stale_result_def failed_result_def applied_result_def newReplayResultLocked_def)

lemma keeps_epoch: "keeps a c \<Longrightarrow> c_epoch c = c_epoch a"
  by (simp add: keeps_def)

lemma receive_outcome:
  assumes "\<not> rr_Applied result"
  shows "app_outcome D (env_Epoch env) wire c
    (rr_Applied (fst (receive_plaintext D from env wire h result ts pt s c)))
    (snd (receive_plaintext D from env wire h result ts pt s c))"
proof -
  let ?sender = "decodeEnvelopePeerID D (env_From env) from"
  let ?rec = "state_record D s (c_epoch c) (c_treeHash c) (c_now c)"
  let ?msg = "new_message D (env_Epoch env) ?sender pt ts '''' h"
  obtain res m' c1 where ap: "apply_application D ?rec ?msg (env_Type env) wire (env_Timestamp env) (env_Epoch env) c
      = ((res, m'), c1)" by (metis prod.exhaust)
  note cs = apply_application_cases [OF ap]
  have frame: "c_groupState c1 = c_groupState c" "c_treeHash c1 = c_treeHash c" "c_out c1 = c_out c" "c_epoch c1 = c_epoch c"
    using ap by (auto simp: apply_application_def on_db_def split: prod.splits)
  show ?thesis
  proof (cases "\<exists>seq. res = Inr (True, seq)")
    case False
    then have "quiet c c1" using cs frame by (simp add: quiet_def delivered_def)
    with False assms show ?thesis
      unfolding receive_plaintext_def Let_def ap
      by (auto split: sum.split bool.split intro!: finish_outcome)
  next
    case True
    let ?c2 = "emit (OnMessage m') (c1\<lparr>c_groupState := s\<rparr>)"
    let ?c3 = "sendDeliveryAckLocked D ?sender h ?c2"
    have del: "delivered ?c2 = delivered c @ [m']"
      using delivered_cong [of "c1\<lparr>c_groupState := s\<rparr>" c] frame(3) by (simp add: delivered_emit)
    have "app_outcome D (env_Epoch env) wire c True ?c2"
      using True cs del frame
      by (auto simp: app_outcome_def emit_def stamped_message_def new_message_def intro!: exI [of _ m'])
    then have "app_outcome D (env_Epoch env) wire c True (markReplayResultLocked D (applied_result result) ?c3)"
      using quiet_trans [OF quiet_ack quiet_mark] keeps_epoch [OF keeps_results(1) [OF keeps_results(7) [OF keeps_refl]]]
      by (rule app_outcome_after [rotated -1])
    with True show ?thesis
      unfolding receive_plaintext_def Let_def ap by (auto simp: finish_def)
  qed
qed

lemma decrypt_outcome:
  assumes "\<not> rr_Applied result"
  shows "app_outcome D (env_Epoch env) wire c
    (rr_Applied (fst (decrypt_application D from env wire h result c)))
    (snd (decrypt_application D from env wire h result c))"
proof -
  have q: "quiet c (snd (engine g (snd (hlc_update ts c))))" for g ts
    by (rule quiet_trans [OF quiet_prims(3) quiet_prims(1)])
  show ?thesis
    unfolding decrypt_application_def using assms
    by (auto simp: case_prod_beta split: sum.split
        intro!: finish_outcome q app_outcome_before [OF q receive_outcome [OF assms]])
qed

lemma handle_outcome:
  "app_outcome D (env_Epoch env) wire c
    (rr_Applied (fst (handleApplicationDetailedLocked D from env wire c)))
    (snd (handleApplicationDetailedLocked D from env wire c))"
proof -
  obtain h b c1 where ck: "checkAppliedEnvelopeLocked D env wire c = ((h, b), c1)" by (metis prod.exhaust)
  have q1: "quiet c c1" using quiet_check [of c D env wire] by (simp add: ck)
  obtain act c3 where ac: "application_action D (env_Type env = MsgApplication) env h (ensure_tracker c1) = (act, c3)"
    by (metis prod.exhaust)
  have q3: "quiet c c3"
    using quiet_trans [OF q1 quiet_trans [OF quiet_prims(5) quiet_action]] ac by (metis snd_conv)
  have q4: "quiet c (on_tracker f c3)" for f using quiet_trans [OF q3] by simp
  show ?thesis
    unfolding handleApplicationDetailedLocked_def ck Let_def using ac q1 q3 q4
    by (cases act) (auto intro!: finish_outcome app_outcome_before [OF q3 decrypt_outcome])
qed


section \<open>Exactly-once delivery\<close>

text \<open>When moreover only the reporting step marks a key, the reports tell the new marks exactly.\<close>

locale exactly_reported = exactly_once step marked
  for step :: "'c \<Rightarrow> 's \<Rightarrow> 'k option \<times> 's" and marked :: "'s \<Rightarrow> 'k \<Rightarrow> bool" +
  assumes only_reported: "marked (snd (step c s)) k \<Longrightarrow> marked s k \<or> fst (step c s) = Some k"
begin

lemma reports_count:
  "count_list (fst (run_steps step cs s)) (Some k) =
    (if \<not> marked s k \<and> marked (snd (run_steps step cs s)) k then 1 else 0)"
proof (induction cs arbitrary: s)
  case (Cons c cs)
  let ?s' = "snd (step c s)"
  consider "marked s k" | "\<not> marked s k" "fst (step c s) = Some k" | "\<not> marked s k" "fst (step c s) \<noteq> Some k" by auto
  then show ?case
  proof cases
    case 1
    then have "count_list (fst (run_steps step (c # cs) s)) (Some k) = 0"
      unfolding count_list_0_iff by (rule marked_never_reported)
    with 1 show ?thesis by simp
  next
    case 2
    then have "marked ?s' k" using reported by blast
    moreover have "marked (snd (run_steps step (c # cs) s)) k"
      by (rule reported_marked) (simp only: run_steps_Cons 2 fst_conv list.set_intros(1))
    ultimately show ?thesis using 2 Cons.IH [of ?s'] unfolding run_steps_Cons by simp
  next
    case 3
    then have "\<not> marked ?s' k" using only_reported by blast
    then show ?thesis using 3 Cons.IH [of ?s'] unfolding run_steps_Cons by simp
  qed
qed simp

end

type_synonym app_input = "peer_id \<times> Envelope \<times> bytes"

definition app_step :: "Deps \<Rightarrow> app_input \<Rightarrow> Coord \<Rightarrow> bytes option \<times> Coord" where
  "app_step D i c =
    (let (p, env, wire) = i; (r, c') = handleApplicationDetailedLocked D p env wire c
     in (if rr_Applied r then Some (d_sha256 D wire) else None, c'))"

definition envelope_applied :: "Deps \<Rightarrow> Coord \<Rightarrow> bytes \<Rightarrow> bool" where
  "envelope_applied D c h \<longleftrightarrow> ghas (db_applied (c_db c)) (d_groupID D, h)"

lemma app_step_outcome:
  "app_outcome D (env_Epoch (fst (snd i))) (snd (snd i)) c (fst (app_step D i c) \<noteq> None) (snd (app_step D i c)) \<and>
   fst (app_step D i c) \<in> {None, Some (d_sha256 D (snd (snd i)))}"
  using handle_outcome [of D "fst (snd i)" "snd (snd i)" c "fst i"]
  by (auto simp: app_step_def case_prod_beta Let_def)

interpretation ap: exactly_reported "app_step D" "envelope_applied D" for D
proof
  fix i c h
  note o = app_step_outcome [of D i c]
  show "fst (app_step D i c) = Some h \<Longrightarrow> \<not> envelope_applied D c h \<and> envelope_applied D (snd (app_step D i c)) h"
    using o by (auto simp: app_outcome_def envelope_applied_def)
  show "envelope_applied D c h \<Longrightarrow> envelope_applied D (snd (app_step D i c)) h"
    using o by (auto simp: app_outcome_def envelope_applied_def quiet_def db_facts_def split: if_splits)
  show "envelope_applied D (snd (app_step D i c)) h \<Longrightarrow> envelope_applied D c h \<or> fst (app_step D i c) = Some h"
    using o by (auto simp: app_outcome_def envelope_applied_def quiet_def db_facts_def split: if_splits)
qed

lemma app_step_delivered:
  "map sm_EnvelopeHash (delivered (snd (app_step D i c))) =
    map sm_EnvelopeHash (delivered c) @ (case fst (app_step D i c) of None \<Rightarrow> [] | Some h \<Rightarrow> [h])"
  using app_step_outcome [of D i c] by (auto simp: app_outcome_def quiet_def split: if_splits)

lemma app_run_delivered:
  "map sm_EnvelopeHash (delivered (snd (run_steps (app_step D) is c))) =
    map sm_EnvelopeHash (delivered c) @ List.map_filter (\<lambda>h. h) (fst (run_steps (app_step D) is c))"
proof (induction "is" arbitrary: c)
  case (Cons i "is")
  show ?case
    unfolding run_steps_Cons using Cons [of "snd (app_step D i c)"]
    by (simp add: app_step_delivered map_filter_def split: option.split)
qed (simp add: map_filter_def)

lemma count_map_filter: "count_list (List.map_filter (\<lambda>h. h) xs) h = count_list xs (Some h)"
  by (induction xs) (auto simp: map_filter_def)


section \<open>Retransmission ends\<close>

fun watch_run :: "Deps \<Rightarrow> peer_id \<Rightarrow> bytes \<Rightarrow> nat \<Rightarrow> Coord \<Rightarrow> bool \<times> Coord" where
  "watch_run D pid h 0 c = (True, c)"
| "watch_run D pid h (Suc n) c =
    (let (again, c1) = applicationAckWatch D pid h c in if again then watch_run D pid h n c1 else (False, c1))"

definition resends :: "Deps \<Rightarrow> peer_id \<Rightarrow> bytes \<Rightarrow> Coord \<Rightarrow> nat" where
  "resends D pid h c = (case gget (c_pending c) (pendingAppDeliveryKey D pid h) of
     None \<Rightarrow> 0 | Some p \<Rightarrow> nat (ApplicationDirectRetryLimit (d_cfg D) - pd_attempts p))"

definition unacked_envelope :: "Deps \<Rightarrow> peer_id \<Rightarrow> bytes \<Rightarrow> Coord \<Rightarrow> bytes" where
  "unacked_envelope D pid h c = (case gget (c_pending c) (pendingAppDeliveryKey D pid h) of
     None \<Rightarrow> [] | Some p \<Rightarrow> pd_envelope p)"

lemma watch_step:
  shows "resends D pid h c = 0 \<Longrightarrow> applicationAckWatch D pid h c = (False, c)"
    and "resends D pid h c = Suc n \<Longrightarrow> \<exists>c1. applicationAckWatch D pid h c = (True, c1) \<and> resends D pid h c1 = n \<and>
      unacked_envelope D pid h c1 = unacked_envelope D pid h c \<and>
      c_out c1 = c_out c @ [SendDirect pid (unacked_envelope D pid h c)]"
  by (auto simp: applicationAckWatch_def resends_def unacked_envelope_def Let_def emit_def split: option.splits)

lemma watch_run_spec:
  "\<exists>c'. watch_run D pid h (Suc (resends D pid h c)) c = (False, c') \<and> resends D pid h c' = 0 \<and>
    c_out c' = c_out c @ replicate (resends D pid h c) (SendDirect pid (unacked_envelope D pid h c))"
proof (induction "resends D pid h c" arbitrary: c)
  case 0
  then show ?case using watch_step(1) [of D pid h c] by auto
next
  case (Suc n)
  obtain c1 where c1: "applicationAckWatch D pid h c = (True, c1)" "resends D pid h c1 = n"
      "unacked_envelope D pid h c1 = unacked_envelope D pid h c"
      "c_out c1 = c_out c @ [SendDirect pid (unacked_envelope D pid h c)]"
    using watch_step(2) [OF Suc.hyps(2) [symmetric]] by blast
  obtain c' where c': "watch_run D pid h (Suc n) c1 = (False, c')" "resends D pid h c' = 0"
      "c_out c' = c_out c1 @ replicate n (SendDirect pid (unacked_envelope D pid h c))"
    using Suc.hyps(1) [OF c1(2) [symmetric]] unfolding c1(2,3) by blast
  have "watch_run D pid h (Suc (Suc n)) c = (False, c')" using c1(1) c'(1) by simp
  then show ?case using c' c1(4) unfolding Suc.hyps(2) [symmetric] by simp
qed

text \<open>
  C35: the watch loop of an unacknowledged envelope ends. Left alone, it sends the envelope to its
  recipient once per attempt that is left under the retry limit and then stops; once the recipient's
  receipt has been handled, the next round stops without sending anything.
\<close>

theorem retransmission_ends:
  "(\<exists>c'. watch_run D pid h (Suc (resends D pid h c)) c = (False, c') \<and>
     c_out c' = c_out c @ replicate (resends D pid h c) (SendDirect pid (unacked_envelope D pid h c))) \<and>
   (case u_ack (d_json D) (env_Payload env) of
      Inl _ \<Rightarrow> True
    | Inr hash \<Rightarrow> hash = [] \<or>
        (let c1 = handleDeliveryAckLocked D pid env c in watch_run D pid hash 1 c1 = (False, c1)))"
  using watch_run_spec [of D pid h c]
  by (auto simp: handleDeliveryAckLocked_def applicationAckWatch_def split: sum.split)

end
