(* ===== verification/CommitPath.thy ===== *)
theory CommitPath
  imports Application "HOL-Library.Monad_Syntax"
begin

text \<open>
  Proposals and commits: \<^verbatim>\<open>coordinator_commit.go\<close>, \<^verbatim>\<open>coordinator_proposal.go\<close> and
  \<^verbatim>\<open>coordinator_reconcile.go\<close>.

  These methods call each other in a circle: advancing the epoch handles the envelopes that were
  buffered for it, handling a commit advances the epoch, and with \<^verbatim>\<open>BatchingDelay\<close> at zero a proposal
  commits at once. The two calls that close the circle go through an argument \<open>k\<close>, a function from the
  call and the state to the next state; \<open>reenter\<close> at the end ties the knot with fuel, and \<open>None\<close> is a
  run that needs more of it.
\<close>

datatype call = CallTryCommit | CallBuffered bytes

type_synonym reentry = "call \<Rightarrow> Coord \<Rightarrow> Coord option"

section \<open>Timers\<close>

definition start_timer :: "int \<Rightarrow> Coord \<Rightarrow> nat \<times> Coord" where
  "start_timer delay c =
    (c_nextTimer c, emit (StartTimer (c_nextTimer c) delay) (c\<lparr>c_nextTimer := c_nextTimer c + 1\<rparr>))"

definition bootstrapGraceRemainingLocked :: "Deps \<Rightarrow> Coord \<Rightarrow> int" where
  "bootstrapGraceRemainingLocked D c =
    (let grace = ViewBootstrapGrace (d_cfg D) in
     if grace \<le> 0 \<or> c_startedAt c = zero_time then 0
     else let elapsed = c_now c - c_startedAt c in
       if elapsed \<ge> grace then 0 else grace - elapsed)"

definition commitViewReadyLocked :: "Deps \<Rightarrow> BufferedProposal list \<Rightarrow> Coord \<Rightarrow> bool" where
  "commitViewReadyLocked D batch c =
    (if bootstrapGraceRemainingLocked D c \<le> 0 then True
     else if Size (c_view c) > 1 then True
     else case d_authorized D of
         None \<Rightarrow> True
       | Some provider \<Rightarrow>
          (case provider (d_groupID D) (c_epoch c) batch of
             Inl _ \<Rightarrow> True
           | Inr authorized \<Rightarrow>
              let removed = List.map_filter (\<lambda>p. d_pidDecode D (bp_TargetPeerID p))
                    (filter (\<lambda>p. \<not> (bp_Type p \<noteq> ProposalRemove \<or> bp_TargetPeerID p = '''')) batch)
              in \<not> list_ex (\<lambda>pid. pid \<noteq> '''' \<and> pid \<noteq> d_localID D \<and> pid \<notin> set removed) authorized))"

definition deferCommitUntilViewReadyLocked :: "Deps \<Rightarrow> Coord \<Rightarrow> Coord" where
  "deferCommitUntilViewReadyLocked D c =
    (if c_proposalTimer c \<noteq> None then c
     else
       let delay0 = bootstrapGraceRemainingLocked D c;
           delay1 = (if delay0 \<le> 0 then BatchingDelay (d_cfg D) else delay0);
           delay = (if delay1 \<le> 0 then 10 * millisecond else delay1);
           (ch, c1) = start_timer delay c
       in c1\<lparr>c_proposalTimer := Some ch\<rparr>)"

definition scheduleBatchCommitLocked :: "Deps \<Rightarrow> reentry \<Rightarrow> Coord \<Rightarrow> Coord option" where
  "scheduleBatchCommitLocked D k c =
    (if c_proposalTimer c \<noteq> None then Some c
     else if BatchingDelay (d_cfg D) \<le> 0 then k CallTryCommit c
     else let (ch, c1) = start_timer (BatchingDelay (d_cfg D)) c
          in Some (c1\<lparr>c_proposalTimer := Some ch\<rparr>))"

definition scheduleFailoverTimerLocked :: "Deps \<Rightarrow> Coord \<Rightarrow> Coord" where
  "scheduleFailoverTimerLocked D c =
    (if c_failoverTimer c \<noteq> None then c
     else if c_sw c = None \<or> proposal_count c = 0 \<or> IsTokenHolder_c D c then c
     else
       let delay = (if TokenHolderTimeout (d_cfg D) \<le> 0 then 5 * second else TokenHolderTimeout (d_cfg D));
           (ch, c1) = start_timer delay c
       in c1\<lparr>c_failoverTimer := Some ch\<rparr>)"

section \<open>Local proposals\<close>

definition empty_proposal :: BufferedProposal where
  "empty_proposal = \<lparr>bp_Type = 0, bp_Data = [], bp_ProposalRef = [], bp_OperationID = '''',
     bp_TargetPeerID = '''', bp_RequestID = '''', bp_GroupType = '''', bp_CategoryID = '''', bp_KeyPackageHash = []\<rparr>"

definition createAndStoreLocalProposalLocked ::
  "Deps \<Rightarrow> ProposalType \<Rightarrow> bytes \<Rightarrow> BufferedProposal \<Rightarrow> Coord
    \<Rightarrow> (error + ProposalMsg \<times> BufferedProposal) \<times> Coord" where
  "createAndStoreLocalProposalLocked D pType data meta c =
    (case engine (\<lambda>n. mls_CreateProposal (d_mls D) n (c_groupState c) pType data) c of
       (Inl err, c1) \<Rightarrow> (Inl err, c1)
     | (Inr r, c1) \<Rightarrow>
        (case persistCurrentEpochStateLocked D (cpr_NewGroupState r) c1 of
           (Inl err, c2) \<Rightarrow> (Inl err, c2)
         | (Inr _, c2) \<Rightarrow>
            (Inr (\<lparr>pm_ProposalType = pType, pm_Data = cpr_ProposalBytes r, pm_ProposalRef = cpr_ProposalRef r,
                   pm_OperationID = bp_OperationID meta, pm_TargetPeerID = bp_TargetPeerID meta,
                   pm_TargetIdentity = [], pm_RequestID = bp_RequestID meta, pm_GroupType = bp_GroupType meta,
                   pm_CategoryID = bp_CategoryID meta, pm_KeyPackageHash = bp_KeyPackageHash meta\<rparr>,
                  meta\<lparr>bp_Type := pType, bp_Data := cpr_ProposalBytes r, bp_ProposalRef := cpr_ProposalRef r\<rparr>),
             c2\<lparr>c_groupState := cpr_NewGroupState r\<rparr>)))"

section \<open>Pending operations after a commit\<close>

definition save_op :: "PendingOperation \<Rightarrow> Coord \<Rightarrow> Coord" where
  "save_op op c = snd (on_db (SavePendingOperation op) c)"

definition op_open :: "PendingOperation \<Rightarrow> bool" where
  "op_open op \<longleftrightarrow> po_Status op = ''PENDING'' \<or> po_Status op = ''PROPOSED''"

text \<open>The dereferences of \<^verbatim>\<open>op.TargetMemberID\<close> are unguarded; a nil pointer there has no value here.\<close>

definition settle_op :: "Deps \<Rightarrow> CommitMsg \<Rightarrow> PendingOperation \<Rightarrow> Coord \<Rightarrow> Coord" where
  "settle_op D commit op c =
    (if \<not> op_open op then c
     else if po_OpType op = ''ADD_MEMBER'' then
       (case find (\<lambda>d. ad_OperationID d = po_OperationID op \<or> ad_TargetPeerID d = the (po_TargetMemberID op))
               (cm_AddDeliveries commit) of
          None \<Rightarrow> c
        | Some d \<Rightarrow>
           save_op (op\<lparr>po_Status := (if ad_OperationID d = po_OperationID op then ''COMMITTED''
                                     else ''SATISFIED_BY_OTHER''), po_UpdatedAt := c_now c\<rparr>) c)
     else if po_OpType op = ''REMOVE_MEMBER'' then
       (case find (\<lambda>p. pm_ProposalType p = ProposalRemove \<and> pm_TargetPeerID p = the (po_TargetMemberID op))
               (cm_IncludedProposals commit) of
          None \<Rightarrow> c
        | Some p \<Rightarrow>
           save_op (op\<lparr>po_Status := (if pm_OperationID p = po_OperationID op then ''COMMITTED''
                                     else ''SATISFIED_BY_OTHER''), po_UpdatedAt := c_now c\<rparr>) c)
     else c)"

definition emitPendingOperationAuditLocked ::
  "Deps \<Rightarrow> PendingOperation \<Rightarrow> string \<Rightarrow> int \<Rightarrow> u64 \<Rightarrow> string \<Rightarrow> Coord \<Rightarrow> Coord" where
  "emitPendingOperationAuditLocked D op stage retries prevEpoch err c =
    emit (OnPendingOperation \<lparr>pos_GroupID = d_groupID D, pos_OperationID = po_OperationID op,
      pos_OpType = po_OpType op,
      pos_TargetPeerID = (case po_TargetMemberID op of None \<Rightarrow> '''' | Some t \<Rightarrow> t),
      pos_Stage = stage, pos_RetryCount = retries, pos_CurrentEpoch = c_epoch c,
      pos_PreconditionEpoch = prevEpoch, pos_LastError = err\<rparr>) c"

definition add_targets :: "CommitMsg \<Rightarrow> string list" where
  "add_targets commit = filter (\<lambda>t. t \<noteq> '''') (map ad_TargetPeerID (cm_AddDeliveries commit))"

definition committed_removes :: "CommitMsg \<Rightarrow> ProposalMsg list" where
  "committed_removes commit =
    filter (\<lambda>p. pm_ProposalType p = ProposalRemove \<and> pm_TargetPeerID p \<noteq> '''') (cm_IncludedProposals commit)"

definition committed_op_ids :: "CommitMsg \<Rightarrow> string list" where
  "committed_op_ids commit =
    map ad_OperationID (filter (\<lambda>d. ad_TargetPeerID d \<noteq> '''') (cm_AddDeliveries commit)) @
    map pm_OperationID (committed_removes commit)"

definition superseded_by :: "CommitMsg \<Rightarrow> PendingOperation \<Rightarrow> bool" where
  "superseded_by commit op \<longleftrightarrow>
    (po_Status op = ''COMMITTED'' \<or> po_Status op = ''SATISFIED_BY_OTHER'') \<and>
    po_OperationID op \<notin> set (committed_op_ids commit) \<and>
    (case po_TargetMemberID op of
       None \<Rightarrow> False
     | Some t \<Rightarrow> t \<noteq> '''' \<and>
        (t \<in> set (map pm_TargetPeerID (committed_removes commit)) \<and> po_OpType op = ''ADD_MEMBER'' \<or>
         t \<in> set (add_targets commit) \<and> po_OpType op = ''REMOVE_MEMBER''))"

definition supersede_op :: "Deps \<Rightarrow> CommitMsg \<Rightarrow> PendingOperation \<Rightarrow> Coord \<Rightarrow> Coord" where
  "supersede_op D commit op c =
    (if \<not> superseded_by commit op then c
     else let op1 = op\<lparr>po_Status := ''SUPERSEDED'', po_IdempotencyKey := None, po_UpdatedAt := c_now c\<rparr>
          in emitPendingOperationAuditLocked D op1 ''superseded'' 0 0 '''' (save_op op1 c))"

definition supersedeStaleMembershipOpsLocked :: "Deps \<Rightarrow> CommitMsg \<Rightarrow> Coord \<Rightarrow> Coord" where
  "supersedeStaleMembershipOpsLocked D commit c =
    (if add_targets commit = [] \<and> committed_removes commit = [] then c
     else case on_db (ListPendingOperations (d_groupID D)) c of
         (Inl _, c1) \<Rightarrow> c1
       | (Inr ops, c1) \<Rightarrow> fold (supersede_op D commit) ops c1)"

definition seal_own_message :: "Deps \<Rightarrow> string \<Rightarrow> string \<Rightarrow> StoredMessage \<Rightarrow> Coord \<Rightarrow> Coord" where
  "seal_own_message D jobID branchID m c =
    (case sealPayload D (sm_Content m) (deriveStorageKey D (d_signingKey D)) c of
       (Inl _, c1) \<Rightarrow> c1
     | (Inr (sealed, nonce), c1) \<Rightarrow>
        save_event \<lparr>ae_EventID = hex (sm_EnvelopeHash m), ae_JobID = jobID, ae_GroupID = d_groupID D,
          ae_OriginalBranchID = branchID, ae_OriginalEpoch = sm_Epoch m,
          ae_AuthorID = d_pidString D (d_localID D), ae_EnvelopeHash = sm_EnvelopeHash m,
          ae_PayloadSealed = sealed, ae_PayloadHash = d_sha256 D (sm_Content m),
          ae_SealKeyID = ''local_node_key'', ae_SealNonce = nonce,
          ae_HlcWallTimeMs = WallTimeMs (sm_Timestamp m), ae_HlcCounter = Counter (sm_Timestamp m),
          ae_HlcNodeID = NodeID (sm_Timestamp m), ae_Status = ''ORPHANED_OWN'', ae_ReplayOperationID = '''',
          ae_ReplayedEnvelopeHash = [], ae_ReplayedAtMs = 0, ae_ReplayAttemptCount = 0, ae_LastError = '''',
          ae_CreatedAtMs = nowMs c1, ae_UpdatedAtMs = nowMs c1\<rparr> c1)"

definition own_messages :: "Deps \<Rightarrow> Coord \<Rightarrow> StoredMessage list \<times> Coord" where
  "own_messages D c =
    (case on_db (GetMessagesByOwnerInRange (d_pidDecode D) (d_groupID D) (d_pidString D (d_localID D))
                   0 (nowMs c)) c of
       (Inl _, c1) \<Rightarrow> ([], c1)
     | (Inr msgs, c1) \<Rightarrow> (msgs, c1))"

definition reconcileOperationsAfterCommitLocked :: "Deps \<Rightarrow> CommitMsg \<Rightarrow> Coord \<Rightarrow> Coord" where
  "reconcileOperationsAfterCommitLocked D commit c =
    (case on_db (ListPendingOperations (d_groupID D)) c of
       (Inl _, c1) \<Rightarrow> c1
     | (Inr ops, c1) \<Rightarrow>
        let c2 = supersedeStaleMembershipOpsLocked D commit (fold (settle_op D commit) ops c1);
            c3 = snd (on_db (GetPendingEnvelopes (d_groupID D) 1000) c2);
            (msgs, c4) = own_messages D c3
        in fold (\<lambda>m c. if sm_Epoch m = c_epoch c - 1
                       then seal_own_message D (''COMMIT-RECONCILE-'' @ d_groupID D) '''' m c else c) msgs c4)"

section \<open>Rebasing pending operations onto the new epoch\<close>

definition op_expired :: "PendingOperation \<Rightarrow> Coord \<Rightarrow> bool" where
  "op_expired op c \<longleftrightarrow> (case po_ExpiresAt op of None \<Rightarrow> False | Some t \<Rightarrow> t > 0 \<and> Unix (c_now c) > t)"

definition removal_satisfied :: "Deps \<Rightarrow> PendingOperation \<Rightarrow> Coord \<Rightarrow> bool \<times> Coord" where
  "removal_satisfied D op c =
    (if (case po_TargetMemberID op of None \<Rightarrow> False | Some t \<Rightarrow> t \<noteq> '''') \<and>
        po_OpType op = ''REMOVE_MEMBER'' \<and> po_SemanticPayload op \<noteq> []
     then (case engine (\<lambda>n. mls_HasMember (d_mls D) n (c_groupState c) (po_SemanticPayload op)) c of
             (Inl _, c1) \<Rightarrow> (False, c1)
           | (Inr isMember, c1) \<Rightarrow> (\<not> isMember, c1))
     else (False, c))"

definition max_retries :: "Deps \<Rightarrow> int" where
  "max_retries D = (if ApplicationDirectRetryLimit (d_cfg D) \<le> 0 then 5 else ApplicationDirectRetryLimit (d_cfg D))"

definition proposal_of_op :: "PendingOperation \<Rightarrow> (ProposalType \<times> BufferedProposal) option" where
  "proposal_of_op op =
    (if po_OpType op = ''ADD_MEMBER''
     then Some (ProposalAdd, empty_proposal\<lparr>bp_OperationID := po_OperationID op,
                  bp_TargetPeerID := the (po_TargetMemberID op), bp_KeyPackageHash := po_OperationHash op\<rparr>)
     else if po_OpType op = ''REMOVE_MEMBER''
     then Some (ProposalRemove, empty_proposal\<lparr>bp_TargetPeerID := the (po_TargetMemberID op),
                  bp_OperationID := po_OperationID op\<rparr>)
     else None)"

definition after_reproposal :: "Deps \<Rightarrow> u64 \<Rightarrow> PendingOperation \<Rightarrow> Coord \<Rightarrow> Coord" where
  "after_reproposal D prevEpoch op c =
    (let (found, c1) = on_db (GetPendingOperation (po_OperationID op)) c;
         settled = (case found of Inl _ \<Rightarrow> None
                    | Inr dbOp \<Rightarrow> if po_Status dbOp = ''COMMITTED'' \<or> po_Status dbOp = ''SATISFIED_BY_OTHER''
                                 then Some dbOp else None)
     in case settled of
          Some dbOp \<Rightarrow>
            save_op (op\<lparr>po_Status := po_Status dbOp, po_UpdatedAt := po_UpdatedAt dbOp,
                       po_LastError := po_LastError dbOp\<rparr>) c1
        | None \<Rightarrow>
            emitPendingOperationAuditLocked D op ''rebased'' (po_RetryCount op) prevEpoch ''''
              (save_op (op\<lparr>po_LastError := None\<rparr>) c1))"

definition announce_proposal :: "Deps \<Rightarrow> reentry \<Rightarrow> ProposalMsg \<Rightarrow> BufferedProposal \<Rightarrow> Coord \<Rightarrow> Coord option" where
  "announce_proposal D k msg buffered c =
    (let c1 = on_writer (BufferProposal buffered) (broadcastLocked D MsgProposal (ProposalPayload msg) c)
     in if IsTokenHolder_c D c1 then scheduleBatchCommitLocked D k c1
        else Some (scheduleFailoverTimerLocked D c1))"

definition repropose :: "Deps \<Rightarrow> reentry \<Rightarrow> u64 \<Rightarrow> PendingOperation \<Rightarrow> Coord \<Rightarrow> Coord option" where
  "repropose D k prevEpoch op c =
    (case proposal_of_op op of
       None \<Rightarrow> Some c
     | Some (pType, meta) \<Rightarrow>
        (case createAndStoreLocalProposalLocked D pType (po_SemanticPayload op) meta c of
           (Inl err, c1) \<Rightarrow>
             Some (emitPendingOperationAuditLocked D op ''rebase_failed'' (po_RetryCount op) prevEpoch (d_errText D err)
                     (save_op (op\<lparr>po_LastError := Some (d_errText D err)\<rparr>) c1))
         | (Inr (msg, buffered), c1) \<Rightarrow>
             do { c2 \<leftarrow> announce_proposal D k msg buffered c1;
                  Some (after_reproposal D prevEpoch
                    (op\<lparr>po_LatestProposalHash := d_sha256 D (pm_Data msg), po_Status := ''PROPOSED''\<rparr>) c2) }))"

definition rebase_op :: "Deps \<Rightarrow> reentry \<Rightarrow> PendingOperation \<Rightarrow> Coord \<Rightarrow> Coord option" where
  "rebase_op D k op c =
    (if \<not> op_open op then Some c
     else if op_expired op c then
       Some (save_op (op\<lparr>po_Status := ''FAILED_EXPIRED'', po_LastError := Some ''operation TTL expired'',
                po_UpdatedAt := c_now c\<rparr>) c)
     else
       let (satisfied, c1) = removal_satisfied D op c in
       if satisfied
       then Some (save_op (op\<lparr>po_Status := ''SATISFIED_BY_OTHER'', po_UpdatedAt := c_now c1\<rparr>) c1)
       else case po_PreconditionEpoch op of
           None \<Rightarrow> Some c1
         | Some e \<Rightarrow>
            if \<not> e < c_epoch c1 then Some c1
            else if po_RetryCount op \<ge> max_retries D then
              (let op1 = op\<lparr>po_Status := ''FAILED_RETRY_EXHAUSTED'', po_LastError := Some ''max retries exceeded'',
                           po_UpdatedAt := c_now c1\<rparr>
               in Some (emitPendingOperationAuditLocked D op1 ''retry_exhausted'' (po_RetryCount op1) 0
                          ''max retries exceeded'' (save_op op1 c1)))
            else repropose D k e (op\<lparr>po_RetryCount := po_RetryCount op + 1,
                   po_PreconditionEpoch := Some (c_epoch c1), po_UpdatedAt := c_now c1\<rparr>) c1)"

fun rebase_ops :: "Deps \<Rightarrow> reentry \<Rightarrow> PendingOperation list \<Rightarrow> Coord \<Rightarrow> Coord option" where
  "rebase_ops D k [] c = Some c"
| "rebase_ops D k (op # ops) c = do { c1 \<leftarrow> rebase_op D k op c; rebase_ops D k ops c1 }"

definition reconcileAndRebaseOperationsLocked :: "Deps \<Rightarrow> reentry \<Rightarrow> Coord \<Rightarrow> Coord option" where
  "reconcileAndRebaseOperationsLocked D k c =
    (case on_db (ListPendingOperations (d_groupID D)) c of
       (Inl _, c1) \<Rightarrow> Some c1
     | (Inr ops, c1) \<Rightarrow>
        do { c2 \<leftarrow> rebase_ops D k ops c1;
             if IsTokenHolder_c D c2 then scheduleBatchCommitLocked D k c2 else Some c2 })"

section \<open>Advancing the epoch\<close>

fun run_buffered :: "reentry \<Rightarrow> bytes list \<Rightarrow> Coord \<Rightarrow> Coord option" where
  "run_buffered k [] c = Some c"
| "run_buffered k (raw # raws) c = do { c1 \<leftarrow> k (CallBuffered raw) c; run_buffered k raws c1 }"

definition enter_epoch :: "Deps \<Rightarrow> bytes \<Rightarrow> u64 \<Rightarrow> bytes \<Rightarrow> Coord \<Rightarrow> bytes list \<times> Coord" where
  "enter_epoch D newState newEpoch newTreeHash c =
    (let (buffered, et) = Advance newEpoch newTreeHash (the (c_et c));
         c1 = on_writer (AdvanceEpoch newEpoch)
                (c\<lparr>c_groupState := newState, c_epoch := newEpoch, c_treeHash := newTreeHash, c_et := Some et\<rparr>);
         c2 = (case CurrentTokenHolder_c D c1 of Inl _ \<Rightarrow> c1 | Inr holder \<Rightarrow> c1\<lparr>c_lastTokenHolder := holder\<rparr>)
     in (buffered, c2\<lparr>c_proposalTimer := None, c_failoverTimer := None\<rparr>))"

definition extend_history :: "Deps \<Rightarrow> u64 \<Rightarrow> bytes \<Rightarrow> Coord \<Rightarrow> Coord" where
  "extend_history D newEpoch commitHash c =
    (let c1 = (if c_historyHash c \<noteq> [] then c
               else let r0 = initialHistoryHash D (d_groupID D)
                    in c\<lparr>c_historyHash := r0, c_historyChain := gput (newEpoch - 1) r0 (c_historyChain c)\<rparr>);
         h = computeHistoryHash D (c_historyHash c1) commitHash
     in c1\<lparr>c_lastCommitHash := commitHash, c_historyHash := h,
           c_historyChain := gput newEpoch h (c_historyChain c1)\<rparr>)"

definition settle_epoch :: "Deps \<Rightarrow> u64 \<Rightarrow> Coord \<Rightarrow> Coord" where
  "settle_epoch D newEpoch c =
    emit (OnEpochChange newEpoch)
      (snd (persistCoordStateLocked D (c\<lparr>c_fd := UpdateLocal (local_announcement c) (c_fd c)\<rparr>)))"

definition advanceEpochLocked ::
  "Deps \<Rightarrow> reentry \<Rightarrow> bytes \<Rightarrow> u64 \<Rightarrow> bytes \<Rightarrow> bytes \<Rightarrow> Coord \<Rightarrow> Coord option" where
  "advanceEpochLocked D k newState newEpoch newTreeHash commitData c =
    (let (buffered, c1) = enter_epoch D newState newEpoch newTreeHash c;
         c2 = extend_history D newEpoch (hashCommitData D commitData) c1
     in run_buffered k buffered (settle_epoch D newEpoch c2))"

section \<open>Commits\<close>

definition apply_commit ::
  "Deps \<Rightarrow> bytes \<Rightarrow> bytes \<Rightarrow> MessageType \<Rightarrow> bytes \<Rightarrow> HLCTimestamp \<Rightarrow> u64 \<Rightarrow> Coord \<Rightarrow> (error + bool \<times> int) \<times> Coord" where
  "apply_commit D newState newTreeHash msgType wire ts envEpoch c =
    on_db (ApplyCommit (d_sha256 D) (c_now c)
      (state_record D newState (c_epoch c + 1) newTreeHash (c_now c)) msgType wire ts envEpoch) c"

text \<open>The checks on a staged commit before it is processed.\<close>

definition commit_rejected :: "Deps \<Rightarrow> Envelope \<Rightarrow> CommitMsg \<Rightarrow> StageCommitResult \<Rightarrow> Coord \<Rightarrow> bool" where
  "commit_rejected D env commit staged c =
    (let batch = bufferedBatchFromProposalMsgs (cm_IncludedProposals commit);
         sender = decodeEnvelopePeerID D (env_From env) ''''
     in if cm_CommittedProposalRefs commit \<noteq> [] \<and>
           \<not> proposalRefSetsEqual (scr_ProposalRefs staged) (cm_CommittedProposalRefs commit) then True
        else if batch = [] then False
        else if sender = '''' then False
        else case HolderForBatch (d_sha256 D) (d_pidString D) (c_view c) batch (the (c_sw c)) of
            Inl _ \<Rightarrow> True
          | Inr holder \<Rightarrow> sender \<noteq> holder \<or> removesPeer (d_pidString D) batch sender)"

text \<open>What follows the advance of the epoch, for a received and for a local commit.\<close>

definition after_commit ::
  "Deps \<Rightarrow> reentry \<Rightarrow> CommitMsg \<Rightarrow> bool \<Rightarrow> bytes \<Rightarrow> u64 \<Rightarrow> Coord \<Rightarrow> Coord option" where
  "after_commit D k commit replay newState nextEpoch c =
    (let c1 = reconcileOperationsAfterCommitLocked D commit c;
         c2 = (if replay then triggerBatchReplayAsync (d_groupID D) c1 else c1)
     in do { c3 \<leftarrow> reconcileAndRebaseOperationsLocked D k c2;
             Some (updateLocalAccessRevocationLocked D newState nextEpoch c3) })"

definition observe_additions :: "AddCommitDelivery list \<Rightarrow> u64 \<Rightarrow> bytes \<Rightarrow> Coord \<Rightarrow> Coord" where
  "observe_additions deliveries epoch welcome c = fold (\<lambda>d. emit (OnAddCommitted d epoch welcome)) deliveries c"

definition drain_committed :: "CommitMsg \<Rightarrow> Coord \<Rightarrow> Coord" where
  "drain_committed commit c =
    (let c1 = on_writer (\<lambda>sw. snd (DrainBatchByRefs (cm_CommittedProposalRefs commit) sw)) c in
     if cm_IncludedProposals commit = [] then c1
     else on_writer (\<lambda>sw. snd (DrainBatchByData
            (filter (\<lambda>d. d \<noteq> []) (map pm_Data (cm_IncludedProposals commit))) sw)) c1)"

definition process_commit ::
  "Deps \<Rightarrow> reentry \<Rightarrow> Envelope \<Rightarrow> bytes \<Rightarrow> CommitMsg \<Rightarrow> Coord \<Rightarrow> (bool \<times> Coord) option" where
  "process_commit D k env wire commit c =
    (let commitHash = hashCommitData D (cm_CommitData commit);
         included = proposalBytesFromMsgs (cm_IncludedProposals commit);
         start = c_now c
     in case engine (\<lambda>n. mls_ProcessCommit (d_mls D) n (c_groupState c) (cm_CommitData commit) included) c of
          (Inl _, c1) \<Rightarrow> Some (False, markInvalidCommitLocked commitHash c1)
        | (Inr (newState, newTreeHash), c1) \<Rightarrow>
           let nextEpoch = c_epoch c1 + 1 in
           case apply_commit D newState newTreeHash (env_Type env) wire (env_Timestamp env) (env_Epoch env) c1 of
             (Inl _, c2) \<Rightarrow> Some (False, c2)
           | (Inr (False, _), c2) \<Rightarrow> Some (False, c2)
           | (Inr (True, _), c2) \<Rightarrow>
               do { c3 \<leftarrow> advanceEpochLocked D k newState nextEpoch newTreeHash (cm_CommitData commit) c2;
                    c4 \<leftarrow> after_commit D k commit True newState nextEpoch (drain_committed commit c3);
                    Some (True, observe_additions (cm_AddDeliveries commit) nextEpoch []
                                  (meter (RecordEpochFinalization (c_now c4 - start)) c4)) })"

definition handleCommitLocked :: "Deps \<Rightarrow> reentry \<Rightarrow> Envelope \<Rightarrow> bytes \<Rightarrow> Coord \<Rightarrow> (bool \<times> Coord) option" where
  "handleCommitLocked D k env wire c =
    (case Validate_et (env_Epoch env) (the (c_et c)) of
       ActionRejectStale \<Rightarrow> Some (False, meter IncrDuplicateEpochDetected c)
     | ActionBufferFuture \<Rightarrow> Some (False, on_tracker (BufferFuture (env_Epoch env) wire) c)
     | ActionProcess \<Rightarrow>
        (case u_commit (d_json D) (env_Payload env) of
           Inl _ \<Rightarrow> Some (False, c)
         | Inr commit \<Rightarrow>
            let commitHash = hashCommitData D (cm_CommitData commit);
                ((_, alreadyApplied), c1) = checkAppliedEnvelopeLocked D env wire c
            in if alreadyApplied then Some (False, c1)
               else case engine (\<lambda>n. mls_StageCommit (d_mls D) n (c_groupState c1) (cm_CommitData commit)
                                     (proposalBytesFromMsgs (cm_IncludedProposals commit))) c1 of
                   (Inl _, c2) \<Rightarrow> Some (False, markInvalidCommitLocked commitHash c2)
                 | (Inr staged, c2) \<Rightarrow>
                    if commit_rejected D env commit staged c2
                    then Some (False, markInvalidCommitLocked commitHash c2)
                    else process_commit D k env wire commit c2))"

definition handleCommitDetailedLocked ::
  "Deps \<Rightarrow> reentry \<Rightarrow> Envelope \<Rightarrow> bytes \<Rightarrow> Coord \<Rightarrow> (ReplayEnvelopeResult \<times> Coord) option" where
  "handleCommitDetailedLocked D k env wire c =
    (let ((envelopeHash, alreadyApplied), c1) = checkAppliedEnvelopeLocked D env wire c;
         result = (newReplayResultLocked D env wire c)\<lparr>rr_EnvelopeHash := envelopeHash\<rparr>
     in if alreadyApplied then Some (finish D (duplicate_result result) c1)
        else case Validate_et (env_Epoch env) (the (c_et c1)) of
            ActionRejectStale \<Rightarrow> Some (finish D (stale_result result) c1)
          | ActionBufferFuture \<Rightarrow>
              Some (finish D (result\<lparr>rr_State := ReplayStateFutureEpoch\<rparr>)
                      (on_tracker (BufferFuture (env_Epoch env) wire) c1))
          | ActionProcess \<Rightarrow>
              do { (applied, c2) \<leftarrow> handleCommitLocked D k env wire c1;
                   if applied then Some (finish D (applied_result result) c2)
                   else Some (case on_db (HasAppliedEnvelope (d_groupID D) envelopeHash) c2 of
                       (Inl err, c3) \<Rightarrow> finish D (failed_result ReplayStatePersistFailed (d_errText D err) False result) c3
                     | (Inr True, c3) \<Rightarrow> finish D (duplicate_result result) c3
                     | (Inr False, c3) \<Rightarrow>
                         finish D (failed_result ReplayStateInvalid ''commit replay did not apply'' True result) c3) })"

section \<open>Committing as token holder\<close>

definition emitCommitIssuedLocked :: "Deps \<Rightarrow> u64 \<Rightarrow> u64 \<Rightarrow> BufferedProposal list \<Rightarrow> Coord \<Rightarrow> Coord" where
  "emitCommitIssuedLocked D prevEpoch newEpoch batch =
    emit (OnCommitIssued \<lparr>cas_GroupID = d_groupID D, cas_TokenHolderPeerID = d_pidString D (d_localID D),
      cas_PrevEpoch = prevEpoch, cas_NewEpoch = newEpoch, cas_Proposals = map summarizeBufferedProposal batch\<rparr>)"

text \<open>
  The steps every local commit ends with once it is persisted: drain, publish, advance, reconcile, and
  the metrics. The batch that is reported is the drained one, unless nothing was drained; \<open>replay\<close> tells
  whether orphaned messages are replayed.
\<close>

definition finish_commit ::
  "Deps \<Rightarrow> reentry \<Rightarrow> CommitMsg \<Rightarrow> CreateCommitResult \<Rightarrow> bytes \<Rightarrow> bool \<Rightarrow> Coord \<Rightarrow> Coord option" where
  "finish_commit D k commitMsg r envBytes replay c =
    (let nextEpoch = c_epoch c + 1;
         c1 = publishPreparedEnvelopeLocked MsgCommit envBytes
                (on_writer (\<lambda>sw. snd (DrainBatchByRefs (cm_CommittedProposalRefs commitMsg) sw)) c)
     in do { c2 \<leftarrow> advanceEpochLocked D k (ccr_NewGroupState r) nextEpoch (ccr_NewTreeHash r) (ccr_CommitBytes r) c1;
             c3 \<leftarrow> after_commit D k commitMsg replay (ccr_NewGroupState r) nextEpoch c2;
             Some (meter (AddCommitBytes (int (length (ccr_CommitBytes r)))) (meter IncrCommitsIssued c3)) })"

definition commit_refs :: "CreateCommitResult \<Rightarrow> bytes list \<Rightarrow> bytes list" where
  "commit_refs r expectedRefs =
    (if ccr_CommittedProposalRefs r = [] then expectedRefs else ccr_CommittedProposalRefs r)"

definition doCommitBatchLocked :: "Deps \<Rightarrow> reentry \<Rightarrow> BufferedProposal list \<Rightarrow> Coord \<Rightarrow> Coord option" where
  "doCommitBatchLocked D k batch c =
    (if c_groupState c = [] then Some c
     else
       let prevEpoch = c_epoch c;
           expectedRefs = map bp_ProposalRef batch
       in case engine (\<lambda>n. mls_CreateCommit (d_mls D) n (c_groupState c) expectedRefs) c of
            (Inl _, c1) \<Rightarrow> Some c1
          | (Inr r, c1) \<Rightarrow>
             let commitMsg = \<lparr>cm_CommitData = ccr_CommitBytes r, cm_WelcomeData = [],
                   cm_NewTreeHash = ccr_NewTreeHash r,
                   cm_AddDeliveries = (if batchContainsType batch ProposalAdd
                     then buildAddDeliveriesFromBatch (d_sha256 D) batch (ccr_WelcomeBytes r) else []),
                   cm_IncludedProposals = proposalMsgsFromBatch batch,
                   cm_CommittedProposalRefs = commit_refs r expectedRefs\<rparr>;
                 (ts, c2) = hlc_now c1;
                 envBytes = buildEnvelopeWithTimestampLocked D MsgCommit (CommitPayload commitMsg) ts c2
             in if envBytes = [] then Some c2
                else case apply_commit D (ccr_NewGroupState r) (ccr_NewTreeHash r) MsgCommit envBytes ts (c_epoch c2) c2 of
                    (Inr (True, _), c3) \<Rightarrow>
                      let drained = fst (DrainBatchByRefs (commit_refs r expectedRefs) (the (c_sw c3)));
                          batch' = (if drained \<noteq> [] then drained else batch)
                      in do { c4 \<leftarrow> finish_commit D k commitMsg r envBytes True c3;
                              let c5 = emitCommitIssuedLocked D prevEpoch (prevEpoch + 1) batch' c4;
                              Some (if batchContainsType batch' ProposalAdd
                                    then observe_additions (cm_AddDeliveries commitMsg) (prevEpoch + 1)
                                           (ccr_WelcomeBytes r) c5
                                    else c5) }
                  | (_, c3) \<Rightarrow> Some c3)"

definition tryCommitLocked :: "Deps \<Rightarrow> reentry \<Rightarrow> Coord \<Rightarrow> Coord option" where
  "tryCommitLocked D k c =
    (if \<not> IsTokenHolder_c D c then Some c
     else if c_groupState c = [] then Some c
     else let batch = SnapshotNextBatch (the (c_sw c)) in
       if batch = [] then Some c
       else if \<not> commitViewReadyLocked D batch c then Some (deferCommitUntilViewReadyLocked D c)
       else doCommitBatchLocked D k batch c)"

section \<open>Proposals\<close>

definition buffer_created :: "ProposalType \<Rightarrow> bytes \<Rightarrow> BufferedProposal \<Rightarrow> Deps \<Rightarrow> Coord \<Rightarrow> Coord" where
  "buffer_created pType data meta D c =
    (case createAndStoreLocalProposalLocked D pType data meta c of
       (Inl _, c1) \<Rightarrow> c1
     | (Inr (_, buffered), c1) \<Rightarrow> on_writer (BufferProposal buffered) c1)"

definition handle_join :: "Deps \<Rightarrow> reentry \<Rightarrow> Envelope \<Rightarrow> ProposalMsg \<Rightarrow> Coord \<Rightarrow> Coord option" where
  "handle_join D k env proposal c =
    (if env_Epoch env + ucast (GetMaxPastEpochs (d_cfg D)) < c_epoch c then Some c
     else if c_groupState c = [] then Some c
     else
       let targetIdentity = (if pm_TargetIdentity proposal = [] then string_bytes (pm_TargetPeerID proposal)
                             else pm_TargetIdentity proposal);
           (member, c1) = engine (\<lambda>n. mls_HasMember (d_mls D) n (c_groupState c) targetIdentity) c;
           c2 = (if member = Inr True
                 then buffer_created ProposalRemove targetIdentity
                        (empty_proposal\<lparr>bp_TargetPeerID := pm_TargetPeerID proposal\<rparr>) D c1
                 else c1);
           c3 = buffer_created ProposalAdd (pm_Data proposal)
                  (empty_proposal\<lparr>bp_OperationID := pm_OperationID proposal,
                     bp_TargetPeerID := pm_TargetPeerID proposal, bp_RequestID := pm_RequestID proposal,
                     bp_GroupType := pm_GroupType proposal, bp_CategoryID := pm_CategoryID proposal,
                     bp_KeyPackageHash := pm_KeyPackageHash proposal\<rparr>) D c2
       in if c_groupState c3 = [] then Some c3
          else if IsTokenHolder_c D c3 then scheduleBatchCommitLocked D k c3
          else Some (scheduleFailoverTimerLocked D c3))"

definition accept_proposal :: "Deps \<Rightarrow> peer_id \<Rightarrow> Envelope \<Rightarrow> ProposalMsg \<Rightarrow> Coord \<Rightarrow> Coord" where
  "accept_proposal D from env proposal c =
    emit (OnProposalObserved \<lparr>pas_GroupID = d_groupID D, pas_Epoch = env_Epoch env,
        pas_ActorPeerID = d_pidString D from, pas_ProposalType = pm_ProposalType proposal,
        pas_OperationID = pm_OperationID proposal, pas_TargetPeerID = pm_TargetPeerID proposal,
        pas_RequestID = pm_RequestID proposal, pas_GroupType = pm_GroupType proposal,
        pas_CategoryID = pm_CategoryID proposal, pas_KeyPackageHash = pm_KeyPackageHash proposal\<rparr>)
      (meter IncrProposalsReceived
        (scheduleFailoverTimerLocked D
          (on_writer (BufferProposal \<lparr>bp_Type = pm_ProposalType proposal, bp_Data = pm_Data proposal,
              bp_ProposalRef = pm_ProposalRef proposal, bp_OperationID = pm_OperationID proposal,
              bp_TargetPeerID = pm_TargetPeerID proposal, bp_RequestID = pm_RequestID proposal,
              bp_GroupType = pm_GroupType proposal, bp_CategoryID = pm_CategoryID proposal,
              bp_KeyPackageHash = pm_KeyPackageHash proposal\<rparr>) c)))"

definition handleProposalLocked :: "Deps \<Rightarrow> reentry \<Rightarrow> peer_id \<Rightarrow> Envelope \<Rightarrow> Coord \<Rightarrow> Coord option" where
  "handleProposalLocked D k from env c =
    (case u_proposal (d_json D) (env_Payload env) of
       Inl _ \<Rightarrow> Some c
     | Inr proposal \<Rightarrow>
        if c_groupState c = [] \<and> pm_ProposalType proposal \<noteq> ProposalJoin then Some c
        else if pm_ProposalType proposal = ProposalJoin then handle_join D k env proposal c
        else case Validate_et (env_Epoch env) (the (c_et c)) of
            ActionRejectStale \<Rightarrow> Some c
          | ActionBufferFuture \<Rightarrow>
              Some (on_tracker (BufferFuture (env_Epoch env)
                      (case j_envelope (d_json D) env of None \<Rightarrow> [] | Some raw \<Rightarrow> raw)) c)
          | ActionProcess \<Rightarrow>
              (case engine (\<lambda>n. mls_ProcessProposal (d_mls D) n (c_groupState c) (pm_Data proposal)) c of
                 (Inl _, c1) \<Rightarrow> Some c1
               | (Inr processed, c1) \<Rightarrow>
                  let ref = (if pm_ProposalRef proposal = [] then ppr_ProposalRef processed
                             else pm_ProposalRef proposal)
                  in if ref \<noteq> ppr_ProposalRef processed then Some c1
                     else case persistCurrentEpochStateLocked D (ppr_NewGroupState processed) c1 of
                         (Inl _, c2) \<Rightarrow> Some c2
                       | (Inr _, c2) \<Rightarrow>
                          let c3 = accept_proposal D from env (proposal\<lparr>pm_ProposalRef := ref\<rparr>)
                                     (c2\<lparr>c_groupState := ppr_NewGroupState processed\<rparr>)
                          in if IsTokenHolder_c D c3 then scheduleBatchCommitLocked D k c3 else Some c3))"

definition proposeLockedWithMetadata ::
  "Deps \<Rightarrow> reentry \<Rightarrow> ProposalType \<Rightarrow> bytes \<Rightarrow> BufferedProposal \<Rightarrow> Coord \<Rightarrow> ((error + unit) \<times> Coord) option" where
  "proposeLockedWithMetadata D k pType data meta c =
    (if \<not> c_started c then Some (Inl (ErrMsg ''coordinator not started''), c)
     else if c_accessRevoked c then Some (Inl ErrAccessRevoked, c)
     else case createAndStoreLocalProposalLocked D pType data meta c of
         (Inl err, c1) \<Rightarrow> Some (Inl (ErrWrap ''CreateProposal: '' err), c1)
       | (Inr (msg, buffered), c1) \<Rightarrow>
          let c2 = emit (OnProposalObserved \<lparr>pas_GroupID = d_groupID D, pas_Epoch = c_epoch c1,
                     pas_ActorPeerID = d_pidString D (d_localID D), pas_ProposalType = pType,
                     pas_OperationID = '''', pas_TargetPeerID = bp_TargetPeerID meta, pas_RequestID = '''',
                     pas_GroupType = '''', pas_CategoryID = '''', pas_KeyPackageHash = []\<rparr>)
                 (meter IncrProposalsReceived (scheduleFailoverTimerLocked D
                   (on_writer (BufferProposal buffered)
                     (broadcastLocked D MsgProposal (ProposalPayload msg) c1))))
          in if IsTokenHolder_c D c2
             then map_option (\<lambda>c3. (Inr (), c3)) (scheduleBatchCommitLocked D k c2)
             else Some (Inr (), c2))"

definition propose :: "Deps \<Rightarrow> reentry \<Rightarrow> ProposalType \<Rightarrow> bytes \<Rightarrow> Coord \<Rightarrow> ((error + unit) \<times> Coord) option" where
  "propose D k pType data c = proposeLockedWithMetadata D k pType data empty_proposal c"

section \<open>The circle of calls\<close>

definition handle_buffered :: "Deps \<Rightarrow> reentry \<Rightarrow> bytes \<Rightarrow> Coord \<Rightarrow> Coord option" where
  "handle_buffered D k raw c =
    (case u_envelope (d_json D) raw of
       Inl _ \<Rightarrow> Some c
     | Inr env \<Rightarrow>
        let from = decodeEnvelopePeerID D (env_From env) '''' in
        case env_Type env of
          MsgProposal \<Rightarrow> handleProposalLocked D k from env c
        | MsgCommit \<Rightarrow> map_option snd (handleCommitLocked D k env raw c)
        | MsgApplication \<Rightarrow> Some (snd (handleApplicationLocked D from env raw c))
        | MsgApplicationBatched \<Rightarrow> Some (snd (handleApplicationBatchedLocked D from env raw c))
        | _ \<Rightarrow> Some c)"

fun reenter :: "Deps \<Rightarrow> nat \<Rightarrow> reentry" where
  "reenter D 0 call c = None"
| "reenter D (Suc n) CallTryCommit c = tryCommitLocked D (reenter D n) c"
| "reenter D (Suc n) (CallBuffered raw) c = handle_buffered D (reenter D n) raw c"

section \<open>Steps started by timers and by the view\<close>

definition proposal_timer_fired :: "Deps \<Rightarrow> reentry \<Rightarrow> nat \<Rightarrow> Coord \<Rightarrow> Coord option" where
  "proposal_timer_fired D k ch c =
    (if c_proposalTimer c \<noteq> Some ch then Some c
     else let c1 = c\<lparr>c_proposalTimer := None\<rparr> in
       if c_sw c1 \<noteq> None \<and> IsTokenHolder_c D c1 \<and> proposal_count c1 > 0 then tryCommitLocked D k c1 else Some c1)"

definition failover_timer_fired :: "Deps \<Rightarrow> reentry \<Rightarrow> nat \<Rightarrow> Coord \<Rightarrow> Coord option" where
  "failover_timer_fired D k ch c =
    (if c_failoverTimer c \<noteq> Some ch then Some c
     else let c1 = c\<lparr>c_failoverTimer := None\<rparr> in
       if c_sw c1 \<noteq> None \<and> proposal_count c1 > 0 \<and> \<not> IsTokenHolder_c D c1
       then (case CurrentTokenHolder_c D c1 of
               Inl _ \<Rightarrow> Some c1
             | Inr holder \<Rightarrow>
                if holder = '''' then Some c1
                else let c2 = on_writer (Suspend holder) c1 in
                  if IsTokenHolder_c D c2 then scheduleBatchCommitLocked D k c2
                  else Some (scheduleFailoverTimerLocked D c2))
       else Some c1)"

definition timer_cancelled :: "nat \<Rightarrow> Coord \<Rightarrow> Coord" where
  "timer_cancelled ch c =
    (let c1 = (if c_proposalTimer c = Some ch then c\<lparr>c_proposalTimer := None\<rparr> else c)
     in if c_failoverTimer c1 = Some ch then c1\<lparr>c_failoverTimer := None\<rparr> else c1)"

definition handleActiveViewChange :: "Deps \<Rightarrow> reentry \<Rightarrow> Coord \<Rightarrow> Coord option" where
  "handleActiveViewChange D k c =
    (if \<not> c_started c then Some c
     else if c_sw c = None then Some c
     else case CurrentTokenHolder_c D c of
         Inl _ \<Rightarrow> Some c
       | Inr newHolder \<Rightarrow>
          let wasTokenHolder = (c_lastTokenHolder c = d_localID D);
              isTokenHolder = (newHolder = d_localID D);
              c1 = snd (persistCoordStateLocked D (c\<lparr>c_lastTokenHolder := newHolder\<rparr>))
          in if isTokenHolder \<and> \<not> wasTokenHolder \<and> proposal_count c1 > 0 then tryCommitLocked D k c1 else Some c1)"

section \<open>The methods that stay on the epoch\<close>

lemma writer_id_buffer [simp]:
  "writer_id (BufferProposal p sw) = writer_id sw" "writer_id (snd (DrainBatchByRefs rs sw)) = writer_id sw"
  "writer_id (snd (DrainBatchByData ds sw)) = writer_id sw" "writer_id (Suspend pid sw) = writer_id sw"
  by (simp_all add: writer_id_def BufferProposal_def DrainBatchByRefs_def DrainBatchByData_def Suspend_def)

lemma keeps_buffer_ops [keeps_intros]:
  assumes "keeps a c"
  shows "keeps a (on_writer (BufferProposal p) c)" "keeps a (on_writer (\<lambda>sw. snd (DrainBatchByRefs rs sw)) c)"
    "keeps a (on_writer (\<lambda>sw. snd (DrainBatchByData ds sw)) c)" "keeps a (on_writer (Suspend pid) c)"
  using assms by (auto intro!: keeps_writer simp: sw_ok_Buffer sw_ok_Drain sw_ok_other)

lemma keeps_timers [keeps_intros]:
  assumes "keeps a c"
  shows "keeps a (snd (start_timer d c))" "keeps a (deferCommitUntilViewReadyLocked D c)"
    "keeps a (scheduleFailoverTimerLocked D c)" "keeps a (timer_cancelled ch c)"
proof -
  have t: "keeps a (snd (start_timer d c))" for d
    unfolding start_timer_def using assms by (simp add: keeps_intros)
  then show "keeps a (snd (start_timer d c))" .
  show "keeps a (deferCommitUntilViewReadyLocked D c)"
    unfolding deferCommitUntilViewReadyLocked_def Let_def using assms
    by (simp add: case_prod_beta keeps_field t)
  show "keeps a (scheduleFailoverTimerLocked D c)"
    unfolding scheduleFailoverTimerLocked_def Let_def using assms
    by (simp add: case_prod_beta keeps_field t)
  show "keeps a (timer_cancelled ch c)"
    unfolding timer_cancelled_def Let_def using assms by (simp add: keeps_field)
qed

lemma keeps_create [keeps_intros]:
  "keeps a c \<Longrightarrow> keeps a (snd (createAndStoreLocalProposalLocked D pType data meta c))"
  unfolding createAndStoreLocalProposalLocked_def
  by (simp add: case_prod_beta keeps_intros split: sum.split)

lemma keeps_op_saves [keeps_intros]:
  assumes "keeps a c"
  shows "keeps a (save_op op c)" "keeps a (settle_op D commit op c)"
    "keeps a (emitPendingOperationAuditLocked D op stage n e err c)" "keeps a (supersede_op D commit op c)"
  using assms
  by (auto simp: save_op_def settle_op_def emitPendingOperationAuditLocked_def supersede_op_def Let_def
      intro!: keeps_prim split: option.split)

lemma keeps_seal [keeps_intros]: "keeps a c \<Longrightarrow> keeps a (seal_own_message D job b m c)"
  unfolding seal_own_message_def by (simp add: case_prod_beta keeps_intros split: sum.split)

lemma keeps_reconcile [keeps_intros]:
  "keeps a c \<Longrightarrow> keeps a (reconcileOperationsAfterCommitLocked D commit c)"
proof -
  have s: "keeps a (supersedeStaleMembershipOpsLocked D commit x)" if "keeps a x" for x
    unfolding supersedeStaleMembershipOpsLocked_def using that
    by (simp add: case_prod_beta keeps_intros split: sum.split)
  have o: "keeps a (snd (own_messages D x))" if "keeps a x" for x
    unfolding own_messages_def using that by (simp add: case_prod_beta keeps_intros split: sum.split)
  assume "keeps a c"
  then show ?thesis
    unfolding reconcileOperationsAfterCommitLocked_def Let_def
    by (simp add: case_prod_beta keeps_intros s o split: sum.split)
qed

lemma keeps_after_reproposal [keeps_intros]: "keeps a c \<Longrightarrow> keeps a (after_reproposal D e op c)"
  unfolding after_reproposal_def Let_def by (simp add: case_prod_beta keeps_intros split: option.split)

lemma keeps_satisfied [keeps_intros]: "keeps a c \<Longrightarrow> keeps a (snd (removal_satisfied D op c))"
  unfolding removal_satisfied_def by (simp add: case_prod_beta keeps_intros split: sum.split)

lemma keeps_commit_helpers [keeps_intros]:
  assumes "keeps a c"
  shows "keeps a (buffer_created pType data meta D c)" "keeps a (accept_proposal D p env proposal c)"
    "keeps a (drain_committed commit c)" "keeps a (observe_additions ds e w c)"
    "keeps a (triggerBatchReplayAsync g c)" "keeps a (emitCommitIssuedLocked D e1 e2 batch c)"
    "keeps a (snd (apply_commit D s th mt wire ts ee c))"
  using assms
  by (simp_all add: buffer_created_def accept_proposal_def drain_committed_def observe_additions_def
      triggerBatchReplayAsync_def emitCommitIssuedLocked_def apply_commit_def case_prod_beta keeps_intros Let_def
      split: sum.split)

section \<open>Advancing keeps the components together\<close>

lemma AdvanceEpoch_writer: "sw_ok (AdvanceEpoch e sw)" "sw_epoch (AdvanceEpoch e sw) = e"
  "writer_id (AdvanceEpoch e sw) = (sw_localID sw, e, sw_cfg sw, sw_groupID sw, sw_authorized sw)"
  by (simp_all add: AdvanceEpoch_def sw_ok_def writer_id_def)

lemma enter_epoch_simps:
  assumes "c_et c = Some et" "c_sw c = Some sw"
  shows "fst (enter_epoch D s e th c) = buffered_at (et_futureBuffer et) e"
    "c_epoch (snd (enter_epoch D s e th c)) = e" "c_et (snd (enter_epoch D s e th c)) = Some (snd (Advance e th et))"
    "c_sw (snd (enter_epoch D s e th c)) = Some (AdvanceEpoch e sw)"
    "c_historyHash (snd (enter_epoch D s e th c)) = c_historyHash c"
    "c_historyChain (snd (enter_epoch D s e th c)) = c_historyChain c"
    "c_view (snd (enter_epoch D s e th c)) = c_view c" "c_started (snd (enter_epoch D s e th c)) = c_started c"
    "c_accessRevoked (snd (enter_epoch D s e th c)) = c_accessRevoked c"
    "c_groupState (snd (enter_epoch D s e th c)) = s" "c_db (snd (enter_epoch D s e th c)) = c_db c"
    "c_out (snd (enter_epoch D s e th c)) = c_out c"
  using assms Advance_simps(3) [of e th et]
  by (auto simp: enter_epoch_def Let_def on_writer_def case_prod_beta split: sum.split)

lemma extend_history_simps:
  "c_epoch (extend_history D e h c) = c_epoch c" "c_et (extend_history D e h c) = c_et c"
  "c_sw (extend_history D e h c) = c_sw c" "c_view (extend_history D e h c) = c_view c"
  "c_started (extend_history D e h c) = c_started c" "c_accessRevoked (extend_history D e h c) = c_accessRevoked c"
  "c_fd (extend_history D e h c) = c_fd c" "c_groupState (extend_history D e h c) = c_groupState c"
  "c_db (extend_history D e h c) = c_db c" "c_out (extend_history D e h c) = c_out c"
  "c_historyHash c \<noteq> [] \<Longrightarrow> c_historyHash (extend_history D e h c) = computeHistoryHash D (c_historyHash c) h"
  "c_historyHash c \<noteq> [] \<Longrightarrow>
    gget (c_historyChain (extend_history D e h c)) e' =
      (if e' = e then Some (computeHistoryHash D (c_historyHash c) h) else gget (c_historyChain c) e')"
  by (simp_all add: extend_history_def Let_def)

lemma settle_epoch_simps:
  "c_epoch (settle_epoch D e c) = c_epoch c" "c_et (settle_epoch D e c) = c_et c"
  "c_sw (settle_epoch D e c) = c_sw c" "c_view (settle_epoch D e c) = c_view c"
  "c_started (settle_epoch D e c) = c_started c" "c_accessRevoked (settle_epoch D e c) = c_accessRevoked c"
  "c_historyHash (settle_epoch D e c) = c_historyHash c" "c_historyChain (settle_epoch D e c) = c_historyChain c"
  "c_groupState (settle_epoch D e c) = c_groupState c" "c_out (settle_epoch D e c) = c_out c @ [OnEpochChange e]"
  "fd_local (c_fd (settle_epoch D e c)) = Some (local_announcement c)"
  by (simp_all add: settle_epoch_def emit_def persistCoordStateLocked_def on_db_def Let_def UpdateLocal_def
      case_prod_beta)

definition entered :: "Deps \<Rightarrow> bytes \<Rightarrow> u64 \<Rightarrow> bytes \<Rightarrow> bytes \<Rightarrow> Coord \<Rightarrow> Coord" where
  "entered D s e th commitData c =
    settle_epoch D e (extend_history D e (hashCommitData D commitData) (snd (enter_epoch D s e th c)))"

lemma advanceEpoch_entered:
  "advanceEpochLocked D k s e th cd c = run_buffered k (fst (enter_epoch D s e th c)) (entered D s e th cd c)"
  by (simp add: advanceEpochLocked_def entered_def Let_def case_prod_beta)

lemma entered_ok:
  assumes h: "hash_ok D" and ok: "coord_ok D c" and e: "e = c_epoch c + 1"
  shows "coord_ok D (entered D s e th cd c) \<and> advances D [hashCommitData D cd] c (entered D s e th cd c)"
proof -
  obtain sw et where sw: "c_sw c = Some sw" "writer_id sw = (d_localID D, c_epoch c, d_cfg D, d_groupID D, d_authorized D)"
    and et: "c_et c = Some et" "tracker_ok et"
    using ok by (auto simp: coord_ok_def)
  have nz: "c_historyHash c \<noteq> []" using ok by (simp add: coord_ok_def)
  have hz: "computeHistoryHash D (c_historyHash c) x \<noteq> []" for x
    using h by (metis computeHistoryHash_def hash_ok_def list.size(3) zero_neq_numeral)
  note simps = entered_def settle_epoch_simps extend_history_simps enter_epoch_simps [OF et(1) sw(1)]
  have "coord_ok D (entered D s e th cd c)"
    using ok sw et nz hz
    by (simp add: coord_ok_def simps AdvanceEpoch_writer tracker_ok_Advance local_announcement_def)
      (simp add: writer_id_def)
  moreover have "advances D [hashCommitData D cd] c (entered D s e th cd c)"
    using nz by (simp add: advances_def simps e)
  ultimately show ?thesis by blast
qed

section \<open>A contract for every method\<close>

text \<open>
  A relation between the states before and after a step that every step which keeps the epoch satisfies,
  the entry into the next epoch, and the buffering of a message for a later one. Under it all methods of
  the circle satisfy it as soon as the two re-entrant calls do; the knot is tied by induction on the fuel.
  The interpretations below and in later theories choose the relation.
\<close>

locale contract =
  fixes D :: Deps and R :: "Coord \<Rightarrow> Coord \<Rightarrow> bool"
  assumes kept: "keeps c c' \<Longrightarrow> R c c'"
    and R_trans: "R c1 c2 \<Longrightarrow> R c2 c3 \<Longrightarrow> R c1 c3"
    and entering: "R c (entered D s (c_epoch c + 1) th cd c)"
    and buffering: "u_envelope (d_json D) raw = Inr env \<Longrightarrow> R c (on_tracker (BufferFuture (env_Epoch env) raw) c)"
    and rebuffering: "R c (on_tracker (BufferFuture (env_Epoch env)
      (case j_envelope (d_json D) env of None \<Rightarrow> [] | Some raw \<Rightarrow> raw)) c)"
    and untracked: "c_et c = None \<Longrightarrow> R c c'"
    and viewing: "(view_ok (c_view c) \<Longrightarrow> view_ok av) \<Longrightarrow> R c (c\<lparr>c_view := av\<rparr>)"
    and announcing: "R c (c\<lparr>c_fd := UpdateLocal (local_announcement c) (c_fd c)\<rparr>)"
begin

lemma R_refl [simp]: "R c c"
  by (rule kept) simp

lemma application_rel:
  assumes env: "u_envelope (d_json D) wire = Inr env"
  shows "R c (snd (handleApplicationDetailedLocked D p env wire c))"
    "R c (snd (handleApplicationLocked D p env wire c))"
    "R c (snd (handleApplicationBatchedLocked D p env wire c))"
proof -
  have "R c (snd (handleApplicationDetailedLocked D p env wire c)) \<and>
    R c (snd (handleApplicationBatchedLocked D p env wire c))"
  proof (cases "c_et c")
    case (Some et)
    have "R c c'" if "keeps (on_tracker (BufferFuture (env_Epoch env) wire) c) c'" for c'
      using buffering [OF env] kept [OF that] by (rule R_trans)
    then show ?thesis
      using keeps_application [OF Some, of env wire D p] keeps_application_batched [OF Some, of D p env wire]
      by (auto simp: keeps_or_buffers_def intro: kept)
  qed (simp add: untracked)
  then show "R c (snd (handleApplicationDetailedLocked D p env wire c))"
    "R c (snd (handleApplicationLocked D p env wire c))"
    "R c (snd (handleApplicationBatchedLocked D p env wire c))"
    by (simp_all add: handleApplicationLocked_def case_prod_beta)
qed

end

locale reentrant = contract +
  fixes k :: reentry
  assumes step: "k call c = Some c' \<Longrightarrow> R c c'"
begin

lemma schedule_rel: "scheduleBatchCommitLocked D k c = Some c' \<Longrightarrow> R c c'"
  by (auto simp: scheduleBatchCommitLocked_def Let_def case_prod_beta split: if_splits
      intro: step kept keeps_intros)

lemma buffered_rel: "run_buffered k raws c = Some c' \<Longrightarrow> R c c'"
proof (induction raws arbitrary: c)
  case (Cons raw raws)
  then obtain c1 where "k (CallBuffered raw) c = Some c1" "run_buffered k raws c1 = Some c'"
    by (auto split: Option.bind_splits)
  then show ?case using step Cons.IH by (blast intro: R_trans)
qed simp

lemma advanceEpoch_rel:
  assumes "advanceEpochLocked D k s (c_epoch c + 1) th cd c = Some c'"
  shows "R c c'"
proof -
  have "R c (entered D s (c_epoch c + 1) th cd c)" by (rule entering)
  then show ?thesis
    using assms buffered_rel unfolding advanceEpoch_entered by (blast intro: R_trans)
qed

lemma announce_rel: "announce_proposal D k msg b c = Some c' \<Longrightarrow> R c c'"
proof -
  let ?c1 = "on_writer (BufferProposal b) (broadcastLocked D MsgProposal (ProposalPayload msg) c)"
  have "keeps c ?c1" by (intro keeps_intros)
  then have "R c ?c1" "R c (scheduleFailoverTimerLocked D ?c1)"
    by (auto intro: kept keeps_timers)
  then show "announce_proposal D k msg b c = Some c' \<Longrightarrow> R c c'"
    unfolding announce_proposal_def Let_def by (auto split: if_splits intro: R_trans schedule_rel)
qed

lemma repropose_rel: "repropose D k e op c = Some c' \<Longrightarrow> R c c'"
proof -
  assume run: "repropose D k e op c = Some c'"
  show ?thesis
  proof (cases "proposal_of_op op")
    case None
    then show ?thesis using run by (simp add: repropose_def)
  next
    case (Some pm)
    obtain pType meta where pm: "pm = (pType, meta)" by (cases pm)
    obtain res c1 where cr: "createAndStoreLocalProposalLocked D pType (po_SemanticPayload op) meta c = (res, c1)"
      by (metis prod.exhaust)
    have k1: "keeps c c1" using keeps_create [OF keeps_refl] cr by (metis snd_conv)
    show ?thesis
    proof (cases res)
      case (Inl err)
      then show ?thesis using run Some pm cr k1
        by (auto simp: repropose_def intro!: kept keeps_op_saves)
    next
      case (Inr mb)
      obtain msg b where mb: "mb = (msg, b)" by (cases mb)
      from run Some pm cr Inr mb obtain c2 op' where c2: "announce_proposal D k msg b c1 = Some c2"
        and c': "c' = after_reproposal D e op' c2"
        by (auto simp: repropose_def split: Option.bind_splits)
      have "R c2 c'" unfolding c' by (intro kept keeps_intros)
      then show ?thesis
        using kept [OF k1] announce_rel [OF c2] by (blast intro: R_trans)
    qed
  qed
qed

lemma rebase_op_rel: "rebase_op D k op c = Some c' \<Longrightarrow> R c c'"
proof -
  obtain b c1 where s: "removal_satisfied D op c = (b, c1)" by (metis prod.exhaust)
  have k1: "keeps c c1" using keeps_satisfied [OF keeps_refl] s by (metis snd_conv)
  have r: "repropose D k e op' c1 = Some c' \<Longrightarrow> R c c'" for e op'
    using kept [OF k1] repropose_rel by (blast intro: R_trans)
  show "rebase_op D k op c = Some c' \<Longrightarrow> R c c'"
    unfolding rebase_op_def s Let_def using k1
    by (auto split: if_splits option.splits intro: r kept keeps_op_saves keeps_refl)
qed

lemma rebase_ops_rel: "rebase_ops D k ops c = Some c' \<Longrightarrow> R c c'"
proof (induction ops arbitrary: c)
  case (Cons op ops)
  then obtain c1 where "rebase_op D k op c = Some c1" "rebase_ops D k ops c1 = Some c'"
    by (auto split: Option.bind_splits)
  then show ?case using rebase_op_rel Cons.IH by (blast intro: R_trans)
qed simp

lemma rebase_rel: "reconcileAndRebaseOperationsLocked D k c = Some c' \<Longrightarrow> R c c'"
proof -
  obtain res c1 where l: "on_db (ListPendingOperations (d_groupID D)) c = (res, c1)" by (metis prod.exhaust)
  have e1: "R c c1" using keeps_bind(1) [OF l keeps_refl] by (rule kept)
  assume run: "reconcileAndRebaseOperationsLocked D k c = Some c'"
  show ?thesis
  proof (cases res)
    case (Inl err)
    then show ?thesis using run l e1 by (simp add: reconcileAndRebaseOperationsLocked_def)
  next
    case (Inr ops)
    with run l obtain c2 where "rebase_ops D k ops c1 = Some c2"
      "(if IsTokenHolder_c D c2 then scheduleBatchCommitLocked D k c2 else Some c2) = Some c'"
      by (auto simp: reconcileAndRebaseOperationsLocked_def split: Option.bind_splits)
    then have "R c1 c2" "R c2 c'"
      by (auto split: if_splits intro: rebase_ops_rel schedule_rel)
    with e1 show ?thesis by (blast intro: R_trans)
  qed
qed

lemma after_commit_rel:
  assumes "after_commit D k commit rp s e c = Some c'"
  shows "R c c'"
proof -
  let ?c1 = "reconcileOperationsAfterCommitLocked D commit c"
  let ?c2 = "if rp then triggerBatchReplayAsync (d_groupID D) ?c1 else ?c1"
  obtain c3 where "reconcileAndRebaseOperationsLocked D k ?c2 = Some c3"
    and c': "c' = updateLocalAccessRevocationLocked D s e c3"
    using assms by (auto simp: after_commit_def Let_def split: Option.bind_splits)
  moreover have "keeps c ?c2" by (auto intro: keeps_intros)
  moreover have "R c3 c'" unfolding c' by (intro kept keeps_intros)
  ultimately show ?thesis using rebase_rel kept by (blast intro: R_trans)
qed

lemma finish_commit_rel:
  assumes "finish_commit D k m r envb rp c = Some c'"
  shows "R c c'"
proof -
  let ?c1 = "publishPreparedEnvelopeLocked MsgCommit envb
      (on_writer (\<lambda>sw. snd (DrainBatchByRefs (cm_CommittedProposalRefs m) sw)) c)"
  have k1: "keeps c ?c1" by (intro keeps_intros)
  then have e1: "c_epoch ?c1 = c_epoch c" by (rule keeps_epoch)
  obtain c2 c3 where "advanceEpochLocked D k (ccr_NewGroupState r) (c_epoch ?c1 + 1) (ccr_NewTreeHash r) (ccr_CommitBytes r) ?c1 = Some c2"
    and "after_commit D k m rp (ccr_NewGroupState r) (c_epoch c + 1) c2 = Some c3"
    and c': "c' = meter (AddCommitBytes (int (length (ccr_CommitBytes r)))) (meter IncrCommitsIssued c3)"
    using assms unfolding finish_commit_def Let_def e1 by (auto split: Option.bind_splits)
  moreover have "R c3 c'" unfolding c' by (intro kept keeps_intros)
  ultimately show ?thesis
    using kept [OF k1] advanceEpoch_rel after_commit_rel by (blast intro: R_trans)
qed

end

context reentrant
begin

lemma process_commit_rel:
  assumes run: "process_commit D k env wire commit c = Some (b, c')"
  shows "R c c'"
proof -
  let ?g = "\<lambda>n. mls_ProcessCommit (d_mls D) n (c_groupState c) (cm_CommitData commit)
      (proposalBytesFromMsgs (cm_IncludedProposals commit))"
  obtain res c1 where g: "engine ?g c = (res, c1)" by (metis prod.exhaust)
  have k1: "keeps c c1" using keeps_bind(2) [OF g keeps_refl] .
  show ?thesis
  proof (cases res)
    case (Inl err)
    then show ?thesis using run g k1
      by (auto simp: process_commit_def Let_def intro!: kept keeps_helpers)
  next
    case (Inr st)
    obtain s th where st: "st = (s, th)" by (cases st)
    obtain ap c2 where a: "apply_commit D s th (env_Type env) wire (env_Timestamp env) (env_Epoch env) c1 = (ap, c2)"
      by (metis prod.exhaust)
    have k2: "keeps c c2" using keeps_commit_helpers(7) [OF k1] a by (metis snd_conv)
    then have ep: "c_epoch c2 = c_epoch c1" using k1 by (simp add: keeps_def)
    show ?thesis
    proof (cases "\<exists>seq. ap = Inr (True, seq)")
      case False
      then have "c' = c2" using run g Inr st a
        by (auto simp: process_commit_def Let_def split: sum.splits prod.splits bool.splits)
      then show ?thesis using k2 by (simp add: kept)
    next
      case True
      then obtain c3 c4 where
        c3: "advanceEpochLocked D k s (c_epoch c2 + 1) th (cm_CommitData commit) c2 = Some c3"
        and c4: "after_commit D k commit True s (c_epoch c2 + 1) (drain_committed commit c3) = Some c4"
        and c': "c' = observe_additions (cm_AddDeliveries commit) (c_epoch c2 + 1) []
            (meter (RecordEpochFinalization (c_now c4 - c_now c)) c4)"
        using run g Inr st a ep by (auto simp: process_commit_def Let_def split: Option.bind_splits)
      have "R c3 (drain_committed commit c3)" "R c4 c'"
        unfolding c' by (intro kept keeps_intros)+
      then show ?thesis
        using kept [OF k2] advanceEpoch_rel [OF c3] after_commit_rel [OF c4]
        by (blast intro: R_trans)
    qed
  qed
qed

lemma handleCommit_rel:
  assumes env: "u_envelope (d_json D) wire = Inr env" and run: "handleCommitLocked D k env wire c = Some (b, c')"
  shows "R c c'"
proof -
  have buf: "R c (on_tracker (BufferFuture (env_Epoch env) wire) c)" using env by (rule buffering)
  have met: "R c (meter IncrDuplicateEpochDetected c)" by (intro kept keeps_intros)
  show ?thesis
  proof (cases "Validate_et (env_Epoch env) (the (c_et c)) = ActionProcess \<and>
      (\<exists>commit. u_commit (d_json D) (env_Payload env) = Inr commit)")
    case False
    then show ?thesis using run buf met
      by (auto simp: handleCommitLocked_def split: EpochAction.splits sum.splits)
  next
    case True
    then obtain commit where cm: "u_commit (d_json D) (env_Payload env) = Inr commit" by blast
    obtain h dup c1 where ck: "checkAppliedEnvelopeLocked D env wire c = ((h, dup), c1)" by (metis prod.exhaust)
    have k1: "keeps c c1" using keeps_bind_results(1) [OF ck keeps_refl] .
    let ?g = "\<lambda>n. mls_StageCommit (d_mls D) n (c_groupState c1) (cm_CommitData commit)
        (proposalBytesFromMsgs (cm_IncludedProposals commit))"
    obtain res c2 where g: "engine ?g c1 = (res, c2)" by (metis prod.exhaust)
    have k2: "keeps c c2" using keeps_bind(2) [OF g k1] .
    have inv: "R c (markInvalidCommitLocked x c2)" for x using k2 by (intro kept keeps_helpers)
    have rest: "process_commit D k env wire commit c2 = Some (b, c') \<Longrightarrow> R c c'"
      using kept [OF k2] process_commit_rel by (blast intro: R_trans)
    show ?thesis using run True cm kept [OF k1] inv rest
      by (auto simp: handleCommitLocked_def ck g Let_def split: sum.splits if_splits)
  qed
qed

lemma handleCommitDetailed_rel:
  assumes env: "u_envelope (d_json D) wire = Inr env"
    and run: "handleCommitDetailedLocked D k env wire c = Some (r, c')"
  shows "R c c'"
proof -
  obtain h dup c1 where ck: "checkAppliedEnvelopeLocked D env wire c = ((h, dup), c1)" by (metis prod.exhaust)
  have k1: "keeps c c1" using keeps_bind_results(1) [OF ck keeps_refl] .
  have fin: "R c x \<Longrightarrow> R c (markReplayResultLocked D y x)" for x y
    by (rule R_trans) (auto intro: kept keeps_intros)
  have buf: "R c (on_tracker (BufferFuture (env_Epoch env) wire) c1)"
    using kept [OF k1] buffering [OF env] by (rule R_trans)
  show ?thesis
  proof (cases "\<not> dup \<and> Validate_et (env_Epoch env) (the (c_et c1)) = ActionProcess")
    case False
    then show ?thesis using run fin buf kept [OF k1]
      by (auto simp: handleCommitDetailedLocked_def ck finish_def Let_def split: EpochAction.splits if_splits)
  next
    case True
    with run obtain b c2 where c2: "handleCommitLocked D k env wire c1 = Some (b, c2)"
      by (auto simp: handleCommitDetailedLocked_def ck Let_def split: Option.bind_splits)
    have e2: "R c c2"
      using kept [OF k1] handleCommit_rel [OF env c2] by (rule R_trans)
    have "R c2 (snd (on_db f c2))" for f by (intro kept keeps_intros)
    then have e3: "R c (snd (on_db f c2))" for f using e2 R_trans by blast
    show ?thesis using run True c2 fin e2 fin [OF e3]
      by (auto simp: handleCommitDetailedLocked_def ck finish_def case_prod_beta Let_def
          split: sum.splits bool.splits if_splits)
  qed
qed

lemma doCommit_rel:
  assumes run: "doCommitBatchLocked D k batch c = Some c'"
  shows "R c c'"
proof (cases "c_groupState c = []")
  case True
  then show ?thesis using run by (simp add: doCommitBatchLocked_def)
next
  case False
  let ?g = "\<lambda>n. mls_CreateCommit (d_mls D) n (c_groupState c) (map bp_ProposalRef batch)"
  obtain res c1 where g: "engine ?g c = (res, c1)" by (metis prod.exhaust)
  have k1: "keeps c c1" using keeps_bind(2) [OF g keeps_refl] .
  obtain ts c2 where ts: "hlc_now c1 = (ts, c2)" by (metis prod.exhaust)
  have k2: "keeps c c2" using keeps_bind(3) [OF ts k1] .
  have k3: "keeps c c3" if "apply_commit D s th mt w ts' e c2 = (ap, c3)" for s th mt w ts' e ap c3
    using keeps_commit_helpers(7) [OF k2] that by (metis snd_conv)
  have fin: "R c c4" if "keeps c c3" "finish_commit D k m r w rp c3 = Some c4" for c3 c4 m r w rp
    using kept [OF that(1)] finish_commit_rel [OF that(2)] by (rule R_trans)
  have "R c4 (emitCommitIssuedLocked D e1 e2 bt c4)"
    "R c4 (observe_additions ds e3 w (emitCommitIssuedLocked D e1 e2 bt c4))" for c4 e1 e2 e3 bt ds w
    by (intro kept keeps_intros)+
  then have tail: "R c (emitCommitIssuedLocked D e1 e2 bt c4)"
    "R c (observe_additions ds e3 w (emitCommitIssuedLocked D e1 e2 bt c4))"
    if "R c c4" for c4 e1 e2 e3 bt ds w
    using that by (blast intro: R_trans)+
  show ?thesis
    using run False kept [OF k1] kept [OF k2]
    by (auto simp: doCommitBatchLocked_def g ts Let_def split: sum.splits if_splits prod.splits bool.splits Option.bind_splits
        dest!: k3 intro: kept dest: fin intro!: tail)
qed

end

context reentrant
begin

lemma tryCommit_rel: "tryCommitLocked D k c = Some c' \<Longrightarrow> R c c'"
  unfolding tryCommitLocked_def Let_def
  by (auto split: if_splits intro: doCommit_rel kept keeps_timers keeps_refl)

lemma schedule_or_wait:
  assumes "keeps c c1" "(if IsTokenHolder_c D c1 then scheduleBatchCommitLocked D k c1 else Some c2) = Some c'"
    "keeps c c2"
  shows "R c c'"
  using assms kept [OF assms(1)] schedule_rel [of c1 c']
  by (auto split: if_splits intro: kept R_trans)

lemma handle_join_rel:
  assumes run: "handle_join D k env proposal c = Some c'"
  shows "R c c'"
proof (cases "env_Epoch env + ucast (GetMaxPastEpochs (d_cfg D)) < c_epoch c \<or> c_groupState c = []")
  case True
  then show ?thesis using run unfolding handle_join_def by (auto split: if_splits)
next
  case False
  define target where "target = (if pm_TargetIdentity proposal = [] then string_bytes (pm_TargetPeerID proposal)
      else pm_TargetIdentity proposal)"
  obtain member c1 where m: "engine (\<lambda>n. mls_HasMember (d_mls D) n (c_groupState c) target) c = (member, c1)"
    by (metis prod.exhaust)
  have k1: "keeps c c1" using keeps_bind(2) [OF m keeps_refl] .
  define c2 where "c2 = (if member = Inr True
      then buffer_created ProposalRemove target (empty_proposal\<lparr>bp_TargetPeerID := pm_TargetPeerID proposal\<rparr>) D c1
      else c1)"
  have k2: "keeps c c2" unfolding c2_def using k1 by (auto intro: keeps_commit_helpers)
  define c3 where "c3 = buffer_created ProposalAdd (pm_Data proposal)
      (empty_proposal\<lparr>bp_OperationID := pm_OperationID proposal, bp_TargetPeerID := pm_TargetPeerID proposal,
         bp_RequestID := pm_RequestID proposal, bp_GroupType := pm_GroupType proposal,
         bp_CategoryID := pm_CategoryID proposal, bp_KeyPackageHash := pm_KeyPackageHash proposal\<rparr>) D c2"
  have k3: "keeps c c3" unfolding c3_def using k2 by (rule keeps_commit_helpers)
  have "(if c_groupState c3 = [] then Some c3
      else if IsTokenHolder_c D c3 then scheduleBatchCommitLocked D k c3
      else Some (scheduleFailoverTimerLocked D c3)) = Some c'"
    using run False unfolding handle_join_def Let_def target_def [symmetric] m prod.case c2_def [symmetric] c3_def [symmetric]
    by simp
  then show ?thesis
    using k3 schedule_or_wait [OF k3 _ keeps_timers(3) [OF k3]] by (auto split: if_splits intro: kept)
qed

lemma handleProposal_rel:
  assumes run: "handleProposalLocked D k p env c = Some c'"
  shows "R c c'"
proof (cases "u_proposal (d_json D) (env_Payload env)")
  case (Inl err)
  then show ?thesis using run by (simp add: handleProposalLocked_def)
next
  case (Inr proposal)
  show ?thesis
  proof (cases "pm_ProposalType proposal \<noteq> ProposalJoin \<and> c_groupState c \<noteq> [] \<and>
      Validate_et (env_Epoch env) (the (c_et c)) = ActionProcess")
    case False
    then show ?thesis using run Inr handle_join_rel rebuffering [of c env]
      by (auto simp: handleProposalLocked_def split: if_splits EpochAction.splits)
  next
    case True
    let ?g = "\<lambda>n. mls_ProcessProposal (d_mls D) n (c_groupState c) (pm_Data proposal)"
    obtain res c1 where g: "engine ?g c = (res, c1)" by (metis prod.exhaust)
    have k1: "keeps c c1" using keeps_bind(2) [OF g keeps_refl] .
    show ?thesis
    proof (cases res)
      case (Inl err)
      then show ?thesis using run Inr True g k1
        by (auto simp: handleProposalLocked_def intro: kept)
    next
      case ok: (Inr processed)
      obtain r2 c2 where p2: "persistCurrentEpochStateLocked D (ppr_NewGroupState processed) c1 = (r2, c2)"
        by (metis prod.exhaust)
      have k2: "keeps c c2" using keeps_bind_helpers(2) [OF p2 k1] .
      then have k3: "keeps c (accept_proposal D p env pr (c2\<lparr>c_groupState := s\<rparr>))" for pr s
        by (intro keeps_intros)
      show ?thesis using run Inr True g ok p2 k1 k2 schedule_or_wait [OF k3 _ k3]
        by (auto simp: handleProposalLocked_def Let_def split: if_splits sum.splits intro: kept)
    qed
  qed
qed

lemma propose_rel:
  assumes run: "proposeLockedWithMetadata D k pType data meta c = Some (r, c')"
  shows "R c c'"
proof -
  obtain res c1 where cr: "createAndStoreLocalProposalLocked D pType data meta c = (res, c1)" by (metis prod.exhaust)
  have k1: "keeps c c1" using keeps_create [OF keeps_refl] cr by (metis snd_conv)
  have k2: "keeps c (emit ev (meter m (scheduleFailoverTimerLocked D
      (on_writer (BufferProposal b) (broadcastLocked D MsgProposal pl c1)))))" for ev m b pl
    using k1 by (intro keeps_intros)
  have sch: "R c x" if "scheduleBatchCommitLocked D k y = Some x" "keeps c y" for x y
    using kept [OF that(2)] schedule_rel [OF that(1)] by (rule R_trans)
  show ?thesis using run k1 kept [OF k2]
    by (auto simp: proposeLockedWithMetadata_def cr Let_def split: if_splits sum.splits
        intro: kept dest!: sch [OF _ k2])
qed

lemma handle_buffered_rel:
  assumes run: "handle_buffered D k raw c = Some c'"
  shows "R c c'"
proof (cases "u_envelope (d_json D) raw")
  case (Inl err)
  then show ?thesis using run by (simp add: handle_buffered_def)
next
  case (Inr env)
  then show ?thesis using run application_rel [OF Inr]
    by (auto simp: handle_buffered_def Let_def split: MessageType.splits
        intro: handleProposal_rel handleCommit_rel)
qed

lemma timer_rel:
  "proposal_timer_fired D k ch c = Some c' \<Longrightarrow> R c c'"
  "failover_timer_fired D k ch c = Some c' \<Longrightarrow> R c c'"
proof -
  have k1: "keeps c (c\<lparr>c_proposalTimer := None\<rparr>)" "keeps c (c\<lparr>c_failoverTimer := None\<rparr>)" by (intro keeps_intros)+
  then show "proposal_timer_fired D k ch c = Some c' \<Longrightarrow> R c c'"
    unfolding proposal_timer_fired_def Let_def
    by (auto split: if_splits intro: kept R_trans [OF kept [OF k1(1)] tryCommit_rel])
  have k2: "keeps c (on_writer (Suspend h) (c\<lparr>c_failoverTimer := None\<rparr>))" for h using k1 by (intro keeps_intros)
  show "failover_timer_fired D k ch c = Some c' \<Longrightarrow> R c c'"
    unfolding failover_timer_fired_def Let_def
    using k1(2) schedule_or_wait [OF k2 _ keeps_timers(3) [OF k2]]
    by (auto split: if_splits sum.splits intro: kept)
qed

lemma view_change_rel:
  assumes "handleActiveViewChange D k c = Some c'"
  shows "R c c'"
proof -
  have k1: "keeps c (snd (persistCoordStateLocked D (c\<lparr>c_lastTokenHolder := h\<rparr>)))" for h by (intro keeps_intros)
  show ?thesis using assms kept [OF k1] R_trans [OF kept [OF k1] tryCommit_rel]
    by (auto simp: handleActiveViewChange_def Let_def split: if_splits sum.splits)
qed

end

text \<open>The knot: the fuelled calls satisfy the contract, so every method does.\<close>

context contract
begin

lemma reenter_rel: "reenter D n call c = Some c' \<Longrightarrow> R c c'"
proof (induction n arbitrary: call c c')
  case (Suc n)
  then have r: "reentrant D R (reenter D n)" by unfold_locales
  show ?case
    using Suc.prems reentrant.tryCommit_rel [OF r] reentrant.handle_buffered_rel [OF r]
    by (cases call) auto
qed simp

end

sublocale contract \<subseteq> re: reentrant D R "reenter D n" for n
  by unfold_locales (rule reenter_rel)

interpretation ev: contract D "evolves D" for D
proof
  show "evolves D c (entered D s (c_epoch c + 1) th cd c)" for c s th cd
    unfolding evolves_def using entered_ok [of D c "c_epoch c + 1" s th cd] by blast
  show "evolves D c c'" if "c_et c = None" for c c' using that by (simp add: evolves_def coord_ok_def)
  show "evolves D c (c\<lparr>c_fd := UpdateLocal (local_announcement c) (c_fd c)\<rparr>)" for c
    by (auto simp: evolves_def coord_ok_def advances_def UpdateLocal_def local_announcement_def intro!: exI [of _ "[]"])
  show "evolves D c (c\<lparr>c_view := av\<rparr>)" if "view_ok (c_view c) \<Longrightarrow> view_ok av" for c av
    using that by (rule view_evolves)
qed (auto intro: keeps_evolves buffer_evolves dest: evolves_trans)

end
