(* ===== verification/Membership.thy ===== *)
theory Membership
  imports CommitPath
begin

text \<open>
  Adding and removing members on behalf of the local user (\<^verbatim>\<open>coordinator_members.go\<close>): the durable pending
  operation and its idempotency checks, the proposal, and the synchronous commit of a token holder.
\<close>

record AddMemberRequest =
  amr_TargetPeerID :: peer_id
  amr_KeyPackageBytes :: bytes
  amr_OperationID :: string
  amr_RequestID :: string
  amr_GroupType :: string
  amr_CategoryID :: string
  amr_KeyPackageHash :: bytes

record RemoveMemberRequest =
  rmr_TargetPeerID :: peer_id
  rmr_TargetIdentity :: bytes
  rmr_OperationID :: string

record AddMemberResult =
  res_OperationID :: string
  res_Deferred :: bool
  res_Welcome :: bytes
  res_CommitEpoch :: u64
  res_Delivery :: AddCommitDelivery

definition no_delivery :: AddCommitDelivery where
  "no_delivery = \<lparr>ad_OperationID = '''', ad_TargetPeerID = '''', ad_RequestID = '''', ad_GroupType = '''',
     ad_CategoryID = '''', ad_KeyPackageHash = [], ad_WelcomeHash = []\<rparr>"

section \<open>Idempotency\<close>

text \<open>
  An operation that was committed, satisfied or proposed answers the request again; the second component
  tells that it is still only proposed.
\<close>

definition settled_op :: "error + PendingOperation \<Rightarrow> (PendingOperation \<times> bool) option" where
  "settled_op found =
    (case found of
       Inl _ \<Rightarrow> None
     | Inr op \<Rightarrow>
        if po_Status op = ''COMMITTED'' \<or> po_Status op = ''SATISFIED_BY_OTHER'' then Some (op, False)
        else if po_Status op = ''PROPOSED'' then Some (op, True) else None)"

definition existing_op :: "Deps \<Rightarrow> string \<Rightarrow> string \<Rightarrow> Coord \<Rightarrow> (PendingOperation \<times> bool) option \<times> Coord" where
  "existing_op D opID idKey c =
    (let (byID, c1) = (if opID = '''' then (Inl ErrNoRows, c) else on_db (GetPendingOperation opID) c) in
     case settled_op byID of
       Some x \<Rightarrow> (Some x, c1)
     | None \<Rightarrow>
        let (byKey, c2) = on_db (GetPendingOperationByIdempotencyKey (d_groupID D) idKey) c1
        in (settled_op byKey, c2))"

definition add_key :: "Deps \<Rightarrow> peer_id \<Rightarrow> string" where
  "add_key D target = ''add_member_'' @ d_pidString D target"

definition remove_key :: "Deps \<Rightarrow> peer_id \<Rightarrow> string" where
  "remove_key D target = ''remove_member_'' @ d_pidString D target"

definition existing_result :: "PendingOperation \<times> bool \<Rightarrow> AddMemberResult" where
  "existing_result = (\<lambda>(op, proposed).
    \<lparr>res_OperationID = po_OperationID op, res_Deferred = proposed, res_Welcome = [],
     res_CommitEpoch = (if proposed then 0 else case po_PreconditionEpoch op of None \<Rightarrow> 0 | Some e \<Rightarrow> e),
     res_Delivery = no_delivery\<rparr>)"

definition new_op :: "Deps \<Rightarrow> string \<Rightarrow> string \<Rightarrow> string \<Rightarrow> bytes \<Rightarrow> string \<Rightarrow> bytes \<Rightarrow> Coord \<Rightarrow> PendingOperation" where
  "new_op D opID opType idKey opHash target payload c =
    \<lparr>po_OperationID = opID, po_GroupID = d_groupID D, po_OpType = opType, po_IdempotencyKey = Some idKey,
     po_OperationHash = opHash, po_PreconditionEpoch = Some (c_epoch c), po_PreconditionStateHash = [],
     po_TargetMemberID = Some target, po_SemanticPayload = payload, po_LatestProposalHash = [],
     po_Status = ''PENDING'', po_RetryCount = 0, po_ExpiresAt = None, po_LastError = None,
     po_CreatedAt = c_now c, po_UpdatedAt = c_now c\<rparr>"

definition choose_op_id :: "Deps \<Rightarrow> string \<Rightarrow> Coord \<Rightarrow> string \<times> Coord" where
  "choose_op_id D requested c =
    (if requested = '''' then let (t, c1) = newTraceID D c in (''op_'' @ t, c1) else (requested, c))"

section \<open>The synchronous commit\<close>

text \<open>
  The token holder's commit of one proposal: create, encode, persist, and finish. The outcome carries
  the engine's answer, so that the caller can report the commit and hand over the Welcome.
\<close>

definition commit_one ::
  "Deps \<Rightarrow> reentry \<Rightarrow> ProposalMsg \<Rightarrow> (CreateCommitResult \<Rightarrow> AddCommitDelivery list) \<Rightarrow> Coord
    \<Rightarrow> ((error + CreateCommitResult) \<times> Coord) option" where
  "commit_one D k msg deliveries c =
    (let expectedRefs = [pm_ProposalRef msg] in
     case engine (\<lambda>n. mls_CreateCommit (d_mls D) n (c_groupState c) expectedRefs) c of
       (Inl err, c1) \<Rightarrow> Some (Inl (ErrWrap ''CreateCommit: '' err), c1)
     | (Inr r, c1) \<Rightarrow>
        let commitMsg = \<lparr>cm_CommitData = ccr_CommitBytes r, cm_WelcomeData = [], cm_NewTreeHash = ccr_NewTreeHash r,
              cm_AddDeliveries = deliveries r, cm_IncludedProposals = [msg],
              cm_CommittedProposalRefs = commit_refs r expectedRefs\<rparr>;
            (ts, c2) = hlc_now c1;
            envBytes = buildEnvelopeWithTimestampLocked D MsgCommit (CommitPayload commitMsg) ts c2
        in if envBytes = [] then Some (Inl (ErrMsg ''failed to encode commit envelope''), c2)
           else case apply_commit D (ccr_NewGroupState r) (ccr_NewTreeHash r) MsgCommit envBytes ts (c_epoch c2) c2 of
               (Inl err, c3) \<Rightarrow> Some (Inl (ErrWrap ''persist commit: '' err), c3)
             | (Inr (False, _), c3) \<Rightarrow> Some (Inl (ErrMsg ''commit envelope already applied''), c3)
             | (Inr (True, _), c3) \<Rightarrow>
                 map_option (\<lambda>c4. (Inr r, c4)) (finish_commit D k commitMsg r envBytes False c3))"

definition failed_op :: "Deps \<Rightarrow> error \<Rightarrow> PendingOperation \<Rightarrow> Coord \<Rightarrow> Coord" where
  "failed_op D err op c =
    save_op (op\<lparr>po_Status := ''FAILED_PRECONDITION'', po_LastError := Some (d_errText D err), po_UpdatedAt := c_now c\<rparr>) c"

definition proposed_op :: "Deps \<Rightarrow> ProposalMsg \<Rightarrow> PendingOperation \<Rightarrow> Coord \<Rightarrow> Coord" where
  "proposed_op D msg op c =
    save_op (op\<lparr>po_LatestProposalHash := d_sha256 D (pm_Data msg), po_Status := ''PROPOSED'', po_UpdatedAt := c_now c\<rparr>) c"

section \<open>Adding a member\<close>

definition add_meta :: "Deps \<Rightarrow> AddMemberRequest \<Rightarrow> string \<Rightarrow> BufferedProposal" where
  "add_meta D req opID = empty_proposal\<lparr>bp_OperationID := opID,
     bp_TargetPeerID := d_pidString D (amr_TargetPeerID req), bp_RequestID := amr_RequestID req,
     bp_GroupType := amr_GroupType req, bp_CategoryID := amr_CategoryID req,
     bp_KeyPackageHash := amr_KeyPackageHash req\<rparr>"

definition add_delivery :: "Deps \<Rightarrow> AddMemberRequest \<Rightarrow> string \<Rightarrow> bytes \<Rightarrow> AddCommitDelivery" where
  "add_delivery D req opID welcome =
    \<lparr>ad_OperationID = opID, ad_TargetPeerID = d_pidString D (amr_TargetPeerID req),
     ad_RequestID = amr_RequestID req, ad_GroupType = amr_GroupType req, ad_CategoryID = amr_CategoryID req,
     ad_KeyPackageHash = amr_KeyPackageHash req,
     ad_WelcomeHash = (if welcome = [] then [] else d_sha256 D welcome)\<rparr>"

definition deferred_result :: "string \<Rightarrow> AddCommitDelivery \<Rightarrow> AddMemberResult" where
  "deferred_result opID delivery =
    \<lparr>res_OperationID = opID, res_Deferred = True, res_Welcome = [], res_CommitEpoch = 0, res_Delivery = delivery\<rparr>"

definition observe_add :: "Deps \<Rightarrow> AddMemberRequest \<Rightarrow> string \<Rightarrow> Coord \<Rightarrow> Coord" where
  "observe_add D req opID c =
    emit (OnProposalObserved \<lparr>pas_GroupID = d_groupID D, pas_Epoch = c_epoch c,
      pas_ActorPeerID = d_pidString D (d_localID D), pas_ProposalType = ProposalAdd, pas_OperationID = opID,
      pas_TargetPeerID = d_pidString D (amr_TargetPeerID req), pas_RequestID = amr_RequestID req,
      pas_GroupType = amr_GroupType req, pas_CategoryID = amr_CategoryID req,
      pas_KeyPackageHash = amr_KeyPackageHash req\<rparr>) c"

definition add_as_holder ::
  "Deps \<Rightarrow> reentry \<Rightarrow> AddMemberRequest \<Rightarrow> string \<Rightarrow> ProposalMsg \<Rightarrow> Coord \<Rightarrow> ((error + AddMemberResult) \<times> Coord) option" where
  "add_as_holder D k req opID msg c =
    (let prevEpoch = c_epoch c; nextEpoch = c_epoch c + 1 in
     do { (res, c1) \<leftarrow> commit_one D k msg (\<lambda>r. [add_delivery D req opID (ccr_WelcomeBytes r)]) c;
          Some (case res of
              Inl err \<Rightarrow> (Inl err, c1)
            | Inr r \<Rightarrow>
               let delivery = add_delivery D req opID (ccr_WelcomeBytes r);
                   c2 = emitCommitIssuedLocked D prevEpoch nextEpoch [(add_meta D req opID)\<lparr>bp_Type := ProposalAdd\<rparr>] c1;
                   c3 = (if ccr_WelcomeBytes r = [] then c2
                         else emit (OnAddCommitted delivery nextEpoch (ccr_WelcomeBytes r)) c2)
               in (Inr \<lparr>res_OperationID = opID, res_Deferred = False, res_Welcome = ccr_WelcomeBytes r,
                        res_CommitEpoch = nextEpoch, res_Delivery = delivery\<rparr>, c3)) })"

definition add_proposed ::
  "Deps \<Rightarrow> reentry \<Rightarrow> AddMemberRequest \<Rightarrow> string \<Rightarrow> PendingOperation \<Rightarrow> ProposalMsg \<Rightarrow> BufferedProposal \<Rightarrow> Coord
    \<Rightarrow> ((error + AddMemberResult) \<times> Coord) option" where
  "add_proposed D k req opID op msg buffered c =
    (let c1 = observe_add D req opID (proposed_op D msg op
                (meter IncrProposalsReceived (scheduleFailoverTimerLocked D (on_writer (BufferProposal buffered) c))));
         deferred = deferred_result opID (add_delivery D req opID [])
     in if \<not> IsTokenHolder_c D c1 then Some (Inr deferred, broadcastLocked D MsgProposal (ProposalPayload msg) c1)
        else if \<not> commitViewReadyLocked D [buffered] c1
        then Some (Inr deferred, deferCommitUntilViewReadyLocked D (broadcastLocked D MsgProposal (ProposalPayload msg) c1))
        else add_as_holder D k req opID msg c1)"

definition AddMember :: "Deps \<Rightarrow> reentry \<Rightarrow> AddMemberRequest \<Rightarrow> Coord \<Rightarrow> ((error + AddMemberResult) \<times> Coord) option" where
  "AddMember D k req c =
    (if \<not> c_started c then Some (Inl (ErrMsg ''coordinator not started''), c)
     else if c_accessRevoked c then Some (Inl ErrAccessRevoked, c)
     else if amr_KeyPackageBytes req = [] then Some (Inl (ErrMsg ''AddMember: key package is required''), c)
     else
       let target = d_pidString D (amr_TargetPeerID req);
           idKey = add_key D (amr_TargetPeerID req)
       in case existing_op D (amr_OperationID req) idKey c of
            (Some x, c1) \<Rightarrow> Some (Inr (existing_result x), c1)
          | (None, c1) \<Rightarrow>
             let (opID, c2) = choose_op_id D (amr_OperationID req) c1;
                 op = new_op D opID ''ADD_MEMBER'' idKey (amr_KeyPackageHash req) target (amr_KeyPackageBytes req) c2;
                 c3 = save_op op c2
             in case createAndStoreLocalProposalLocked D ProposalAdd (amr_KeyPackageBytes req) (add_meta D req opID) c3 of
                  (Inl err, c4) \<Rightarrow> Some (Inl (ErrWrap ''CreateProposal: '' err), failed_op D err op c4)
                | (Inr (msg, buffered), c4) \<Rightarrow> add_proposed D k req opID op msg buffered c4)"

section \<open>Removing a member\<close>

definition remove_as_holder ::
  "Deps \<Rightarrow> reentry \<Rightarrow> string \<Rightarrow> string \<Rightarrow> PendingOperation \<Rightarrow> bytes \<Rightarrow> Coord \<Rightarrow> ((error + unit) \<times> Coord) option" where
  "remove_as_holder D k target opID op identity c =
    (let meta = empty_proposal\<lparr>bp_TargetPeerID := target, bp_OperationID := opID\<rparr> in
     case createAndStoreLocalProposalLocked D ProposalRemove identity meta c of
       (Inl err, c1) \<Rightarrow> Some (Inl (ErrWrap ''CreateProposal: '' err), failed_op D err op c1)
     | (Inr (msg, buffered), c1) \<Rightarrow>
        let c2 = proposed_op D msg op (scheduleFailoverTimerLocked D (on_writer (BufferProposal buffered) c1)) in
        if \<not> commitViewReadyLocked D [buffered] c2
        then Some (Inr (), deferCommitUntilViewReadyLocked D (broadcastLocked D MsgProposal (ProposalPayload msg) c2))
        else
          do { (res, c3) \<leftarrow> commit_one D k msg (\<lambda>r. []) c2;
               Some (case res of
                   Inl err \<Rightarrow> (Inl err, c3)
                 | Inr _ \<Rightarrow> (Inr (), emitCommitIssuedLocked D (c_epoch c2) (c_epoch c2 + 1)
                               [meta\<lparr>bp_Type := ProposalRemove\<rparr>] c3)) })"

definition RemoveMemberWithPeer :: "Deps \<Rightarrow> reentry \<Rightarrow> RemoveMemberRequest \<Rightarrow> Coord \<Rightarrow> ((error + unit) \<times> Coord) option" where
  "RemoveMemberWithPeer D k req c =
    (if \<not> c_started c then Some (Inl (ErrMsg ''coordinator not started''), c)
     else if c_accessRevoked c then Some (Inl ErrAccessRevoked, c)
     else if rmr_TargetIdentity req = [] then Some (Inl (ErrMsg ''target identity is required''), c)
     else
       let target = d_pidString D (rmr_TargetPeerID req);
           idKey = remove_key D (rmr_TargetPeerID req)
       in case existing_op D (rmr_OperationID req) idKey c of
            (Some _, c1) \<Rightarrow> Some (Inr (), c1)
          | (None, c1) \<Rightarrow>
             let (opID, c2) = choose_op_id D (rmr_OperationID req) c1;
                 op = new_op D opID ''REMOVE_MEMBER'' idKey [] target (rmr_TargetIdentity req) c2;
                 c3 = save_op op c2
             in if \<not> IsTokenHolder_c D c3
                then proposeLockedWithMetadata D k ProposalRemove (rmr_TargetIdentity req)
                       (empty_proposal\<lparr>bp_TargetPeerID := target, bp_OperationID := opID\<rparr>)
                       (save_op (op\<lparr>po_Status := ''PROPOSED'', po_UpdatedAt := c_now c3\<rparr>) c3)
                else remove_as_holder D k target opID op (rmr_TargetIdentity req) c3)"

definition RemoveMember :: "Deps \<Rightarrow> reentry \<Rightarrow> bytes \<Rightarrow> Coord \<Rightarrow> ((error + unit) \<times> Coord) option" where
  "RemoveMember D k targetIdentity =
    RemoveMemberWithPeer D k \<lparr>rmr_TargetPeerID = '''', rmr_TargetIdentity = targetIdentity, rmr_OperationID = ''''\<rparr>"

section \<open>Membership requests keep the contract of the commit path\<close>

lemma keeps_member_helpers [keeps_intros]:
  assumes "keeps a c"
  shows "keeps a (snd (existing_op D opID key c))" "keeps a (snd (choose_op_id D opID c))"
    "keeps a (failed_op D err op c)" "keeps a (proposed_op D msg op c)" "keeps a (observe_add D req opID c)"
  using assms
  by (auto simp: existing_op_def choose_op_id_def failed_op_def proposed_op_def observe_add_def Let_def
      case_prod_beta split: option.split intro!: keeps_intros)

context reentrant
begin

lemma commit_one_rel:
  assumes run: "commit_one D k msg ds c = Some (r, c')"
  shows "R c c'"
proof -
  let ?g = "\<lambda>n. mls_CreateCommit (d_mls D) n (c_groupState c) [pm_ProposalRef msg]"
  obtain res c1 where g: "engine ?g c = (res, c1)" by (metis prod.exhaust)
  have k1: "keeps c c1" using keeps_bind(2) [OF g keeps_refl] .
  obtain ts c2 where ts: "hlc_now c1 = (ts, c2)" by (metis prod.exhaust)
  have k2: "keeps c c2" using keeps_bind(3) [OF ts k1] .
  have k3: "keeps c c3" if "apply_commit D s th mt w ts' e c2 = (ap, c3)" for s th mt w ts' e ap c3
    using keeps_commit_helpers(7) [OF k2] that by (metis snd_conv)
  have fin: "R c c4" if "keeps c c3" "finish_commit D k m r w rp c3 = Some c4" for c3 c4 m r w rp
    using kept [OF that(1)] finish_commit_rel [OF that(2)] by (rule R_trans)
  show ?thesis
    using run kept [OF k1] kept [OF k2]
    by (auto simp: commit_one_def g ts Let_def split: sum.splits if_splits prod.splits bool.splits
        dest!: k3 intro: kept dest: fin)
qed

lemma add_as_holder_rel:
  assumes run: "add_as_holder D k req opID msg c = Some (r, c')"
  shows "R c c'"
proof -
  obtain res c1 where c1: "commit_one D k msg (\<lambda>r. [add_delivery D req opID (ccr_WelcomeBytes r)]) c = Some (res, c1)"
    using run by (auto simp: add_as_holder_def Let_def split: Option.bind_splits)
  have "keeps c1 c'"
    using run c1 by (auto simp: add_as_holder_def Let_def split: sum.splits if_splits intro!: keeps_intros)
  then show ?thesis using commit_one_rel [OF c1] kept by (blast intro: R_trans)
qed

lemma add_proposed_rel:
  assumes run: "add_proposed D k req opID op msg b c = Some (r, c')"
  shows "R c c'"
proof -
  define c1 where "c1 = observe_add D req opID (proposed_op D msg op
      (meter IncrProposalsReceived (scheduleFailoverTimerLocked D (on_writer (BufferProposal b) c))))"
  have k1: "keeps c c1" unfolding c1_def by (intro keeps_intros)
  have "R c (broadcastLocked D MsgProposal pl c1)"
    "R c (deferCommitUntilViewReadyLocked D (broadcastLocked D MsgProposal pl c1))" for pl
    by (intro kept keeps_intros k1)+
  then show ?thesis
    using run R_trans [OF kept [OF k1] add_as_holder_rel]
    unfolding add_proposed_def Let_def c1_def [symmetric] by (auto split: if_splits)
qed

lemma AddMember_rel:
  assumes run: "AddMember D k req c = Some (r, c')"
  shows "R c c'"
proof (cases "\<not> c_started c \<or> c_accessRevoked c \<or> amr_KeyPackageBytes req = []")
  case True
  then show ?thesis using run by (auto simp: AddMember_def split: if_splits)
next
  case False
  let ?target = "d_pidString D (amr_TargetPeerID req)"
  let ?key = "add_key D (amr_TargetPeerID req)"
  obtain ex c1 where ex: "existing_op D (amr_OperationID req) ?key c = (ex, c1)" by (metis prod.exhaust)
  have k1: "keeps c c1" using keeps_member_helpers(1) [OF keeps_refl] ex by (metis snd_conv)
  obtain opID c2 where id: "choose_op_id D (amr_OperationID req) c1 = (opID, c2)" by (metis prod.exhaust)
  have k2: "keeps c c2" using keeps_member_helpers(2) [OF k1] id by (metis snd_conv)
  define op where "op = new_op D opID ''ADD_MEMBER'' ?key (amr_KeyPackageHash req) ?target (amr_KeyPackageBytes req) c2"
  obtain res c4 where cr: "createAndStoreLocalProposalLocked D ProposalAdd (amr_KeyPackageBytes req)
      (add_meta D req opID) (save_op op c2) = (res, c4)" by (metis prod.exhaust)
  have k4: "keeps c c4" using keeps_create [OF keeps_op_saves(1) [OF k2]] cr by (metis snd_conv)
  have fin: "add_proposed D k req opID op m b c4 = Some (r, c') \<Longrightarrow> R c c'" for m b
    using kept [OF k4] add_proposed_rel by (blast intro: R_trans)
  have bad: "R c (failed_op D err op c4)" for err using k4 by (intro kept keeps_intros)
  show ?thesis
    using run False kept [OF k1] fin bad
    by (auto simp: AddMember_def Let_def ex id op_def [symmetric] cr split: option.splits sum.splits if_splits)
qed

lemma remove_as_holder_rel:
  assumes run: "remove_as_holder D k target opID op ident c = Some (r, c')"
  shows "R c c'"
proof -
  define meta where "meta = empty_proposal\<lparr>bp_TargetPeerID := target, bp_OperationID := opID\<rparr>"
  obtain res c1 where cr: "createAndStoreLocalProposalLocked D ProposalRemove ident meta c = (res, c1)"
    by (metis prod.exhaust)
  have k1: "keeps c c1" using keeps_create [OF keeps_refl] cr by (metis snd_conv)
  then have k2: "keeps c (proposed_op D m op (scheduleFailoverTimerLocked D (on_writer (BufferProposal b) c1)))" for m b
    by (intro keeps_intros)
  have wait: "R c (deferCommitUntilViewReadyLocked D (broadcastLocked D MsgProposal pl x))"
    if "keeps c x" for pl x using that by (intro kept keeps_intros)
  have bad: "R c (failed_op D err op c1)" for err using k1 by (intro kept keeps_intros)
  have one: "R c y" if "commit_one D k m ds x = Some (q, y)" "keeps c x" for m ds x q y
    using kept [OF that(2)] commit_one_rel [OF that(1)] by (rule R_trans)
  have "R y (emitCommitIssuedLocked D e1 e2 bt y)" for e1 e2 bt y by (intro kept keeps_intros)
  then have tail: "R c y \<Longrightarrow> R c (emitCommitIssuedLocked D e1 e2 bt y)" for e1 e2 bt y
    by (blast intro: R_trans)
  show ?thesis
    using run bad wait [OF k2] one [OF _ k2] tail [OF one [OF _ k2]]
    by (auto simp: remove_as_holder_def meta_def [symmetric] cr Let_def
        split: sum.splits prod.splits if_splits Option.bind_splits)
qed

lemma RemoveMember_rel:
  assumes run: "RemoveMemberWithPeer D k req c = Some (r, c')"
  shows "R c c'"
proof (cases "\<not> c_started c \<or> c_accessRevoked c \<or> rmr_TargetIdentity req = []")
  case True
  then show ?thesis using run by (auto simp: RemoveMemberWithPeer_def split: if_splits)
next
  case False
  let ?target = "d_pidString D (rmr_TargetPeerID req)"
  let ?key = "remove_key D (rmr_TargetPeerID req)"
  obtain ex c1 where ex: "existing_op D (rmr_OperationID req) ?key c = (ex, c1)" by (metis prod.exhaust)
  have k1: "keeps c c1" using keeps_member_helpers(1) [OF keeps_refl] ex by (metis snd_conv)
  obtain opID c2 where id: "choose_op_id D (rmr_OperationID req) c1 = (opID, c2)" by (metis prod.exhaust)
  have k2: "keeps c c2" using keeps_member_helpers(2) [OF k1] id by (metis snd_conv)
  have k3: "keeps c (save_op op c2)" "keeps c (save_op op' (save_op op c2))" for op op'
    by (intro keeps_intros k2)+
  have fin: "remove_as_holder D k t i op q (save_op op c2) = Some (r, c') \<Longrightarrow> R c c'"
    "proposeLockedWithMetadata D k p q m (save_op op' (save_op op c2)) = Some (r, c') \<Longrightarrow> R c c'"
    for t i op op' p q m
    using kept [OF k3(1)] kept [OF k3(2)] remove_as_holder_rel propose_rel
    by (blast intro: R_trans)+
  show ?thesis
    using run False kept [OF k1] fin
    by (auto simp: RemoveMemberWithPeer_def Let_def ex id split: option.splits if_splits)
qed

end

end
