(* ===== verification/Healing.thy ===== *)
theory Healing
  imports Membership
begin

text \<open>
  Fork healing (\<^verbatim>\<open>coordinator_heal.go\<close>): scheduling with the catch-up guard, the durable job and its phases,
  the wait for a Welcome, the swap of the group state, the replay of orphaned messages and the clean-up.

  \<^verbatim>\<open>runHeal\<close> is a goroutine that blocks once, in the loop that waits for a Welcome. It is modelled as the
  segments between its waits: \<open>runHeal\<close> runs it up to the wait or to the end, \<open>heal_wake\<close> continues it when
  a signal, a timeout or the cancellation of its context arrives. A segment is one step of the
  coordinator.
\<close>

section \<open>Scheduling\<close>

definition Milliseconds :: "int \<Rightarrow> int" where
  "Milliseconds d = sgn d * (\<bar>d\<bar> div 1000000)"

definition heal_summary :: "Deps \<Rightarrow> string \<Rightarrow> string \<Rightarrow> ForkEvent \<Rightarrow> u64 \<Rightarrow> ForkHealAuditSummary" where
  "heal_summary D traceID stage event newEpoch =
    \<lparr>fhs_GroupID = fe_GroupID event, fhs_TraceID = traceID, fhs_Stage = stage,
     fhs_WinnerPeerID = d_pidString D (fe_RemotePeer event), fhs_WinnerEpoch = fe_RemoteEpoch event,
     fhs_NewEpoch = newEpoch, fhs_FailedStep = '''', fhs_ReplayedMessageCount = 0, fhs_DurationMs = 0\<rparr>"

definition start_heal :: "Deps \<Rightarrow> string \<Rightarrow> ForkEvent \<Rightarrow> Coord \<Rightarrow> Coord" where
  "start_heal D traceID event c =
    (if c_healing c then c
     else emit (StartHeal traceID event (c_now c))
            (emit (OnForkHealEvent (heal_summary D traceID ''fork_heal_started'' event (c_epoch c)))
              (meter IncrForkHealingsAttempted (c\<lparr>c_healing := True\<rparr>))))"

definition scheduleHeal :: "Deps \<Rightarrow> ForkEvent \<Rightarrow> Coord \<Rightarrow> Coord" where
  "scheduleHeal D event c =
    (let (traceID, c1) = newTraceID D c in
     if fe_RemoteEpoch event > c_epoch c1 \<and> d_onSyncRequired D \<and> c_syncRetryAttempts c1 < 3
     then emit (OnSyncRequired (fe_RemotePeer event) (fe_GroupID event)) (c1\<lparr>c_deferredForkEvent := Some event\<rparr>)
     else start_heal D traceID event (c1\<lparr>c_deferredForkEvent := None\<rparr>))"

definition ResetSyncRetryAttempts :: "Coord \<Rightarrow> Coord" where
  "ResetSyncRetryAttempts c = c\<lparr>c_syncRetryAttempts := 0, c_deferredForkEvent := None\<rparr>"

definition IncrementSyncRetryAttempts :: "Coord \<Rightarrow> int \<times> Coord" where
  "IncrementSyncRetryAttempts c =
    (c_syncRetryAttempts c + 1, c\<lparr>c_syncRetryAttempts := c_syncRetryAttempts c + 1\<rparr>)"

definition GetSyncRetryAttempts :: "Coord \<Rightarrow> int" where
  "GetSyncRetryAttempts c = c_syncRetryAttempts c"

definition TriggerDeferredHeal :: "Deps \<Rightarrow> Coord \<Rightarrow> Coord" where
  "TriggerDeferredHeal D c =
    (case c_deferredForkEvent c of
       None \<Rightarrow> c
     | Some event \<Rightarrow>
        let (traceID, c1) = newTraceID D (c\<lparr>c_deferredForkEvent := None\<rparr>)
        in start_heal D traceID event c1)"

section \<open>The records a heal leaves\<close>

definition recordForkHealAudit ::
  "string \<Rightarrow> string \<Rightarrow> string \<Rightarrow> string \<Rightarrow> time \<Rightarrow> int \<Rightarrow> string \<Rightarrow> Coord \<Rightarrow> Coord" where
  "recordForkHealAudit traceID groupID step status ts durationMs errMsg c =
    (if traceID = '''' \<or> groupID = '''' \<or> step = '''' \<or> status = '''' then c
     else snd (on_db (RecordForkHealAudit (c_now c)
            \<lparr>ha_TraceID = traceID, ha_GroupID = groupID, ha_Step = step, ha_Status = status,
             ha_TimestampMs = UnixMilli ts, ha_DurationMs = durationMs, ha_Error = errMsg\<rparr>) c))"

definition recordForkHealEvent :: "ForkHealEventRecord \<Rightarrow> Coord \<Rightarrow> Coord" where
  "recordForkHealEvent event c = snd (on_db (RecordForkHealEvent (c_now c) event) c)"

text \<open>What the goroutine keeps while it runs; \<open>run_msg\<close> and \<open>run_attempt\<close> belong to its wait.\<close>

record heal_run =
  run_traceID :: string
  run_event :: ForkEvent
  run_scheduledAt :: time
  run_startedAt :: time
  run_job :: ForkHealingJob

record heal_wait = heal_run +
  run_msg :: ProposalMsg
  run_attempt :: nat

definition heal_audit :: "'a heal_run_scheme \<Rightarrow> string \<Rightarrow> string \<Rightarrow> int \<Rightarrow> string \<Rightarrow> Coord \<Rightarrow> Coord" where
  "heal_audit r step status durationMs errMsg c =
    recordForkHealAudit (run_traceID r) (fe_GroupID (run_event r)) step status (c_now c) durationMs errMsg c"

definition logHealFailed :: "Deps \<Rightarrow> 'a heal_run_scheme \<Rightarrow> string \<Rightarrow> Coord \<Rightarrow> Coord" where
  "logHealFailed D r step c =
    (let event = run_event r in
     emit (OnForkHealEvent ((heal_summary D (run_traceID r) ''fork_heal_failed'' event (c_epoch c))\<lparr>fhs_FailedStep := step\<rparr>))
      (recordForkHealEvent
        \<lparr>he_TraceID = run_traceID r, he_GroupID = fe_GroupID event,
         he_WinnerPeerID = d_pidString D (fe_RemotePeer event), he_WinnerEpoch = fe_RemoteEpoch event,
         he_NewEpoch = c_epoch c, he_Outcome = ''failed'', he_FailedStep = step,
         he_WinnerTreeHash = gsa_TreeHash (fe_RemoteAnnounce event), he_NewTreeHash = c_treeHash c,
         he_PartitionStartedAtMs = UnixMilli (fe_PartitionStartedAt event),
         he_ScheduledAtMs = UnixMilli (run_scheduledAt r), he_StartedAtMs = UnixMilli (run_startedAt r),
         he_CompletedAtMs = nowMs c, he_DurationMs = Milliseconds (c_now c - run_startedAt r),
         he_TotalMs = Milliseconds (c_now c - run_scheduledAt r), he_ReplayedMessageCount = 0\<rparr> c))"

definition save_job :: "ForkHealingJob \<Rightarrow> Coord \<Rightarrow> Coord" where
  "save_job job c = snd (on_db (SaveForkHealingJob job) c)"

definition move_job :: "string \<Rightarrow> Coord \<Rightarrow> 'a heal_run_scheme \<Rightarrow> 'a heal_run_scheme" where
  "move_job status c r = r\<lparr>run_job := (run_job r)\<lparr>fj_Status := status, fj_UpdatedAtMs := nowMs c\<rparr>\<rparr>"

section \<open>The end of a run\<close>

definition heal_release :: "Deps \<Rightarrow> Coord \<Rightarrow> Coord" where
  "heal_release D c =
    (let c1 = (if c_groupState c \<noteq> [] then c
               else case on_db (GetGroupRecord (d_groupID D)) c of
                   (Inl _, c1) \<Rightarrow> c1
                 | (Inr rec, c1) \<Rightarrow>
                    if gr_GroupState rec = [] then c1
                    else c1\<lparr>c_groupState := gr_GroupState rec, c_epoch := gr_Epoch rec, c_treeHash := gr_TreeHash rec\<rparr>)
     in c1\<lparr>c_healing := False\<rparr>)"

definition heal_exit :: "Deps \<Rightarrow> Coord \<Rightarrow> Coord" where
  "heal_exit D c = heal_release D (SetOperationalMode ModeLive c)"

section \<open>The job and the snapshot\<close>

definition new_heal_job :: "Deps \<Rightarrow> string \<Rightarrow> ForkEvent \<Rightarrow> Coord \<Rightarrow> ForkHealingJob" where
  "new_heal_job D traceID event c =
    \<lparr>fj_JobID = ''job-'' @ fe_GroupID event @ ''-'' @ (if nowMs c < 0 then ''-'' else '''') @ dec_digits (nat \<bar>nowMs c\<bar>),
     fj_GroupID = fe_GroupID event, fj_TraceID = traceID, fj_Status = ''INITIATED'',
     fj_LosingBranchID = hex (c_lastCommitHash c),
     fj_WinningBranchID = hex (gsa_CommitHash (fe_RemoteAnnounce event)),
     fj_ForkBaseEpoch = c_epoch c, fj_LosingEpoch = c_epoch c, fj_WinningEpoch = fe_RemoteEpoch event,
     fj_LosingTreeHash = c_treeHash c, fj_WinningTreeHash = gsa_TreeHash (fe_RemoteAnnounce event),
     fj_WinningCommitHash = gsa_CommitHash (fe_RemoteAnnounce event), fj_WinningGroupInfoHash = [],
     fj_WinnerPeerID = d_pidString D (fe_RemotePeer event), fj_WinnerGroupInfo = [], fj_BranchWeightJSON = '''',
     fj_PendingGroupState = [], fj_PendingEpoch = 0, fj_PendingTreeHash = [], fj_PendingBundlePrivate = [],
     fj_ErrorMessage = '''', fj_RetryCount = 0, fj_CreatedAtMs = nowMs c, fj_UpdatedAtMs = nowMs c,
     fj_CompletedAtMs = 0\<rparr>"

definition heal_job :: "Deps \<Rightarrow> string \<Rightarrow> ForkEvent \<Rightarrow> Coord \<Rightarrow> ForkHealingJob \<times> Coord" where
  "heal_job D traceID event c =
    (case on_db (GetActiveForkHealingJob (fe_GroupID event)) c of
       (Inr (Some job), c1) \<Rightarrow> (job, c1)
     | (_, c1) \<Rightarrow> let job = new_heal_job D traceID event c1 in (job, save_job job c1))"

definition orphan_event ::
  "ForkHealingJob \<Rightarrow> string \<Rightarrow> bytes \<Rightarrow> u64 \<Rightarrow> string \<Rightarrow> bytes \<Rightarrow> bytes \<Rightarrow> bytes \<Rightarrow> HLCTimestamp \<Rightarrow> string \<Rightarrow> Coord
    \<Rightarrow> ApplicationEvent" where
  "orphan_event job groupID envelopeHash epoch author sealed payloadHash nonce ts status c =
    \<lparr>ae_EventID = hex envelopeHash, ae_JobID = fj_JobID job, ae_GroupID = groupID,
     ae_OriginalBranchID = fj_LosingBranchID job, ae_OriginalEpoch = epoch, ae_AuthorID = author,
     ae_EnvelopeHash = envelopeHash, ae_PayloadSealed = sealed, ae_PayloadHash = payloadHash,
     ae_SealKeyID = ''local_node_key'', ae_SealNonce = nonce, ae_HlcWallTimeMs = WallTimeMs ts,
     ae_HlcCounter = Counter ts, ae_HlcNodeID = NodeID ts, ae_Status = status, ae_ReplayOperationID = '''',
     ae_ReplayedEnvelopeHash = [], ae_ReplayedAtMs = 0, ae_ReplayAttemptCount = 0, ae_LastError = '''',
     ae_CreatedAtMs = nowMs c, ae_UpdatedAtMs = nowMs c\<rparr>"

definition snapshot_own :: "Deps \<Rightarrow> ForkHealingJob \<Rightarrow> string \<Rightarrow> StoredMessage \<Rightarrow> Coord \<Rightarrow> Coord" where
  "snapshot_own D job groupID msg c =
    (case sealPayload D (sm_Content msg) (deriveStorageKey D (d_signingKey D)) c of
       (Inl _, c1) \<Rightarrow> c1
     | (Inr (sealed, nonce), c1) \<Rightarrow>
        save_event (orphan_event job groupID (sm_EnvelopeHash msg) (sm_Epoch msg) (d_pidString D (d_localID D))
          sealed (d_sha256 D (sm_Content msg)) nonce (sm_Timestamp msg) ''ORPHANED_OWN'' c1) c1)"

definition snapshot_pending :: "Deps \<Rightarrow> ForkHealingJob \<Rightarrow> string \<Rightarrow> EnvelopeRecord \<Rightarrow> Coord \<Rightarrow> Coord" where
  "snapshot_pending D job groupID rec c =
    (if er_MsgType rec \<noteq> MsgApplication then c
     else case u_envelope (d_json D) (er_Envelope rec) of
         Inl _ \<Rightarrow> c
       | Inr env \<Rightarrow>
          (case u_application (d_json D) (env_Payload env) of
             Inl _ \<Rightarrow> c
           | Inr ciphertext \<Rightarrow>
              let save = (\<lambda>status pHash sealed nonce c'.
                    save_event (orphan_event job groupID (er_EnvelopeHash rec) (er_Epoch rec) (env_From env)
                      sealed pHash nonce (er_Timestamp rec) status c') c')
              in case engine (\<lambda>n. mls_DecryptMessage (d_mls D) n (c_groupState c) ciphertext) c of
                   (Inl _, c1) \<Rightarrow> save ''UNRECOVERABLE'' (er_EnvelopeHash rec) [] [] c1
                 | (Inr (plaintext, _), c1) \<Rightarrow>
                    if env_From env = d_pidString D (d_localID D)
                    then (case sealPayload D plaintext (deriveStorageKey D (d_signingKey D)) c1 of
                            (Inl _, c2) \<Rightarrow> save ''ORPHANED_OWN'' (d_sha256 D plaintext) [] [] c2
                          | (Inr (sealed, nonce), c2) \<Rightarrow> save ''ORPHANED_OWN'' (d_sha256 D plaintext) sealed nonce c2)
                    else save ''WAITING_AUTHOR_REPLAY'' (d_sha256 D plaintext) [] [] c1))"

definition heal_snapshot :: "Deps \<Rightarrow> heal_run \<Rightarrow> Coord \<Rightarrow> heal_run \<times> Coord" where
  "heal_snapshot D r c =
    (if fj_Status (run_job r) \<noteq> ''INITIATED'' then (r, c)
     else
       let groupID = fe_GroupID (run_event r);
           c1 = heal_audit r ''snapshot_orphan'' ''started'' 0 '''' c;
           (own, c2) = on_db (GetMessagesByOwnerInRange (d_pidDecode D) (d_groupID D) (d_pidString D (d_localID D))
                         0 (UnixMilli (run_startedAt r))) c1;
           c3 = (case own of Inl _ \<Rightarrow> c2 | Inr msgs \<Rightarrow> fold (snapshot_own D (run_job r) groupID) msgs c2);
           (pending, c4) = on_db (GetPendingEnvelopes groupID 1000) c3;
           c5 = (case pending of Inl _ \<Rightarrow> c4 | Inr recs \<Rightarrow> fold (snapshot_pending D (run_job r) groupID) recs c4);
           r' = move_job ''SNAPSHOT_CREATED'' c5 r;
           c6 = save_job (run_job r') c5
       in (r', heal_audit r ''snapshot_orphan'' ''completed'' 0 '''' c6))"

section \<open>The swap of the group state\<close>

definition swap_state :: "Deps \<Rightarrow> bytes \<Rightarrow> bytes \<Rightarrow> u64 \<Rightarrow> Coord \<Rightarrow> Coord" where
  "swap_state D newState newTreeHash newEpoch c =
    (let commitHash = hashCommitData D [];
         h = initialHistoryHash D (d_groupID D);
         c1 = c\<lparr>c_groupState := newState, c_treeHash := newTreeHash, c_epoch := newEpoch,
                c_et := Some (NewEpochTracker newEpoch newTreeHash),
                c_sw := Some (SetAuthorizedCommitters (d_groupID D) (d_authorized D)
                          (NewSingleWriter (d_localID D) newEpoch (d_cfg D))),
                c_lastCommitHash := commitHash, c_historyHash := h, c_historyChain := gput newEpoch h []\<rparr>
     in c1\<lparr>c_fd := UpdateLocal (local_announcement c1) (Reset (c_fd c1))\<rparr>)"

definition install_healed ::
  "Deps \<Rightarrow> bytes \<Rightarrow> bytes \<Rightarrow> u64 \<Rightarrow> GroupRecord option \<Rightarrow> Coord \<Rightarrow> (error + unit) \<times> Coord" where
  "install_healed D newState newTreeHash newEpoch prevRec c =
    (case on_db (SaveGroupRecord (carried_record D prevRec newState newEpoch newTreeHash (c_now c))) c of
       (Inl err, c1) \<Rightarrow> (Inl (ErrWrap ''persist healed group state: '' err), c1)
     | (Inr _, c1) \<Rightarrow>
        (case persistCoordStateLocked D (swap_state D newState newTreeHash newEpoch c1) of
           (Inl err, c2) \<Rightarrow> (Inl (ErrWrap ''persist healed coordination state: '' err), c2)
         | (Inr _, c2) \<Rightarrow> (Inr (), emit (OnEpochChange newEpoch) c2)))"

definition applyHealedState :: "Deps \<Rightarrow> bytes \<Rightarrow> bytes \<Rightarrow> u64 \<Rightarrow> Coord \<Rightarrow> (error + unit) \<times> Coord" where
  "applyHealedState D newState newTreeHash newEpoch c =
    (case on_db (GetGroupRecord (d_groupID D)) c of
       (Inl err, c1) \<Rightarrow>
         if err \<noteq> ErrGroupNotFound then (Inl (ErrWrap ''load group record: '' err), c1)
         else install_healed D newState newTreeHash newEpoch None c1
     | (Inr rec, c1) \<Rightarrow> install_healed D newState newTreeHash newEpoch (Some rec) c1)"

text \<open>The swap phase: \<open>None\<close> is a failure that was logged and ends the run.\<close>

definition swap_failed :: "Deps \<Rightarrow> heal_run \<Rightarrow> string \<Rightarrow> Coord \<Rightarrow> heal_run option \<times> Coord" where
  "swap_failed D r err c = (None, logHealFailed D r ''state_swap'' (heal_audit r ''state_swap'' ''failed'' 0 err c))"

definition heal_swap :: "Deps \<Rightarrow> heal_run \<Rightarrow> Coord \<Rightarrow> heal_run option \<times> Coord" where
  "heal_swap D r c =
    (if fj_Status (run_job r) \<noteq> ''EXTERNAL_JOINED'' then (Some r, c)
     else
       let c1 = heal_audit r ''state_swap'' ''started'' 0 '''' c; job = run_job r in
       if fj_PendingGroupState job = []
       then swap_failed D r ''pending_group_state is missing at EXTERNAL_JOINED phase'' c1
       else case applyHealedState D (fj_PendingGroupState job) (fj_PendingTreeHash job) (fj_PendingEpoch job) c1 of
           (Inl err, c2) \<Rightarrow> swap_failed D r (d_errText D err) c2
         | (Inr _, c2) \<Rightarrow>
            let r' = move_job ''STATE_SWAPPED'' c2 r
            in (Some r', heal_audit r ''state_swap'' ''completed'' 0 '''' (save_job (run_job r') c2)))"

section \<open>Replay and clean-up\<close>

definition rebroadcast_outbound :: "Deps \<Rightarrow> string \<Rightarrow> OutboundReplay \<Rightarrow> int \<times> Coord \<Rightarrow> int \<times> Coord" where
  "rebroadcast_outbound D jobID outbound = (\<lambda>(replayed, c).
    (if or_Status outbound \<noteq> ''ENQUEUED'' \<and> or_Status outbound \<noteq> ''FAILED'' then (replayed, c)
     else
       let (evs, c1) = on_db (ListApplicationEvents jobID) c;
           matching = filter (\<lambda>ev. ae_ReplayOperationID ev = or_ReplayOperationID outbound)
                        (case evs of Inl _ \<Rightarrow> [] | Inr es \<Rightarrow> es)
       in if matching = [] then (replayed, c1)
          else case broadcastBatchedOutboundReplay D outbound matching c1 of
              (Inl _, c2) \<Rightarrow> (replayed, c2)
            | (Inr _, c2) \<Rightarrow> (replayed + int (length matching), c2)))"

definition heal_replay :: "Deps \<Rightarrow> heal_run \<Rightarrow> Coord \<Rightarrow> (heal_run \<times> int) \<times> Coord" where
  "heal_replay D r c =
    (if fj_Status (run_job r) \<noteq> ''STATE_SWAPPED'' then ((r, 0), c)
     else
       let job = run_job r;
           c1 = heal_audit r ''replay_started'' ''started'' 0 '''' c;
           (outs, c2) = on_db (ListOutboundReplays (fj_JobID job)) c1;
           (n1, c3) = (case outs of Inl _ \<Rightarrow> (0, c2)
                       | Inr os \<Rightarrow> fold (rebroadcast_outbound D (fj_JobID job)) os (0, c2));
           (n2, c4) = batchAndReplayOutbox D (fj_JobID job) (fj_GroupID job) c3;
           r' = move_job ''LOCAL_COMPLETE'' c4 r
       in ((r', n1 + n2), heal_audit r ''replay_completed'' ''completed'' 0 '''' (save_job (run_job r') c4)))"

definition heal_clean :: "Deps \<Rightarrow> heal_run \<Rightarrow> int \<Rightarrow> Coord \<Rightarrow> heal_run \<times> Coord" where
  "heal_clean D r replayedCount c =
    (if fj_Status (run_job r) \<noteq> ''LOCAL_COMPLETE'' then (r, c)
     else
       let event = run_event r;
           c1 = snd (on_db (ClearSealedPayloads (fj_JobID (run_job r))) c);
           r1 = move_job ''CLEANED'' c1 r;
           r' = r1\<lparr>run_job := (run_job r1)\<lparr>fj_CompletedAtMs := nowMs c1\<rparr>\<rparr>;
           job = run_job r';
           duration = c_now c1 - run_startedAt r;
           c2 = meter (RecordExternalJoin duration) (meter IncrForkHealingsSucceeded (save_job job c1));
           c3 = recordForkHealEvent
             \<lparr>he_TraceID = run_traceID r, he_GroupID = fe_GroupID event,
              he_WinnerPeerID = d_pidString D (fe_RemotePeer event), he_WinnerEpoch = fe_RemoteEpoch event,
              he_NewEpoch = fj_PendingEpoch job, he_Outcome = ''success'', he_FailedStep = '''',
              he_WinnerTreeHash = [], he_NewTreeHash = [],
              he_PartitionStartedAtMs = UnixMilli (fe_PartitionStartedAt event),
              he_ScheduledAtMs = UnixMilli (run_scheduledAt r), he_StartedAtMs = UnixMilli (run_startedAt r),
              he_CompletedAtMs = nowMs c2, he_DurationMs = Milliseconds duration,
              he_TotalMs = Milliseconds (c_now c2 - run_scheduledAt r),
              he_ReplayedMessageCount = replayedCount\<rparr> c2
       in (r', emit (OnForkHealEvent
            ((heal_summary D (run_traceID r) ''fork_heal_completed'' event (fj_PendingEpoch job))
               \<lparr>fhs_WinnerEpoch := gsa_Epoch (fe_RemoteAnnounce event),
                fhs_ReplayedMessageCount := replayedCount, fhs_DurationMs := Milliseconds duration\<rparr>)) c3))"

text \<open>The phases behind the wait, and the end of the run.\<close>

definition heal_tail :: "Deps \<Rightarrow> heal_run \<Rightarrow> Coord \<Rightarrow> Coord" where
  "heal_tail D r c =
    (case heal_swap D r c of
       (None, c1) \<Rightarrow> heal_exit D c1
     | (Some r1, c1) \<Rightarrow>
        let ((r2, replayed), c2) = heal_replay D r1 c1 in heal_exit D (snd (heal_clean D r2 replayed c2)))"

section \<open>The join proposal and the wait\<close>

definition publish_join :: "Deps \<Rightarrow> ProposalMsg \<Rightarrow> Coord \<Rightarrow> Coord" where
  "publish_join D msg c =
    (let (ts, c1) = hlc_now c;
         envBytes = buildEnvelopeWithTimestampLocked D MsgProposal (ProposalPayload msg) ts c1
     in if envBytes = [] then c1 else publishPreparedEnvelopeLocked MsgProposal envBytes c1)"

definition join_msg :: "Deps \<Rightarrow> bytes \<Rightarrow> string \<Rightarrow> ProposalMsg" where
  "join_msg D kp jobID =
    \<lparr>pm_ProposalType = ProposalJoin, pm_Data = kp, pm_ProposalRef = [], pm_OperationID = jobID,
     pm_TargetPeerID = d_pidString D (d_localID D), pm_TargetIdentity = localIdentity D, pm_RequestID = '''',
     pm_GroupType = '''', pm_CategoryID = '''', pm_KeyPackageHash = d_sha256 D kp\<rparr>"

datatype heal_status = HealDone | HealAwaiting heal_wait

definition awaiting :: "heal_run \<Rightarrow> ProposalMsg \<Rightarrow> nat \<Rightarrow> heal_wait" where
  "awaiting r msg attempt = \<lparr>run_traceID = run_traceID r, run_event = run_event r,
     run_scheduledAt = run_scheduledAt r, run_startedAt = run_startedAt r, run_job = run_job r,
     run_msg = msg, run_attempt = attempt\<rparr>"

definition heal_join :: "Deps \<Rightarrow> heal_run \<Rightarrow> Coord \<Rightarrow> heal_status \<times> Coord" where
  "heal_join D r c =
    (if fj_Status (run_job r) \<noteq> ''SNAPSHOT_CREATED'' then (HealDone, heal_tail D r c)
     else
       let c1 = heal_audit r ''proposal_join_generation'' ''started'' 0 '''' c in
       case engine (\<lambda>n. mls_GenerateKeyPackage (d_mls D) n (d_signingKey D)) c1 of
         (Inl err, c2) \<Rightarrow>
           (HealDone, heal_exit D (logHealFailed D r ''proposal_join_generation''
              (heal_audit r ''proposal_join_generation'' ''failed'' 0 (d_errText D err) c2)))
       | (Inr (kp, kpPriv), c2) \<Rightarrow>
           let msg = join_msg D kp (fj_JobID (run_job r));
               c3 = publish_join D msg (c2\<lparr>c_groupState := [], c_treeHash := []\<rparr>);
               r1 = move_job ''PROPOSAL_SENT'' c3 r;
               r' = r1\<lparr>run_job := (run_job r1)\<lparr>fj_PendingBundlePrivate := kpPriv\<rparr>\<rparr>
           in (HealAwaiting (awaiting r' msg 1),
               heal_audit r ''proposal_join_broadcast'' ''completed'' 0 '''' (save_job (run_job r') c3)))"

definition runHeal :: "Deps \<Rightarrow> bool \<Rightarrow> string \<Rightarrow> ForkEvent \<Rightarrow> time \<Rightarrow> Coord \<Rightarrow> heal_status \<times> Coord" where
  "runHeal D cancelled traceID event scheduledAt c =
    (let c1 = recordForkHealAudit traceID (fe_GroupID event) ''started'' ''completed'' (c_now c)
                (Milliseconds (c_now c - scheduledAt)) '''' c
     in if cancelled then (HealDone, heal_release D c1)
        else
          let (job, c2) = heal_job D traceID event c1;
              (r, c3) = heal_snapshot D \<lparr>run_traceID = traceID, run_event = event, run_scheduledAt = scheduledAt,
                          run_startedAt = c_now c, run_job = job\<rparr> (SetOperationalMode ModeFrozenForApply c2)
          in heal_join D r c3)"

text \<open>
  What ends a wait. A timeout looks once more for a signal before it counts; the third one gives up.
\<close>

datatype wake = WelcomeSignal | ContextDone | TimedOut

definition heal_reload :: "Deps \<Rightarrow> heal_wait \<Rightarrow> Coord \<Rightarrow> Coord" where
  "heal_reload D w c =
    (case on_db (GetActiveForkHealingJob (fe_GroupID (run_event w))) (c\<lparr>c_welcome := False\<rparr>) of
       (Inr (Some job), c1) \<Rightarrow> heal_tail D ((heal_run.truncate w)\<lparr>run_job := job\<rparr>) c1
     | (_, c1) \<Rightarrow> heal_exit D (logHealFailed D w ''reload_job'' c1))"

definition maxProposalJoinRetries :: nat where "maxProposalJoinRetries = 3"

definition heal_wake :: "Deps \<Rightarrow> wake \<Rightarrow> heal_wait \<Rightarrow> Coord \<Rightarrow> heal_status \<times> Coord" where
  "heal_wake D ev w c =
    (case ev of
       WelcomeSignal \<Rightarrow> if c_welcome c then (HealDone, heal_reload D w c) else (HealAwaiting w, c)
     | ContextDone \<Rightarrow> (HealDone, heal_exit D c)
     | TimedOut \<Rightarrow>
        if c_welcome c then (HealDone, heal_reload D w c)
        else if run_attempt w < maxProposalJoinRetries
        then (HealAwaiting (w\<lparr>run_attempt := run_attempt w + 1\<rparr>), publish_join D (run_msg w) c)
        else (HealDone, heal_exit D (logHealFailed D w ''awaiting_welcome'' c)))"

section \<open>Resuming after a restart\<close>

definition phaseBeforeStateSwapped :: "string \<Rightarrow> bool" where
  "phaseBeforeStateSwapped status \<longleftrightarrow>
    status \<in> {''INITIATED'', ''FROZEN_FOR_APPLY'', ''SNAPSHOT_CREATED'', ''EXTERNAL_JOINED''}"

definition isAlreadyOnWinningBranch :: "ForkHealingJob \<Rightarrow> Coord \<Rightarrow> bool" where
  "isAlreadyOnWinningBranch job c =
    (if fj_Status job = ''INITIATED'' \<or> fj_Status job = ''SNAPSHOT_CREATED'' then False
     else if fj_PendingEpoch job > 0 \<and> c_epoch c = fj_PendingEpoch job then c_treeHash c = fj_PendingTreeHash job
     else if c_epoch c = fj_WinningEpoch job then c_treeHash c = fj_WinningTreeHash job
     else False)"

definition zero_announcement :: GroupStateAnnouncement where
  "zero_announcement = \<lparr>gsa_TreeHash = [], gsa_MemberCount = 0, gsa_Epoch = 0, gsa_CommitHash = [], gsa_HistoryHash = []\<rparr>"

definition resumed_event :: "Deps \<Rightarrow> ForkHealingJob \<Rightarrow> ForkEvent" where
  "resumed_event D job =
    (let winnerPeer = (case d_pidDecode D (fj_WinnerPeerID job) of None \<Rightarrow> fj_WinnerPeerID job | Some p \<Rightarrow> p)
     in \<lparr>fe_GroupID = fj_GroupID job, fe_RemotePeer = winnerPeer, fe_LocalAnnounce = zero_announcement,
         fe_RemoteAnnounce = zero_announcement\<lparr>gsa_TreeHash := fj_WinningTreeHash job, gsa_Epoch := fj_WinningEpoch job\<rparr>,
         fe_RemoteEpoch = fj_WinningEpoch job, fe_Result = BranchLocal, fe_NeedExternalJoin = True,
         fe_WinnerPeers = [winnerPeer], fe_PartitionStartedAt = fj_CreatedAtMs job * millisecond\<rparr>)"

definition resumeForkHealingJob :: "Deps \<Rightarrow> ForkHealingJob \<Rightarrow> Coord \<Rightarrow> Coord" where
  "resumeForkHealingJob D job c =
    (let (job1, c1) =
           (if isAlreadyOnWinningBranch job c \<and> phaseBeforeStateSwapped (fj_Status job)
            then let job' = job\<lparr>fj_Status := ''STATE_SWAPPED'', fj_UpdatedAtMs := nowMs c\<rparr> in (job', save_job job' c)
            else (job, c))
     in if c_healing c1 then c1
        else emit (StartHeal (fj_TraceID job1) (resumed_event D job1) (fj_CreatedAtMs job1 * millisecond))
               (c1\<lparr>c_healing := True\<rparr>))"

section \<open>The Welcome\<close>

text \<open>
  \<^verbatim>\<open>ProcessWelcomeIfWaiting\<close> releases the lock around the call of the engine; \<open>between\<close> is what the other
  goroutines do to the state meanwhile.
\<close>

definition waiting_job :: "Deps \<Rightarrow> Coord \<Rightarrow> ForkHealingJob option \<times> Coord" where
  "waiting_job D c =
    (case on_db (GetActiveForkHealingJob (d_groupID D)) c of
       (Inr (Some job), c1) \<Rightarrow> (if fj_Status job = ''PROPOSAL_SENT'' then Some job else None, c1)
     | (_, c1) \<Rightarrow> (None, c1))"

definition ProcessWelcomeIfWaiting :: "Deps \<Rightarrow> bytes \<Rightarrow> (Coord \<Rightarrow> Coord) \<Rightarrow> Coord \<Rightarrow> bool \<times> Coord" where
  "ProcessWelcomeIfWaiting D welcomeBytes between c =
    (case waiting_job D c of
       (None, c1) \<Rightarrow> (False, c1)
     | (Some job, c1) \<Rightarrow>
        if fj_PendingBundlePrivate job = [] then (False, c1)
        else case engine (\<lambda>n. mls_ProcessWelcome (d_mls D) n welcomeBytes (d_signingKey D)
                            (fj_PendingBundlePrivate job) (GetMaxPastEpochs (d_cfg D))) c1 of
            (Inl _, c2) \<Rightarrow> (False, between c2)
          | (Inr (groupState, treeHash, epoch), c2) \<Rightarrow>
             (case waiting_job D (between c2) of
                (None, c3) \<Rightarrow> (False, c3)
              | (Some job', c3) \<Rightarrow>
                 (True, (save_job (job'\<lparr>fj_Status := ''EXTERNAL_JOINED'', fj_WinningEpoch := epoch,
                           fj_WinningTreeHash := treeHash, fj_PendingGroupState := groupState,
                           fj_PendingEpoch := epoch, fj_PendingTreeHash := treeHash,
                           fj_UpdatedAtMs := nowMs c3\<rparr>) c3)\<lparr>c_welcome := True\<rparr>)))"

text \<open>The single-message variant of the replay broadcast.\<close>

definition broadcastOutboundReplay ::
  "Deps \<Rightarrow> OutboundReplay \<Rightarrow> ApplicationEvent \<Rightarrow> Coord \<Rightarrow> (error + unit) \<times> Coord" where
  "broadcastOutboundReplay D outbound ev c =
    (let c1 = publishPreparedEnvelopeLocked MsgApplication (or_ReplayEnvelope outbound)
                (appendOfflineEnvelopeLocked D (or_ReplayEnvelope outbound) c)
     in case on_db (SaveOutboundReplay (outbound\<lparr>or_Status := ''BROADCASTED'', or_UpdatedAtMs := nowMs c1\<rparr>)) c1 of
          (Inl err, c2) \<Rightarrow> (Inl (ErrWrap ''save outbound replay broadcasted: '' err), c2)
        | (Inr _, c2) \<Rightarrow>
           (case on_db (SaveApplicationEvent (ev\<lparr>ae_Status := ''REPLAYED'', ae_ReplayedAtMs := nowMs c2\<rparr>)) c2 of
              (Inl err, c3) \<Rightarrow> (Inl (ErrWrap ''save application event replayed: '' err), c3)
            | (Inr _, c3) \<Rightarrow>
               (Inr (), if ae_EnvelopeHash ev = [] then c3
                        else snd (on_db (MarkMessageReplayed (d_groupID D) (ae_EnvelopeHash ev) (c_now c3)) c3))))"

section \<open>What a run leaves alone\<close>

text \<open>\<open>run_frame c c'\<close>: the step does not touch the operational mode and the healing flag.\<close>

lemma on_db_frame [simp]:
  "c_mode (snd (on_db f c)) = c_mode c" "c_healing (snd (on_db f c)) = c_healing c"
  "c_welcome (snd (on_db f c)) = c_welcome c" "c_db (snd (on_db f c)) = snd (f (c_db c))"
  "c_groupState (snd (on_db f c)) = c_groupState c" "c_out (snd (on_db f c)) = c_out c"
  by (simp_all add: on_db_def case_prod_beta)

text \<open>A run ends by putting the coordinator back into service.\<close>

lemma heal_release_frame [simp]:
  "\<not> c_healing (heal_release D c)" "c_mode (heal_release D c) = c_mode c"
proof -
  have "c_mode (case on_db (GetGroupRecord (d_groupID D)) c of (Inl _, c1) \<Rightarrow> c1
      | (Inr rec, c1) \<Rightarrow> if gr_GroupState rec = [] then c1
          else c1\<lparr>c_groupState := gr_GroupState rec, c_epoch := gr_Epoch rec, c_treeHash := gr_TreeHash rec\<rparr>) = c_mode c"
    using on_db_frame(1) [of "GetGroupRecord (d_groupID D)" c]
    by (cases "on_db (GetGroupRecord (d_groupID D)) c") (auto split: sum.split)
  then show "c_mode (heal_release D c) = c_mode c" by (simp add: heal_release_def Let_def)
qed (simp add: heal_release_def Let_def)

lemma heal_exit_frame [simp]: "\<not> c_healing (heal_exit D c)" "c_mode (heal_exit D c) = ModeLive"
  by (simp_all add: heal_exit_def SetOperationalMode_def)

lemma heal_tail_frame [simp]: "\<not> c_healing (heal_tail D r c)" "c_mode (heal_tail D r c) = ModeLive"
  by (simp_all add: heal_tail_def case_prod_beta Let_def split: option.split)

lemma heal_reload_frame [simp]: "\<not> c_healing (heal_reload D w c)" "c_mode (heal_reload D w c) = ModeLive"
  by (simp_all add: heal_reload_def case_prod_beta split: sum.split option.split)

text \<open>
  The wait of a run: each entry is what wakes it and what the other goroutines did to the state before.
\<close>

fun heal_waits :: "Deps \<Rightarrow> (wake \<times> (Coord \<Rightarrow> Coord)) list \<Rightarrow> heal_status \<times> Coord \<Rightarrow> heal_status \<times> Coord" where
  "heal_waits D [] s = s"
| "heal_waits D ((ev, between) # es) (HealAwaiting w, c) = heal_waits D es (heal_wake D ev w (between c))"
| "heal_waits D (_ # es) (HealDone, c) = (HealDone, c)"

lemma heal_waits_done [simp]: "heal_waits D es (HealDone, c) = (HealDone, c)"
  by (cases es) auto

lemma heal_wake_cases:
  assumes "heal_wake D ev w c = (s, c')"
  obtains (over) "s = HealDone" "\<not> c_healing c'" "c_mode c' = ModeLive"
  | (signal) "ev = WelcomeSignal" "s = HealAwaiting w"
  | (retry) "ev = TimedOut" "s = HealAwaiting (w\<lparr>run_attempt := run_attempt w + 1\<rparr>)"
      "run_attempt w < maxProposalJoinRetries"
  using assms by (cases ev) (auto simp: heal_wake_def split: if_splits)

lemma heal_waits_end:
  assumes "maxProposalJoinRetries + 1 \<le> run_attempt w + length (filter (\<lambda>(ev, _). ev \<noteq> WelcomeSignal) es)"
    and "run_attempt w \<le> maxProposalJoinRetries"
  shows "\<exists>c'. heal_waits D es (HealAwaiting w, c) = (HealDone, c') \<and> \<not> c_healing c' \<and> c_mode c' = ModeLive"
  using assms
proof (induction es arbitrary: w c)
  case (Cons x es)
  obtain ev between where x: "x = (ev, between)" by (cases x)
  obtain s c1 where wake: "heal_wake D ev w (between c) = (s, c1)" by (metis prod.exhaust)
  then show ?case
  proof (cases rule: heal_wake_cases)
    case over
    then show ?thesis by (simp add: x wake)
  next
    case signal
    then show ?thesis using Cons.prems Cons.IH [of w c1] wake by (simp add: x)
  next
    case retry
    then show ?thesis
      using Cons.prems Cons.IH [of "w\<lparr>run_attempt := run_attempt w + 1\<rparr>" c1] wake by (simp add: x)
  qed
qed simp

lemma heal_join_cases:
  assumes "heal_join D r c = (s, c')"
  obtains (over) "s = HealDone" "\<not> c_healing c'" "c_mode c' = ModeLive"
  | (wait) w where "s = HealAwaiting w" "run_attempt w = 1"
  using assms
  by (auto simp: heal_join_def Let_def case_prod_beta awaiting_def split: if_splits sum.splits)

text \<open>
  C31: a fork heal ends. Whatever the other goroutines do while it waits for the Welcome, three timeouts or
  cancellations are enough for the run to be over, the coordinator is then back in live mode, and a next
  heal may start.
\<close>

theorem heal_run_ends:
  assumes "length (filter (\<lambda>(ev, _). ev \<noteq> WelcomeSignal) es) \<ge> 3"
  shows "\<exists>c'. heal_waits D es (runHeal D cancelled traceID event scheduledAt c) = (HealDone, c') \<and>
    \<not> c_healing c' \<and> (\<not> cancelled \<longrightarrow> c_mode c' = ModeLive)"
proof (cases cancelled)
  case True
  then show ?thesis by (simp add: runHeal_def Let_def)
next
  case False
  obtain r c1 where run: "runHeal D cancelled traceID event scheduledAt c = heal_join D r c1"
    using False by (simp add: runHeal_def Let_def case_prod_beta)
  obtain s c2 where j: "heal_join D r c1 = (s, c2)" by (metis prod.exhaust)
  then show ?thesis
  proof (cases rule: heal_join_cases)
    case over
    then show ?thesis by (simp add: run j)
  next
    case (wait w)
    then show ?thesis using heal_waits_end [of w es D c2] assms
      by (auto simp: run j maxProposalJoinRetries_def)
  qed
qed

section \<open>The job of a join\<close>

text \<open>The table of jobs has no column for the private part of a key package.\<close>

definition no_bundles :: "DB \<Rightarrow> bool" where
  "no_bundles db \<longleftrightarrow> (\<forall>job \<in> set (db_jobs db). fj_PendingBundlePrivate job = [])"

lemma with_io_jobs:
  assumes "\<And>d. db_jobs (snd (f d)) = db_jobs d"
  shows "db_jobs (snd (with_io f db)) = db_jobs db"
  by (rule with_io_cases [of f db]) (simp_all add: assms)

lemma jobs_unchanged [simp]:
  "db_jobs (snd (GetActiveForkHealingJob g db)) = db_jobs db"
  "db_jobs (snd (GetGroupRecord g db)) = db_jobs db"
  "db_jobs (snd (RecordForkHealAudit now a db)) = db_jobs db"
  by (auto simp: GetActiveForkHealingJob_def GetGroupRecord_def RecordForkHealAudit_def Let_def
      intro!: with_io_jobs)

lemma active_job_stored:
  assumes "fst (GetActiveForkHealingJob g db) = Inr (Some job)"
  shows "job \<in> set (db_jobs db)"
proof -
  let ?rows = "filter (\<lambda>r. fj_GroupID r = g \<and> job_active r) (db_jobs db)"
  obtain rest where "SliceStable (\<lambda>a b. fj_CreatedAtMs a > fj_CreatedAtMs b) ?rows = job # rest"
    using assms by (auto simp: GetActiveForkHealingJob_def with_io_def Let_def split: list.splits if_splits)
  then have "job \<in> set ?rows" by (metis list.set_intros(1) set_SliceStable)
  then show ?thesis by simp
qed

lemma no_bundles_upsert:
  "\<forall>job \<in> set rows. fj_PendingBundlePrivate job = [] \<Longrightarrow>
   \<forall>job \<in> set (upsert_by fj_JobID job_merge (job_stored new) rows). fj_PendingBundlePrivate job = []"
  by (auto simp: upsert_by_def job_merge_def job_stored_def split: if_splits)

lemma no_bundles_save: "no_bundles (c_db c) \<Longrightarrow> no_bundles (c_db (save_job job c))"
  using no_bundles_upsert [of "db_jobs (c_db c)" job]
  by (auto simp: no_bundles_def save_job_def SaveForkHealingJob_def with_io_def save_row_def Let_def split: if_splits)

lemma waiting_job_no_bundle:
  assumes "no_bundles (c_db c)" "waiting_job D c = (Some job, c')"
  shows "fj_PendingBundlePrivate job = []"
proof -
  have "fst (on_db (GetActiveForkHealingJob (d_groupID D)) c) = Inr (Some job)"
    using assms(2) by (auto simp: waiting_job_def split: prod.splits sum.splits option.splits if_splits)
  then have "job \<in> set (db_jobs (c_db c))" by (intro active_job_stored) (simp add: on_db_def case_prod_beta)
  then show ?thesis using assms(1) by (simp add: no_bundles_def)
qed

lemma welcome_refused: "no_bundles (c_db c) \<Longrightarrow> \<not> fst (ProcessWelcomeIfWaiting D w between c)"
  using waiting_job_no_bundle [of c D]
  by (auto simp: ProcessWelcomeIfWaiting_def split: prod.split option.split)

definition active_row :: "string \<Rightarrow> ForkHealingJob list \<Rightarrow> ForkHealingJob option" where
  "active_row g jobs =
    (case SliceStable (\<lambda>a b. fj_CreatedAtMs a > fj_CreatedAtMs b) (filter (\<lambda>r. fj_GroupID r = g \<and> job_active r) jobs) of
       [] \<Rightarrow> None | r # _ \<Rightarrow> Some r)"

lemma GetActive_calm:
  assumes "calm (Suc n) db"
  shows "GetActiveForkHealingJob g db = (Inr (active_row g (db_jobs db)), unfaulted db)"
  unfolding GetActiveForkHealingJob_def active_row_def with_io_calm [OF assms] Let_def unfaulted_sel ..

lemma calm_Suc: "calm (Suc n) db \<Longrightarrow> calm n db"
  using set_take_subset_set_take [of n "Suc n" "db_faults db"] by (auto simp: calm_def)

lemma audit_calm:
  assumes "calm (Suc n) (c_db c)"
  shows "calm n (c_db (recordForkHealAudit tid g step st ts d err c))"
    "db_jobs (c_db (recordForkHealAudit tid g step st ts d err c)) = db_jobs (c_db c)"
    "c_out (recordForkHealAudit tid g step st ts d err c) = c_out c"
proof -
  have "db_faults (snd (RecordForkHealAudit now a (c_db c))) = db_faults (unfaulted (c_db c))" for now a
    unfolding RecordForkHealAudit_def with_io_calm [OF assms] by simp
  then show "calm n (c_db (recordForkHealAudit tid g step st ts d err c))"
    using calm_unfaulted [OF assms] calm_Suc [OF assms] by (simp add: recordForkHealAudit_def calm_def)
qed (simp_all add: recordForkHealAudit_def)

lemma heal_release_jobs:
  "db_jobs (c_db (heal_release D c)) = db_jobs (c_db c)" "c_out (heal_release D c) = c_out c"
proof -
  let ?c1 = "snd (on_db (GetGroupRecord (d_groupID D)) c)"
  have "c_db (heal_release D c) \<in> {c_db c, c_db ?c1} \<and> c_out (heal_release D c) \<in> {c_out c, c_out ?c1}"
    by (simp add: heal_release_def Let_def case_prod_beta split: sum.split)
  then show "db_jobs (c_db (heal_release D c)) = db_jobs (c_db c)" "c_out (heal_release D c) = c_out c"
    by auto
qed

lemma heal_tail_idle:
  assumes "fj_Status (run_job r) \<notin> {''EXTERNAL_JOINED'', ''STATE_SWAPPED'', ''LOCAL_COMPLETE''}"
  shows "heal_tail D r c = heal_exit D c"
  using assms by (simp add: heal_tail_def heal_swap_def heal_replay_def heal_clean_def)


section \<open>Witnesses\<close>

definition sample_fork :: ForkEvent where
  "sample_fork = \<lparr>fe_GroupID = ''g1'', fe_RemotePeer = ''p2'', fe_LocalAnnounce = zero_announcement,
     fe_RemoteAnnounce = zero_announcement, fe_RemoteEpoch = 4, fe_Result = BranchRemote,
     fe_NeedExternalJoin = True, fe_WinnerPeers = [''p2''], fe_PartitionStartedAt = 0\<rparr>"

theorem heal_run_ends_witness:
  "\<exists>c'. heal_waits sample_deps (replicate 3 (TimedOut, \<lambda>c. c))
      (runHeal sample_deps False ''t'' sample_fork 0 sample_node) = (HealDone, c') \<and>
    \<not> c_healing c' \<and> c_mode c' = ModeLive"
  using heal_run_ends [of "replicate 3 (TimedOut, \<lambda>c. c)" sample_deps False "''t''" sample_fork 0 sample_node]
  by (simp add: numeral_3_eq_3)

definition stuck_node :: Coord where
  "stuck_node = sample_node\<lparr>c_db := empty_db\<lparr>db_jobs := [job_stored (sample_job ''j1'' ''PROPOSAL_SENT'')]\<rparr>\<rparr>"


end
