(* ===== verification/MessageLoop.thy ===== *)
theory MessageLoop
  imports Healing
begin

text \<open>
  The entry points of a coordinator: the dispatch of received envelopes by operational mode, the exchange
  of announcements and history hashes (\<^verbatim>\<open>coordinator_message.go\<close>) and the replay of stored envelopes
  (\<^verbatim>\<open>coordinator_replay.go\<close>), what they keep, and which commits they admit.
\<close>

section \<open>Announcements and history hashes\<close>

definition handleHeartbeatLocked :: "Deps \<Rightarrow> peer_id \<Rightarrow> Coord \<Rightarrow> Coord" where
  "handleHeartbeatLocked D from c = observePeerAliveLocked D from c"

definition ObservePeerAlive :: "Deps \<Rightarrow> peer_id \<Rightarrow> Coord \<Rightarrow> Coord" where
  "ObservePeerAlive D from c = observePeerAliveLocked D from c"

definition send_history :: "Deps \<Rightarrow> MessageType \<Rightarrow> payload \<Rightarrow> peer_id \<Rightarrow> Coord \<Rightarrow> Coord" where
  "send_history D msgType p to c =
    (let (ts, c1) = hlc_now c; wire = buildEnvelopeWithTimestampLocked D msgType p ts c1
     in if wire = [] then c1 else emit (SendDirect to wire) c1)"

definition sendHistoryQuery :: "Deps \<Rightarrow> peer_id \<Rightarrow> u64 \<Rightarrow> Coord \<Rightarrow> Coord" where
  "sendHistoryQuery D to epoch c = send_history D MsgHistoryQuery (HistoryQueryPayload \<lparr>hq_Epoch = epoch\<rparr>) to c"

definition process_remote ::
  "peer_id \<Rightarrow> Envelope \<Rightarrow> GroupStateAnnouncement \<Rightarrow> Coord \<Rightarrow> ForkEvent option \<times> Coord" where
  "process_remote from env ann c =
    (let (event, fd) = ProcessRemote (c_now c) from (env_Epoch env) ann (c_fd c) in (event, c\<lparr>c_fd := fd\<rparr>))"

definition handleAnnounceLocked :: "Deps \<Rightarrow> peer_id \<Rightarrow> Envelope \<Rightarrow> Coord \<Rightarrow> Coord" where
  "handleAnnounceLocked D from env c =
    (case u_announce (d_json D) (env_Payload env) of
       Inl _ \<Rightarrow> c
     | Inr ann \<Rightarrow>
        if gsa_Epoch ann = c_epoch c then
          if sameBranch ann (zero_announcement\<lparr>gsa_HistoryHash := c_historyHash c, gsa_Epoch := c_epoch c\<rparr>)
          then snd (process_remote from env ann c)
          else case process_remote from env ann c of
              (None, c1) \<Rightarrow> c1
            | (Some event, c1) \<Rightarrow>
                if \<not> fe_NeedExternalJoin event then c1
                else scheduleHeal D (event\<lparr>fe_GroupID := d_groupID D\<rparr>) (meter IncrPartitionsDetected c1)
        else if gsa_Epoch ann > c_epoch c
        then snd (process_remote from env ann (sendHistoryQuery D from (c_epoch c) c))
        else snd (process_remote from env ann c))"

definition handleHistoryQueryLocked :: "Deps \<Rightarrow> peer_id \<Rightarrow> Envelope \<Rightarrow> Coord \<Rightarrow> Coord" where
  "handleHistoryQueryLocked D from env c =
    (case u_query (d_json D) (env_Payload env) of
       Inl _ \<Rightarrow> c
     | Inr q \<Rightarrow>
        let reply = (case gget (c_historyChain c) (hq_Epoch q) of
               Some h \<Rightarrow> \<lparr>hr_Epoch = hq_Epoch q, hr_HistoryHash = h, hr_Known = True\<rparr>
             | None \<Rightarrow> \<lparr>hr_Epoch = hq_Epoch q, hr_HistoryHash = [], hr_Known = False\<rparr>)
        in send_history D MsgHistoryReply (HistoryReplyPayload reply) from c)"

text \<open>The event of a history reply has no winner peers and no start of the partition.\<close>

definition reply_event :: "Deps \<Rightarrow> peer_id \<Rightarrow> HistoryReplyMsg \<Rightarrow> Coord \<Rightarrow> ForkEvent" where
  "reply_event D from r c =
    (let (result, found) = CompareWithPeer from (c_fd c);
         remoteAnn = (case found of None \<Rightarrow> zero_announcement | Some ann \<Rightarrow> ann)
     in \<lparr>fe_GroupID = d_groupID D, fe_RemotePeer = from, fe_LocalAnnounce = local_announcement c,
         fe_RemoteAnnounce = remoteAnn,
         fe_RemoteEpoch = (if gsa_Epoch remoteAnn = 0 then hr_Epoch r else gsa_Epoch remoteAnn),
         fe_Result = result, fe_NeedExternalJoin = (result = BranchRemote), fe_WinnerPeers = [],
         fe_PartitionStartedAt = zero_time\<rparr>)"

definition handleHistoryReplyLocked :: "Deps \<Rightarrow> peer_id \<Rightarrow> Envelope \<Rightarrow> Coord \<Rightarrow> Coord" where
  "handleHistoryReplyLocked D from env c =
    (case u_reply (d_json D) (env_Payload env) of
       Inl _ \<Rightarrow> c
     | Inr r \<Rightarrow>
        if \<not> hr_Known r then c
        else case gget (c_historyChain c) (hr_Epoch r) of
            None \<Rightarrow> c
          | Some localHash \<Rightarrow>
              if localHash = hr_HistoryHash r \<and> d_onSyncRequired D
              then emit (OnSyncRequired from (d_groupID D)) c
              else let event = reply_event D from r c
                   in if \<not> fe_NeedExternalJoin event then c
                      else scheduleHeal D event (meter IncrPartitionsDetected c))"

section \<open>Dispatch of received envelopes\<close>

definition handleControlMessageLocked :: "Deps \<Rightarrow> peer_id \<Rightarrow> Envelope \<Rightarrow> Coord \<Rightarrow> Coord" where
  "handleControlMessageLocked D from env c =
    (case env_Type env of
       MsgHeartbeat \<Rightarrow> handleHeartbeatLocked D from c
     | MsgAnnounce \<Rightarrow> handleAnnounceLocked D from env c
     | MsgDeliveryAck \<Rightarrow> handleDeliveryAckLocked D from env c
     | MsgHistoryQuery \<Rightarrow> handleHistoryQueryLocked D from env c
     | MsgHistoryReply \<Rightarrow> handleHistoryReplyLocked D from env c
     | _ \<Rightarrow> c)"

definition catch_up_append :: "Deps \<Rightarrow> Envelope \<Rightarrow> bytes \<Rightarrow> Coord \<Rightarrow> Coord" where
  "catch_up_append D env data c =
    (if OfflineSyncEnabled (d_cfg D)
     then snd (on_db (AppendEnvelopeWithSource (d_sha256 D) (c_now c) (d_groupID D) (env_Type env) (env_Epoch env)
                 (env_Timestamp env) data ''gossip_catchup'') c)
     else c)"

definition frozen_append :: "Deps \<Rightarrow> Envelope \<Rightarrow> bytes \<Rightarrow> Coord \<Rightarrow> Coord" where
  "frozen_append D env data c =
    snd (on_db (AppendEnvelope (d_sha256 D) (c_now c) (d_groupID D) (env_Type env) (env_Epoch env)
          (env_Timestamp env) data) c)"

definition handle_live :: "Deps \<Rightarrow> reentry \<Rightarrow> peer_id \<Rightarrow> Envelope \<Rightarrow> bytes \<Rightarrow> Coord \<Rightarrow> Coord option" where
  "handle_live D k from env data c =
    (case env_Type env of
       MsgHeartbeat \<Rightarrow> Some (handleHeartbeatLocked D from c)
     | MsgAnnounce \<Rightarrow> Some (handleAnnounceLocked D from env c)
     | MsgProposal \<Rightarrow> handleProposalLocked D k from env c
     | MsgCommit \<Rightarrow> map_option snd (handleCommitLocked D k env data c)
     | MsgApplication \<Rightarrow> Some (snd (handleApplicationLocked D from env data c))
     | MsgApplicationBatched \<Rightarrow> Some (snd (handleApplicationBatchedLocked D from env data c))
     | MsgDeliveryAck \<Rightarrow> Some (handleDeliveryAckLocked D from env c)
     | MsgHistoryQuery \<Rightarrow> Some (handleHistoryQueryLocked D from env c)
     | MsgHistoryReply \<Rightarrow> Some (handleHistoryReplyLocked D from env c)
     | _ \<Rightarrow> Some c)"

definition isolated :: "MessageType \<Rightarrow> bool" where
  "isolated t \<longleftrightarrow> t = MsgCommit \<or> t = MsgApplication"

definition handleRawMessage :: "Deps \<Rightarrow> reentry \<Rightarrow> peer_id \<Rightarrow> bytes \<Rightarrow> Coord \<Rightarrow> Coord option" where
  "handleRawMessage D k from data c =
    (if from = d_localID D then Some c
     else case u_envelope (d_json D) data of
         Inl _ \<Rightarrow> Some c
       | Inr env \<Rightarrow>
          if env_GroupID env \<noteq> d_groupID D then Some c
          else if (isolated (env_Type env) \<or> env_Type env = MsgProposal) \<and>
                  validateSenderTimestamp (nowMs c) (WallTimeMs (env_Timestamp env)) \<noteq> Inr () then Some c
          else case c_mode c of
              ModeCatchingUp \<Rightarrow> Some (if isolated (env_Type env) then catch_up_append D env data c
                                      else handleControlMessageLocked D from env c)
            | ModeFrozenForApply \<Rightarrow> Some (if isolated (env_Type env) then frozen_append D env data c
                                          else handleControlMessageLocked D from env c)
            | _ \<Rightarrow> handle_live D k from env data c)"

definition ReceiveDirectMessage :: "Deps \<Rightarrow> reentry \<Rightarrow> peer_id \<Rightarrow> bytes \<Rightarrow> Coord \<Rightarrow> Coord option" where
  "ReceiveDirectMessage D k from data c = handleRawMessage D k from data c"

section \<open>Replay of stored envelopes\<close>

text \<open>The texts of the errors leave out the quoted names.\<close>

definition invalid_result :: "string \<Rightarrow> ReplayEnvelopeResult \<Rightarrow> ReplayEnvelopeResult" where
  "invalid_result err r = r\<lparr>rr_State := ReplayStateInvalid, rr_Error := err, rr_Terminal := True\<rparr>"

definition undecoded_result :: "Deps \<Rightarrow> bytes \<Rightarrow> ReplayEnvelopeResult" where
  "undecoded_result D raw =
    \<lparr>rr_GroupID = '''', rr_MsgType = MsgOther '''', rr_EnvelopeHash = hashEnvelope D raw, rr_State = '''',
     rr_Seq = 0, rr_MsgEpoch = 0, rr_LocalEpoch = 0, rr_Error = '''', rr_Terminal = False,
     rr_CursorSafe = False, rr_Applied = False, rr_AlreadyApplied = False\<rparr>"

definition replay_blob :: "Deps \<Rightarrow> reentry \<Rightarrow> bytes \<Rightarrow> Coord \<Rightarrow> (ReplayEnvelopeResult \<times> Coord) option" where
  "replay_blob D k raw c =
    (case u_envelope (d_json D) raw of
       Inl jerr \<Rightarrow> Some (invalid_result (d_errText D jerr) (undecoded_result D raw), c)
     | Inr env \<Rightarrow>
        let invalid = (\<lambda>err. Some (invalid_result err (newReplayResultLocked D env raw c), c)) in
        if env_GroupID env \<noteq> d_groupID D then invalid ''envelope group does not match coordinator group''
        else case validateSenderTimestamp (nowMs c) (WallTimeMs (env_Timestamp env)) of
            Inl err \<Rightarrow> invalid (d_errText D err)
          | Inr _ \<Rightarrow>
             (case env_Type env of
                MsgCommit \<Rightarrow> handleCommitDetailedLocked D k env raw c
              | MsgApplication \<Rightarrow>
                  Some (handleApplicationDetailedLocked D (decodeEnvelopePeerID D (env_From env) '''') env raw c)
              | _ \<Rightarrow> invalid ''unsupported envelope type''))"

fun replay_blobs :: "Deps \<Rightarrow> reentry \<Rightarrow> bytes list \<Rightarrow> Coord \<Rightarrow> (ReplayEnvelopeResult list \<times> Coord) option" where
  "replay_blobs D k [] c = Some ([], c)"
| "replay_blobs D k (raw # blobs) c =
    (if raw = [] then replay_blobs D k blobs c
     else do { (r, c1) \<leftarrow> replay_blob D k raw c;
               (rs, c2) \<leftarrow> replay_blobs D k blobs c1;
               Some (r # rs, c2) })"

definition ReplayEnvelopesDetailed ::
  "Deps \<Rightarrow> reentry \<Rightarrow> bytes list \<Rightarrow> Coord \<Rightarrow> ((error + ReplayEnvelopeResult list) \<times> Coord) option" where
  "ReplayEnvelopesDetailed D k blobs c =
    (if \<not> c_started c then Some (Inl (ErrMsg ''coordinator not started''), c)
     else map_option (\<lambda>(rs, c'). (Inr rs, c')) (replay_blobs D k blobs c))"

definition ReplayEnvelopes :: "Deps \<Rightarrow> reentry \<Rightarrow> bytes list \<Rightarrow> Coord \<Rightarrow> ((error + nat) \<times> Coord) option" where
  "ReplayEnvelopes D k blobs c =
    map_option (\<lambda>(res, c'). (map_sum id (\<lambda>rs. length (filter (\<lambda>r. rr_State r = ReplayStateApplied) rs)) res, c'))
      (ReplayEnvelopesDetailed D k blobs c)"

section \<open>The entry points satisfy the contract\<close>

lemma keeps_send_history [keeps_intros]: "keeps a c \<Longrightarrow> keeps a (send_history D t p to c)"
  by (auto simp: send_history_def Let_def split: prod.split intro: keeps_intros keeps_bind)

lemma ProcessRemote_local [simp]: "fd_local (snd (ProcessRemote t from e ann fd)) = fd_local fd"
  by (simp add: ProcessRemote_def Let_def split: option.split)

lemma keeps_process_remote [keeps_intros]: "keeps a c \<Longrightarrow> keeps a (snd (process_remote from env ann c))"
  by (simp add: process_remote_def case_prod_beta keeps_fd)

lemma keeps_scheduleHeal [keeps_intros]: "keeps a c \<Longrightarrow> keeps a (scheduleHeal D ev c)"
  by (auto simp: scheduleHeal_def start_heal_def Let_def split: prod.split intro!: keeps_intros
      intro: keeps_bind_helpers)

lemma keeps_announce [keeps_intros]: "keeps a c \<Longrightarrow> keeps a (handleAnnounceLocked D from env c)"
proof -
  assume k: "keeps a c"
  have p: "keeps a c1" if "process_remote from env ann c = (ev, c1)" for ann ev c1
    using keeps_process_remote [OF k, of "from" env ann] that by simp
  show ?thesis using k unfolding handleAnnounceLocked_def sendHistoryQuery_def
    by (auto split: sum.split option.split prod.split intro!: keeps_intros dest: p)
qed

lemma keeps_history [keeps_intros]:
  "keeps a c \<Longrightarrow> keeps a (handleHistoryQueryLocked D from env c)"
  "keeps a c \<Longrightarrow> keeps a (handleHistoryReplyLocked D from env c)"
  unfolding handleHistoryQueryLocked_def handleHistoryReplyLocked_def Let_def
  by (auto split: sum.split option.split intro!: keeps_intros)

lemma keeps_view_changed [keeps_intros]: "keeps a c \<Longrightarrow> keeps a (view_changed ms c)"
  by (cases ms) (auto simp: view_changed_def intro: keeps_intros)

context contract
begin

lemma view_kept:
  assumes "view_ok (c_view c) \<Longrightarrow> view_ok av" "keeps (c\<lparr>c_view := av\<rparr>) x"
  shows "R c x"
  using viewing [OF assms(1)] kept [OF assms(2)] by (rule R_trans)

lemma observe_rel: "R c (observePeerAliveLocked D from c)"
proof -
  obtain fresh ms av where r: "RecordHeartbeat from (c_view c) = (fresh, ms, av)" by (metis prod.exhaust)
  have ok: "view_ok (c_view c) \<Longrightarrow> view_ok av"
    using view_step_ok [of "c_view c" "OpHeartbeat from"] r by simp
  show ?thesis
    unfolding observePeerAliveLocked_def r Let_def
    by (auto intro!: view_kept [OF ok] keeps_intros)
qed

lemma liveness_rel: "R c (snd (TriggerLivenessCheck c))" "R c (heartbeat_tick D c)"
proof -
  obtain ev ms av where r: "CheckLiveness (c_view c) = (ev, ms, av)" by (metis prod.exhaust)
  have ok: "view_ok (c_view c) \<Longrightarrow> view_ok av"
    using view_step_ok [of "c_view c" OpCheck] r by simp
  show "R c (snd (TriggerLivenessCheck c))" "R c (heartbeat_tick D c)"
    unfolding TriggerLivenessCheck_def heartbeat_tick_def r Let_def
    by (auto intro!: view_kept [OF ok] keeps_intros)
qed

lemma own_announce_rel: "R c (broadcastAnnounceLocked D c)"
proof -
  let ?c = "c\<lparr>c_fd := UpdateLocal (local_announcement c) (c_fd c)\<rparr>"
  have "R c ?c" by (rule announcing)
  moreover have "R ?c (broadcastLocked D MsgAnnounce p ?c)" for p by (intro kept keeps_intros)
  ultimately show ?thesis by (auto simp: broadcastAnnounceLocked_def Let_def intro: R_trans)
qed

lemma control_rel: "R c (handleControlMessageLocked D from env c)"
  unfolding handleControlMessageLocked_def handleHeartbeatLocked_def
  by (cases "env_Type env") (auto intro: kept keeps_intros observe_rel)

end

context reentrant
begin

lemma live_rel:
  assumes "u_envelope (d_json D) data = Inr env" "handle_live D k from env data c = Some c'"
  shows "R c c'"
proof -
  have "R c (handleDeliveryAckLocked D from env c)" "R c (handleAnnounceLocked D from env c)"
    "R c (handleHistoryQueryLocked D from env c)" "R c (handleHistoryReplyLocked D from env c)"
    by (intro kept keeps_intros)+
  then show ?thesis
    using assms observe_rel application_rel [OF assms(1)] handleProposal_rel handleCommit_rel [OF assms(1)]
    by (auto simp: handle_live_def handleHeartbeatLocked_def split: MessageType.splits)
qed

lemma receive_rel:
  assumes "handleRawMessage D k from data c = Some c'"
  shows "R c c'"
proof -
  have "R c (catch_up_append D env data c)" "R c (frozen_append D env data c)" for env
    unfolding catch_up_append_def frozen_append_def by (auto intro!: kept keeps_intros)
  then show ?thesis
    using assms control_rel live_rel
    by (auto simp: handleRawMessage_def split: if_splits sum.splits GroupOperationalMode.splits)
qed

lemma replay_blob_rel:
  assumes "replay_blob D k raw c = Some (r, c')"
  shows "R c c'"
proof -
  have "R c c'" if "u_envelope (d_json D) raw = Inr env" "handleApplicationDetailedLocked D p env raw c = (r, c')" for p env
    using application_rel(1) [OF that(1), of c p] that by simp
  then show ?thesis
    using assms handleCommitDetailed_rel
    by (auto simp: replay_blob_def Let_def split: if_splits sum.splits MessageType.splits)
qed

lemma replay_blobs_rel: "replay_blobs D k blobs c = Some (rs, c') \<Longrightarrow> R c c'"
proof (induction blobs arbitrary: rs c)
  case (Cons raw blobs)
  then show ?case using replay_blob_rel
    by (force split: if_splits Option.bind_splits intro: R_trans)
qed simp

end

section \<open>Isolation of the inbox\<close>

text \<open>\<open>stays c c'\<close>: the step touches neither the group nor anything derived from it.\<close>

definition stays :: "Coord \<Rightarrow> Coord \<Rightarrow> bool" where
  "stays c c' \<longleftrightarrow> quiet c c' \<and> c_epoch c' = c_epoch c \<and> c_historyHash c' = c_historyHash c \<and> c_et c' = c_et c"

lemma stays_refl [simp]: "stays c c"
  by (simp add: stays_def)

lemma stays_trans: "stays a b \<Longrightarrow> stays b c \<Longrightarrow> stays a c"
  by (auto simp: stays_def intro: quiet_trans)

lemma stays_emit: "\<forall>m. e \<noteq> OnMessage m \<Longrightarrow> stays c (emit e c)"
  by (cases e) (simp_all add: stays_def quiet_def delivered_emit, simp_all add: emit_def)

lemma stays_field [simp]:
  "stays c (c\<lparr>c_hlc := h\<rparr>)" "stays c (c\<lparr>c_fd := fd\<rparr>)" "stays c (c\<lparr>c_view := av\<rparr>)" "stays c (meter m c)"
  "stays c (c\<lparr>c_pending := p\<rparr>)" "stays c (c\<lparr>c_healing := b\<rparr>)" "stays c (c\<lparr>c_deferredForkEvent := ev\<rparr>)"
  "stays c (c\<lparr>c_calls := n\<rparr>)"
  by (simp_all add: stays_def quiet_def delivered_def meter_def)

lemma stays_db: "db_facts (snd (f (c_db c))) = db_facts (c_db c) \<Longrightarrow> stays c (snd (on_db f c))"
  using quiet_db [of f c] by (simp add: stays_def on_db_def case_prod_beta)

lemma stays_observe: "stays c (observePeerAliveLocked D from c)"
proof -
  have v: "stays c (view_changed ms (c\<lparr>c_view := av\<rparr>))" for ms av
    by (auto simp: view_changed_def intro: stays_trans [OF _ stays_emit] split: option.split)
  then have "stays c (emit (OnPeerObserved p t) (view_changed ms (c\<lparr>c_view := av\<rparr>)))" for ms av p t
    by (rule stays_trans [OF _ stays_emit]) simp
  then show ?thesis using v by (simp add: observePeerAliveLocked_def Let_def case_prod_beta)
qed

lemma stays_send: "stays c (send_history D t p to c)"
proof -
  obtain ts h where "hlc_now c = (ts, c\<lparr>c_hlc := h\<rparr>)" by (simp add: hlc_now_def case_prod_beta)
  then show ?thesis by (auto simp: send_history_def Let_def intro: stays_trans [OF _ stays_emit])
qed

lemma stays_schedule: "stays c (scheduleHeal D ev c)"
proof -
  obtain t n where t: "newTraceID D c = (t, c\<lparr>c_calls := n\<rparr>)"
    by (cases "d_random D (c_calls c)") (simp_all add: newTraceID_def engine_def)
  let ?m = "\<lambda>ev' x. (meter IncrForkHealingsAttempted (c\<lparr>c_calls := n, c_deferredForkEvent := ev', c_healing := x\<rparr>))"
  have a: "stays c (c\<lparr>c_calls := n, c_deferredForkEvent := ev'\<rparr>)" for ev'
    by (rule stays_trans [where b = "c\<lparr>c_calls := n\<rparr>"]) simp_all
  have "stays c (?m ev' x)" for ev' x
    by (rule stays_trans [OF stays_trans [OF a [of ev'] stays_field(6) [of _ x]] stays_field(4)])
  then have "stays c (emit (StartHeal t' e' s') (emit (OnForkHealEvent f) (?m ev' x)))" for t' e' s' f ev' x
    by (intro stays_trans [OF stays_trans [OF _ stays_emit] stays_emit]) simp_all
  then show ?thesis
    using a by (auto simp: scheduleHeal_def t start_heal_def intro: stays_trans [OF _ stays_emit])
qed

lemma stays_control: "stays c (handleControlMessageLocked D from env c)"
proof -
  have p: "stays x (snd (process_remote from env ann x))" for x ann
    by (simp add: process_remote_def case_prod_beta)
  have s: "stays x (scheduleHeal D ev (meter m x))" for x ev m
    by (rule stays_trans [OF stays_field(4) stays_schedule])
  have "stays c (handleAnnounceLocked D from env c)"
    unfolding handleAnnounceLocked_def sendHistoryQuery_def
    using p stays_trans [OF p s] stays_trans [OF stays_send p]
    by (simp add: case_prod_beta split: sum.split option.split)
  moreover have "stays c (handleHistoryReplyLocked D from env c)"
    unfolding handleHistoryReplyLocked_def Let_def using s
    by (auto intro: stays_emit split: sum.split option.split)
  moreover have "stays c (handleHistoryQueryLocked D from env c)"
    by (simp add: handleHistoryQueryLocked_def stays_send Let_def split: sum.split)
  moreover have "stays c (handleDeliveryAckLocked D from env c)"
    by (simp add: handleDeliveryAckLocked_def split: sum.split)
  ultimately show ?thesis
    by (simp add: handleControlMessageLocked_def handleHeartbeatLocked_def stays_observe split: MessageType.split)
qed

lemma AppendEnvelopeWithSource_facts:
  "db_facts (snd (AppendEnvelopeWithSource sha now g t e ts w src db)) = db_facts db"
  unfolding AppendEnvelopeWithSource_def
  by (rule facts_with_io) (simp add: db_facts_def insert_log_def insert_dedup_def Let_def)

lemma append_stored:
  assumes "calm 1 db"
  shows "ghas (db_dedup (snd (AppendEnvelopeWithSource sha now g t e ts w src db))) (g, sha w)"
    and "\<not> ghas (db_dedup db) (g, sha w) \<Longrightarrow>
      \<exists>row \<in> set (db_log (snd (AppendEnvelopeWithSource sha now g t e ts w src db))).
        er_GroupID row = g \<and> er_Envelope row = w \<and> er_ApplyState row = ''pending''"
proof -
  have "calm (Suc 0) db" using assms by simp
  note io = with_io_calm [OF this]
  show "ghas (db_dedup (snd (AppendEnvelopeWithSource sha now g t e ts w src db))) (g, sha w)"
    unfolding AppendEnvelopeWithSource_def io by (simp add: insert_log_def insert_dedup_def Let_def)
  show "\<exists>row \<in> set (db_log (snd (AppendEnvelopeWithSource sha now g t e ts w src db))).
        er_GroupID row = g \<and> er_Envelope row = w \<and> er_ApplyState row = ''pending''"
    if "\<not> ghas (db_dedup db) (g, sha w)"
    unfolding AppendEnvelopeWithSource_def io using that by (simp add: insert_log_def insert_dedup_def Let_def)
qed

lemma isolated_append:
  assumes "c_mode c = ModeCatchingUp \<or> c_mode c = ModeFrozenForApply"
    and "handleRawMessage D k from data c = Some c'"
    and "u_envelope (d_json D) data = Inr env" "isolated (env_Type env)" "env_GroupID env = d_groupID D"
    "validateSenderTimestamp (nowMs c) (WallTimeMs (env_Timestamp env)) = Inr ()" "from \<noteq> d_localID D"
    "OfflineSyncEnabled (d_cfg D)"
  shows "\<exists>src. c_db c' = snd (AppendEnvelopeWithSource (d_sha256 D) (c_now c) (d_groupID D) (env_Type env)
      (env_Epoch env) (env_Timestamp env) data src (c_db c))"
  using assms
  by (intro exI [of _ "if c_mode c = ModeCatchingUp then ''gossip_catchup'' else ''local''"])
    (auto simp: handleRawMessage_def catch_up_append_def frozen_append_def AppendEnvelope_def on_db_def case_prod_beta)

text \<open>
  C11: while a node catches up or heals, no received envelope changes the group: group state, epoch, history
  hash, the buffer of future messages, stored messages and what was handed to the application are as before.
  A commit or an application message of the group is not lost meanwhile: it is in the envelope log, as
  pending if it was not known before.
\<close>

theorem inbox_isolation:
  assumes "c_mode c = ModeCatchingUp \<or> c_mode c = ModeFrozenForApply"
    and "handleRawMessage D k from data c = Some c'"
  shows "(c_groupState c' = c_groupState c \<and> c_epoch c' = c_epoch c \<and> c_historyHash c' = c_historyHash c \<and>
    c_et c' = c_et c \<and> db_groups (c_db c') = db_groups (c_db c) \<and> db_messages (c_db c') = db_messages (c_db c) \<and>
    db_applied (c_db c') = db_applied (c_db c) \<and> delivered c' = delivered c) \<and>
    (\<forall>env. u_envelope (d_json D) data = Inr env \<and> isolated (env_Type env) \<and> env_GroupID env = d_groupID D \<and>
      validateSenderTimestamp (nowMs c) (WallTimeMs (env_Timestamp env)) = Inr () \<and> from \<noteq> d_localID D \<and>
      OfflineSyncEnabled (d_cfg D) \<and> calm 1 (c_db c) \<longrightarrow>
      ghas (db_dedup (c_db c')) (d_groupID D, d_sha256 D data) \<and>
      (ghas (db_dedup (c_db c)) (d_groupID D, d_sha256 D data) \<or>
       (\<exists>row \<in> set (db_log (c_db c')). er_GroupID row = d_groupID D \<and> er_Envelope row = data \<and>
          er_ApplyState row = ''pending'')))"
    (is "?same \<and> ?stored")
proof
  have "stays c (catch_up_append D env data c)" "stays c (frozen_append D env data c)" for env
    by (simp_all add: catch_up_append_def frozen_append_def stays_db AppendEnvelope_def AppendEnvelopeWithSource_facts)
  then have "stays c c'"
    using assms stays_control
    by (auto simp: handleRawMessage_def split: if_splits sum.splits GroupOperationalMode.splits)
  then show ?same by (simp add: stays_def quiet_def db_facts_def)
  show ?stored
  proof (intro allI impI, elim conjE)
    fix env
    assume env: "u_envelope (d_json D) data = Inr env" "isolated (env_Type env)" "env_GroupID env = d_groupID D"
      "validateSenderTimestamp (nowMs c) (WallTimeMs (env_Timestamp env)) = Inr ()" "from \<noteq> d_localID D"
      "OfflineSyncEnabled (d_cfg D)" and io: "calm 1 (c_db c)"
    show "ghas (db_dedup (c_db c')) (d_groupID D, d_sha256 D data) \<and>
      (ghas (db_dedup (c_db c)) (d_groupID D, d_sha256 D data) \<or>
       (\<exists>row \<in> set (db_log (c_db c')). er_GroupID row = d_groupID D \<and> er_Envelope row = data \<and>
          er_ApplyState row = ''pending''))"
      using isolated_append [OF assms env] append_stored [OF io] by metis
  qed
qed

definition sample_envelope :: Envelope where
  "sample_envelope = \<lparr>env_Type = MsgCommit, env_GroupID = ''g'', env_Epoch = 3, env_From = ''B'',
     env_Timestamp = HLCTimestamp 900 0 ''B'', env_Payload = [5]\<rparr>"

definition commit_deps :: Deps where
  "commit_deps = sample_deps\<lparr>d_json := sample_codecs\<lparr>u_envelope := (\<lambda>b. Inr sample_envelope)\<rparr>\<rparr>"

definition caught_up_node :: Coord where
  "caught_up_node = sample_node\<lparr>c_mode := ModeCatchingUp\<rparr>"

theorem inbox_isolation_witness:
  "\<exists>c'. handleRawMessage commit_deps (reenter commit_deps 0) ''B'' [1, 2] caught_up_node = Some c' \<and>
    c_epoch c' = 3 \<and> (\<exists>row \<in> set (db_log (c_db c')). er_Envelope row = [1, 2] \<and> er_ApplyState row = ''pending'')"
proof -
  have ts: "validateSenderTimestamp (nowMs caught_up_node) (WallTimeMs (env_Timestamp sample_envelope)) = Inr ()"
    by (simp add: validateSenderTimestamp_def nowMs_def caught_up_node_def sample_node_def sample_envelope_def
        UnixMilli_def wrap64_def)
  have d: "d_localID commit_deps = ''A''" "d_groupID commit_deps = ''g''" "OfflineSyncEnabled (d_cfg commit_deps)"
    "u_envelope (d_json commit_deps) b = Inr sample_envelope" for b
    by (simp_all add: commit_deps_def sample_deps_def TestConfig_def)
  have n: "c_mode caught_up_node = ModeCatchingUp" "c_epoch caught_up_node = 3" "calm (Suc 0) (c_db caught_up_node)"
    "db_dedup (c_db caught_up_node) = []"
    by (simp_all add: caught_up_node_def sample_node_def empty_db_def calm_def)
  have e: "isolated (env_Type sample_envelope)" "env_GroupID sample_envelope = ''g''"
    by (simp_all add: isolated_def sample_envelope_def)
  obtain c' where c': "handleRawMessage commit_deps (reenter commit_deps 0) ''B'' [1, 2] caught_up_node = Some c'"
    using ts by (simp add: handleRawMessage_def d n e)
  from inbox_isolation [OF disjI1 [OF n(1)] c'] c' ts show ?thesis
    by (auto simp: d n e ghas_def gget_def)
qed

section \<open>What a replay reports\<close>

definition result_ok :: "Deps \<Rightarrow> bytes \<Rightarrow> ReplayEnvelopeResult \<Rightarrow> bool" where
  "result_ok D raw r \<longleftrightarrow> rr_EnvelopeHash r = hashEnvelope D raw \<and>
    (rr_CursorSafe r \<longleftrightarrow> rr_State r \<in> {ReplayStateApplied, ReplayStateDuplicateApplied, ReplayStateStaleEpoch}) \<and>
    (rr_Applied r \<longleftrightarrow> rr_State r = ReplayStateApplied) \<and>
    (rr_AlreadyApplied r \<longleftrightarrow> rr_State r = ReplayStateDuplicateApplied) \<and>
    rr_State r \<in> {ReplayStateApplied, ReplayStateDuplicateApplied, ReplayStateStaleEpoch, ReplayStateFutureEpoch,
      ReplayStateDecryptFailed, ReplayStatePersistFailed, ReplayStateInvalid}"

text \<open>A result that was only initialised becomes a proper one by each way a handler ends.\<close>

definition result_open :: "Deps \<Rightarrow> bytes \<Rightarrow> ReplayEnvelopeResult \<Rightarrow> bool" where
  "result_open D raw r \<longleftrightarrow> rr_EnvelopeHash r = hashEnvelope D raw \<and> \<not> rr_CursorSafe r \<and> \<not> rr_Applied r \<and> \<not> rr_AlreadyApplied r"

lemma result_ok_ends:
  assumes "result_open D raw r"
  shows "result_ok D raw (duplicate_result r)" "result_ok D raw (stale_result r)" "result_ok D raw (applied_result r)"
    "result_ok D raw (r\<lparr>rr_State := ReplayStateFutureEpoch\<rparr>)" "result_ok D raw (invalid_result err r)"
    "st \<in> {ReplayStateDecryptFailed, ReplayStatePersistFailed, ReplayStateInvalid} \<Longrightarrow>
     result_ok D raw (failed_result st err t r)"
  using assms
  by (auto simp: result_open_def result_ok_def duplicate_result_def stale_result_def applied_result_def
      invalid_result_def failed_result_def replay_state_defs)

lemma receive_result:
  assumes "result_open D raw r"
  shows "result_ok D raw (fst (receive_plaintext D from env wire h r ts pt s c))"
  using result_ok_ends [OF assms] unfolding receive_plaintext_def Let_def finish_def
  by (simp split: prod.split sum.split bool.split)

lemma decrypt_result:
  assumes "result_open D raw r"
  shows "result_ok D raw (fst (decrypt_application D from env wire h r c))"
  using result_ok_ends [OF assms] receive_result [OF assms] unfolding decrypt_application_def Let_def finish_def
  by (simp split: prod.split sum.split)

lemma checked_hash:
  "raw \<noteq> [] \<Longrightarrow> isolated (env_Type env) \<Longrightarrow> fst (fst (checkAppliedEnvelopeLocked D env raw c)) = hashEnvelope D raw"
  by (auto simp: checkAppliedEnvelopeLocked_def isolated_def Let_def split: prod.split sum.split)

lemma new_result_open: "result_open D raw ((newReplayResultLocked D env raw c)\<lparr>rr_EnvelopeHash := hashEnvelope D raw\<rparr>)"
  by (simp add: result_open_def newReplayResultLocked_def)

lemma application_result:
  assumes "raw \<noteq> []" "env_Type env = MsgApplication"
  shows "result_ok D raw (fst (handleApplicationDetailedLocked D from env raw c))"
proof -
  have h: "fst (fst (checkAppliedEnvelopeLocked D env raw c)) = hashEnvelope D raw"
    using assms by (intro checked_hash) (simp_all add: isolated_def)
  note o = new_result_open [of D raw env c]
  show ?thesis
    unfolding handleApplicationDetailedLocked_def Let_def finish_def case_prod_beta h
    using result_ok_ends [OF o] decrypt_result [OF o] by (simp split: EpochAction.split)
qed

lemma commit_result:
  assumes "raw \<noteq> []" "env_Type env = MsgCommit" "handleCommitDetailedLocked D k env raw c = Some (r, c')"
  shows "result_ok D raw r"
proof -
  have h: "fst (fst (checkAppliedEnvelopeLocked D env raw c)) = hashEnvelope D raw"
    using assms by (intro checked_hash) (simp_all add: isolated_def)
  note o = new_result_open [of D raw env c]
  show ?thesis
    using assms(3) result_ok_ends [OF o]
    unfolding handleCommitDetailedLocked_def Let_def finish_def case_prod_beta h
    by (auto split: if_splits EpochAction.splits Option.bind_splits sum.splits bool.splits)
qed

lemma blob_result:
  assumes "replay_blob D k raw c = Some (r, c')" "raw \<noteq> []"
  shows "result_ok D raw r"
proof -
  have "result_ok D raw (invalid_result e (newReplayResultLocked D env raw c))"
    "result_ok D raw (invalid_result e (undecoded_result D raw))" for e env
    by (rule result_ok_ends(5), simp add: result_open_def newReplayResultLocked_def undecoded_result_def)+
  then show ?thesis
    using assms commit_result application_result [of raw _ D _ c]
    by (auto simp: replay_blob_def Let_def split: if_splits sum.splits MessageType.splits) (metis fst_conv)
qed

lemma replay_results:
  "replay_blobs D k blobs c = Some (rs, c') \<Longrightarrow> list_all2 (result_ok D) (filter (\<lambda>raw. raw \<noteq> []) blobs) rs"
proof (induction blobs arbitrary: rs c)
  case (Cons raw blobs)
  then show ?case using blob_result by (auto split: if_splits Option.bind_splits)
qed simp

text \<open>
  C34: a replay answers for every non-empty blob, in order, with its hash. The cursor of the stream may pass a
  blob exactly when it was applied, had been applied, or belongs to a past epoch; a blob of a future epoch,
  one that could not be decrypted or stored, and an invalid one hold it. The compatibility wrapper counts
  the applied ones and does the same to the state.
\<close>

theorem replay_reports:
  assumes "ReplayEnvelopesDetailed D k blobs c = Some (Inr rs, c')"
  shows "map rr_EnvelopeHash rs = map (hashEnvelope D) (filter (\<lambda>raw. raw \<noteq> []) blobs) \<and>
    (\<forall>r \<in> set rs.
      (rr_CursorSafe r \<longleftrightarrow> rr_State r \<in> {ReplayStateApplied, ReplayStateDuplicateApplied, ReplayStateStaleEpoch}) \<and>
      (rr_Applied r \<longleftrightarrow> rr_State r = ReplayStateApplied)) \<and>
    ReplayEnvelopes D k blobs c = Some (Inr (length (filter rr_Applied rs)), c')"
proof -
  have "replay_blobs D k blobs c = Some (rs, c')"
    using assms by (auto simp: ReplayEnvelopesDetailed_def split: if_splits)
  then have ok: "list_all2 (result_ok D) (filter (\<lambda>raw. raw \<noteq> []) blobs) rs" by (rule replay_results)
  then have "map rr_EnvelopeHash rs = map (hashEnvelope D) (filter (\<lambda>raw. raw \<noteq> []) blobs)"
    by (induction rule: list_all2_induct) (simp_all add: result_ok_def)
  moreover have r: "(rr_CursorSafe r \<longleftrightarrow> rr_State r \<in> {ReplayStateApplied, ReplayStateDuplicateApplied, ReplayStateStaleEpoch}) \<and>
      (rr_Applied r \<longleftrightarrow> rr_State r = ReplayStateApplied)" if in_rs: "r \<in> set rs" for r
  proof -
    obtain raw where "result_ok D raw r" using ok in_rs by (auto simp: list_all2_conv_all_nth in_set_conv_nth)
    then show ?thesis unfolding result_ok_def by blast
  qed
  moreover have "filter (\<lambda>r. rr_State r = ReplayStateApplied) rs = filter rr_Applied rs"
    using r by (intro filter_cong) simp_all
  ultimately show ?thesis using assms by (simp add: ReplayEnvelopes_def)
qed

theorem replay_reports_witness:
  "\<exists>r c'. ReplayEnvelopesDetailed sample_deps (reenter sample_deps 0) [[], [7]] sample_node = Some (Inr [r], c') \<and>
    \<not> rr_CursorSafe r \<and> ReplayEnvelopes sample_deps (reenter sample_deps 0) [[], [7]] sample_node = Some (Inr 0, c')"
proof -
  have "ReplayEnvelopesDetailed sample_deps (reenter sample_deps 0) [[], [7]] sample_node =
      Some (Inr [invalid_result ''error'' (undecoded_result sample_deps [7])], sample_node)"
    by (simp add: ReplayEnvelopesDetailed_def replay_blob_def sample_deps_def sample_codecs_def sample_node_def)
  from replay_reports [OF this] this show ?thesis
    by (auto simp: invalid_result_def undecoded_result_def replay_state_defs)
qed

section \<open>Replayed and live envelopes\<close>

text \<open>\<open>alike c c'\<close>: the states differ at most in the bookkeeping of the database.\<close>

definition alike :: "Coord \<Rightarrow> Coord \<Rightarrow> bool" where
  "alike c c' \<longleftrightarrow> (\<exists>db. c' = c\<lparr>c_db := db\<rparr> \<and> db_facts db = db_facts (c_db c))"

lemma alike_db: "db_facts (snd (f (c_db c))) = db_facts (c_db c) \<Longrightarrow> alike c (snd (on_db f c))"
  by (auto simp: alike_def on_db_def case_prod_beta)

lemma alike_trans: "alike a b \<Longrightarrow> alike b c \<Longrightarrow> alike a c"
  by (auto simp: alike_def)

lemma alike_mark: "alike c (markReplayResultLocked D r c)"
  by (auto simp: markReplayResultLocked_def alike_db) (auto simp: alike_def intro: exI [of _ "c_db c"])

lemma check_calm:
  assumes "db_faults (c_db c) = []"
  shows "snd (checkAppliedEnvelopeLocked D env wire c) = c"
proof -
  have "snd (HasAppliedEnvelope g h (c_db c)) = c_db c" for g h
    using assms by (cases "c_db c") (simp add: HasAppliedEnvelope_def with_io_def unfaulted_def)
  then have "snd (on_db (HasAppliedEnvelope g h) c) = c" for g h
    by (simp add: on_db_def case_prod_beta)
  then show ?thesis by (simp add: checkAppliedEnvelopeLocked_def case_prod_beta Let_def split: sum.split)
qed

lemma commit_replayed_live:
  assumes io: "db_faults (c_db c) = []" and now: "Validate_et (env_Epoch env) (the (c_et c)) = ActionProcess"
    and live: "handleCommitLocked D k env wire c = Some (b, c1)"
  shows "\<exists>r c2. handleCommitDetailedLocked D k env wire c = Some (r, c2) \<and> alike c1 c2"
proof -
  obtain h dup where ck: "checkAppliedEnvelopeLocked D env wire c = ((h, dup), c)"
    using check_calm [OF io, of D env wire] by (metis prod.exhaust snd_conv)
  show ?thesis
  proof (cases dup)
    case True
    then have "c1 = c" using live now by (auto simp: handleCommitLocked_def ck split: sum.splits)
    then show ?thesis using True alike_mark by (auto simp: handleCommitDetailedLocked_def ck finish_def Let_def)
  next
    case False
    obtain res c3 where c3: "on_db (HasAppliedEnvelope (d_groupID D) h) c1 = (res, c3)" by (metis prod.exhaust)
    have "alike c1 (markReplayResultLocked D r c3)" for r
      using alike_db [of "HasAppliedEnvelope (d_groupID D) h" c1] alike_trans [OF _ alike_mark] by (simp add: c3)
    then show ?thesis using False alike_mark
      by (cases res; cases b) (auto simp: handleCommitDetailedLocked_def ck now live finish_def c3 Let_def split: bool.split)
  qed
qed

text \<open>
  C13: replaying an envelope is as good as receiving it. An application message, or a commit of the current
  epoch, that is fetched from a store and replayed leaves the coordinator in the state in which it would be
  had the envelope arrived from its sender at that moment: all of its memory is equal, and so are the stored
  group, messages and record of applied envelopes.
\<close>

theorem replay_equals_live:
  assumes "c_started c" "c_mode c = ModeLive" "db_faults (c_db c) = []"
    and "u_envelope (d_json D) data = Inr env" "env_GroupID env = d_groupID D" "data \<noteq> []"
    and "validateSenderTimestamp (nowMs c) (WallTimeMs (env_Timestamp env)) = Inr ()"
    and "decodeEnvelopePeerID D (env_From env) '''' \<noteq> d_localID D"
    and "env_Type env = MsgApplication \<or>
      env_Type env = MsgCommit \<and> Validate_et (env_Epoch env) (the (c_et c)) = ActionProcess"
    and "handleRawMessage D k (decodeEnvelopePeerID D (env_From env) '''') data c = Some c1"
  shows "\<exists>r db. ReplayEnvelopesDetailed D k [data] c = Some (Inr [r], c1\<lparr>c_db := db\<rparr>) \<and>
    db_groups db = db_groups (c_db c1) \<and> db_messages db = db_messages (c_db c1) \<and>
    db_applied db = db_applied (c_db c1)"
proof -
  let ?p = "decodeEnvelopePeerID D (env_From env) ''''"
  have live: "handle_live D k ?p env data c = Some c1"
    using assms by (auto simp: handleRawMessage_def isolated_def)
  have "\<exists>r c2. replay_blob D k data c = Some (r, c2) \<and> alike c1 c2"
  proof (cases "env_Type env = MsgApplication")
    case True
    then show ?thesis
      using assms live by (cases "handleApplicationDetailedLocked D ?p env data c")
        (auto simp: handle_live_def handleApplicationLocked_def replay_blob_def alike_def intro: exI [of _ "c_db c1"])
  next
    case False
    then obtain b where "handleCommitLocked D k env data c = Some (b, c1)"
      using assms(9) live by (auto simp: handle_live_def)
    then show ?thesis
      using commit_replayed_live [of c env D k data b c1] assms False by (auto simp: replay_blob_def)
  qed
  then show ?thesis using assms(1,6) by (auto simp: ReplayEnvelopesDetailed_def alike_def db_facts_def)
qed

definition message_deps :: Deps where
  "message_deps = sample_deps\<lparr>d_json := sample_codecs\<lparr>u_envelope := (\<lambda>b. Inr (sample_envelope\<lparr>env_Type := MsgApplication\<rparr>))\<rparr>\<rparr>"

theorem replay_equals_live_witness:
  "\<exists>r c1 db. handleRawMessage message_deps (reenter message_deps 0) ''B'' [1, 2] sample_node = Some c1 \<and>
    ReplayEnvelopesDetailed message_deps (reenter message_deps 0) [[1, 2]] sample_node = Some (Inr [r], c1\<lparr>c_db := db\<rparr>) \<and>
    db_messages db = db_messages (c_db c1)"
proof -
  let ?env = "sample_envelope\<lparr>env_Type := MsgApplication\<rparr>"
  have p: "decodeEnvelopePeerID message_deps (env_From ?env) '''' = ''B''"
    by (simp add: decodeEnvelopePeerID_def sample_envelope_def message_deps_def sample_deps_def)
  have d: "u_envelope (d_json message_deps) [1, 2] = Inr ?env" "env_GroupID ?env = d_groupID message_deps"
    "validateSenderTimestamp (nowMs sample_node) (WallTimeMs (env_Timestamp ?env)) = Inr ()"
    "d_localID message_deps = ''A''"
    by (simp_all add: message_deps_def sample_deps_def sample_envelope_def validateSenderTimestamp_def nowMs_def
        sample_node_def UnixMilli_def wrap64_def)
  have n: "c_started sample_node" "c_mode sample_node = ModeLive" "db_faults (c_db sample_node) = []"
    by (simp_all add: sample_node_def empty_db_def)
  obtain c1 where c1: "handleRawMessage message_deps (reenter message_deps 0) ''B'' [1, 2] sample_node = Some c1"
    using d n by (simp add: handleRawMessage_def handle_live_def isolated_def)
  have "handleRawMessage message_deps (reenter message_deps 0) (decodeEnvelopePeerID message_deps (env_From ?env) '''') [1, 2]
      sample_node = Some c1" using c1 by (simp only: p)
  moreover have "decodeEnvelopePeerID message_deps (env_From ?env) '''' \<noteq> d_localID message_deps"
    unfolding p d(4) by simp
  ultimately show ?thesis using replay_equals_live [OF n d(1,2) _ d(3), of "reenter message_deps 0" c1] c1 by auto
qed

section \<open>Which commits are applied\<close>

lemma alike_check: "alike c (snd (checkAppliedEnvelopeLocked D env wire c))"
proof -
  have "alike c c" by (auto simp: alike_def intro: exI [of _ "c_db c"])
  moreover have "alike c (snd (on_db (HasAppliedEnvelope g h) c))" for g h by (rule alike_db) simp
  ultimately show ?thesis
    unfolding checkAppliedEnvelopeLocked_def Let_def by (simp add: case_prod_beta split: sum.split)
qed

lemma apply_commit_cases:
  assumes "apply_commit D s th mt wire ts e c = (res, c')"
  shows "(\<exists>seq. res = Inr (True, seq)) \<and> \<not> ghas (db_applied (c_db c)) (d_groupID D, d_sha256 D wire) \<or>
    (\<forall>seq. res \<noteq> Inr (True, seq)) \<and> quiet c c'"
proof -
  let ?rec = "state_record D s (c_epoch c + 1) th (c_now c)"
  have g: "gr_GroupID ?rec = d_groupID D" by (simp add: state_record_def)
  have call: "ApplyCommit (d_sha256 D) (c_now c) ?rec mt wire ts e (c_db c) = (res, c_db c')" and c': "c' = c\<lparr>c_db := c_db c'\<rparr>"
    using assms by (auto simp: apply_commit_def on_db_def split: prod.splits)
  have q: "quiet c c'" if "db_facts (c_db c') = db_facts (c_db c)"
    by (subst c') (use that in \<open>simp add: quiet_def delivered_def\<close>)
  show ?thesis
  proof (cases "d_groupID D = '''' \<or> wire = []")
    case True
    then show ?thesis using call g q by (auto simp: ApplyCommit_def)
  next
    case False
    then have tx: "apply_tx (d_sha256 D) (c_now c) ?rec (\<lambda>d. d) mt wire ts e (c_db c) = (res, c_db c')"
      using call g by (simp add: ApplyCommit_apply_tx)
    show ?thesis
      by (cases rule: apply_tx_cases [of "d_sha256 D" "c_now c" ?rec "\<lambda>d. d" mt wire ts e "c_db c"])
        (use tx g q in auto)
  qed
qed

lemma keeps_advances: "keeps c c' \<Longrightarrow> advances D [] c c'"
  by (simp add: keeps_def advances_def)

lemma quiet_markInvalid: "quiet c (markInvalidCommitLocked h c)"
  by (simp add: markInvalidCommitLocked_def quiet_def delivered_def)

text \<open>For the relation of evolving states more can be said of a single commit.\<close>

locale evolving = reentrant D "evolves D" k for D k

interpretation er: evolving D "reenter D n" for D n
  by unfold_locales (rule ev.reenter_rel)

context evolving
begin

lemma advanceEpoch_advances:
  assumes "advanceEpochLocked D k s (c_epoch c + 1) th cd c = Some c'" "hash_ok D" "coord_ok D c"
  shows "coord_ok D c' \<and> (\<exists>hs. advances D (hashCommitData D cd # hs) c c')"
proof -
  let ?e = "entered D s (c_epoch c + 1) th cd c"
  have e: "coord_ok D ?e" "advances D [hashCommitData D cd] c ?e" using entered_ok [OF assms(2,3) refl] by auto
  have "evolves D ?e c'" using assms(1) buffered_rel unfolding advanceEpoch_entered by blast
  then show ?thesis using e assms(2) advances_trans [OF e(2)] by (auto simp: evolves_def)
qed

lemma process_commit_spec:
  assumes run: "process_commit D k env wire commit c = Some (b, c')" and ok: "hash_ok D" "coord_ok D c"
  shows "if b
    then \<not> ghas (db_applied (c_db c)) (d_groupID D, d_sha256 D wire) \<and>
      (\<exists>hs. advances D (hashCommitData D (cm_CommitData commit) # hs) c c')
    else quiet c c' \<and> keeps c c'"
proof -
  let ?g = "\<lambda>n. mls_ProcessCommit (d_mls D) n (c_groupState c) (cm_CommitData commit)
      (proposalBytesFromMsgs (cm_IncludedProposals commit))"
  obtain res c1 where g: "engine ?g c = (res, c1)" by (metis prod.exhaust)
  have c1: "keeps c c1" "quiet c c1" using keeps_bind(2) [OF g keeps_refl] quiet_prims(1) [of c ?g] by (simp_all add: g)
  show ?thesis
  proof (cases res)
    case (Inl err)
    then have "\<not> b" "c' = markInvalidCommitLocked (hashCommitData D (cm_CommitData commit)) c1"
      using run g by (auto simp: process_commit_def)
    then show ?thesis using c1 keeps_helpers(1) quiet_trans [OF _ quiet_markInvalid] by auto
  next
    case (Inr st)
    obtain s th where st: "st = (s, th)" by (cases st)
    obtain ap c2 where a: "apply_commit D s th (env_Type env) wire (env_Timestamp env) (env_Epoch env) c1 = (ap, c2)"
      by (metis prod.exhaust)
    have k2: "keeps c c2" using keeps_commit_helpers(7) [OF c1(1)] a by (metis snd_conv)
    then have ep: "c_epoch c2 = c_epoch c1" using c1 by (simp add: keeps_def)
    show ?thesis
    proof (cases "\<exists>seq. ap = Inr (True, seq)")
      case False
      then have "c' = c2" "\<not> b" using run g Inr st a
        by (auto simp: process_commit_def Let_def split: sum.splits prod.splits bool.splits)
      then show ?thesis using k2 False apply_commit_cases [OF a] c1(2) by (auto intro: quiet_trans)
    next
      case True
      then obtain c3 c4 where b: "b"
        and c3: "advanceEpochLocked D k s (c_epoch c2 + 1) th (cm_CommitData commit) c2 = Some c3"
        and c4: "after_commit D k commit True s (c_epoch c2 + 1) (drain_committed commit c3) = Some c4"
        and c': "c' = observe_additions (cm_AddDeliveries commit) (c_epoch c2 + 1) []
            (meter (RecordEpochFinalization (c_now c4 - c_now c)) c4)"
        using run g Inr st a ep by (auto simp: process_commit_def Let_def split: Option.bind_splits)
      have "evolves D c3 (drain_committed commit c3)" "evolves D c4 c'"
        unfolding c' by (intro keeps_evolves keeps_intros)+
      then have "evolves D c3 c'" using after_commit_rel [OF c4] by (blast intro: evolves_trans)
      moreover obtain hs where hs: "coord_ok D c3" "advances D (hashCommitData D (cm_CommitData commit) # hs) c2 c3"
        using advanceEpoch_advances [OF c3 ok(1) keeps_coord_ok [OF k2 ok(2)]] by blast
      ultimately obtain hs' where "advances D hs' c3 c'" using ok(1) by (auto simp: evolves_def)
      from advances_trans [OF advances_trans [OF keeps_advances [OF k2] hs(2)] this]
      have "\<exists>hs. advances D (hashCommitData D (cm_CommitData commit) # hs) c c'" by auto
      moreover have "\<not> ghas (db_applied (c_db c)) (d_groupID D, d_sha256 D wire)"
        using True apply_commit_cases [OF a] c1(2) by (auto simp: quiet_def db_facts_def)
      ultimately show ?thesis using b by simp
    qed
  qed
qed

end

lemma handleCommit_cases:
  assumes run: "handleCommitLocked D k env wire c = Some (b, c')"
    and now: "Validate_et (env_Epoch env) (the (c_et c)) = ActionProcess"
    and cm: "u_commit (d_json D) (env_Payload env) = Inr commit"
  obtains (refused) "\<not> b" "quiet c c'" "keeps c c'"
  | (checked) db staged where "db_facts db = db_facts (c_db c)"
      "\<not> commit_rejected D env commit staged (c\<lparr>c_db := db, c_calls := c_calls c + 1\<rparr>)"
      "process_commit D k env wire commit (c\<lparr>c_db := db, c_calls := c_calls c + 1\<rparr>) = Some (b, c')"
proof -
  obtain h dup c1 where ck: "checkAppliedEnvelopeLocked D env wire c = ((h, dup), c1)" by (metis prod.exhaust)
  obtain db where c1: "c1 = c\<lparr>c_db := db\<rparr>" "db_facts db = db_facts (c_db c)"
    using alike_check [of c D env wire] by (auto simp: ck alike_def)
  let ?g = "\<lambda>m. mls_StageCommit (d_mls D) m (c_groupState c1) (cm_CommitData commit)
      (proposalBytesFromMsgs (cm_IncludedProposals commit))"
  let ?c2 = "c\<lparr>c_db := db, c_calls := c_calls c + 1\<rparr>"
  have g: "engine ?g c1 = (?g (c_calls c), ?c2)" by (simp add: engine_def c1)
  have q: "quiet c c1" "quiet c ?c2" "keeps c c1" "keeps c ?c2"
    using c1 by (auto simp: quiet_def delivered_def intro: keeps_intros)
  show thesis
  proof (cases "dup \<or> (\<forall>staged. ?g (c_calls c) = Inr staged \<longrightarrow> commit_rejected D env commit staged ?c2)")
    case True
    then have "\<not> b" "c' = c1 \<or> (\<exists>x. c' = markInvalidCommitLocked x ?c2)"
      using run cm now by (auto simp: handleCommitLocked_def ck g Let_def split: sum.splits if_splits)
    then show thesis using q quiet_trans [OF q(2) quiet_markInvalid] keeps_helpers(1) [OF q(4)] by (auto intro: refused)
  next
    case False
    then show thesis using run cm now c1(2)
      by (auto simp: handleCommitLocked_def ck g Let_def intro: checked)
  qed
qed

text \<open>
  C3: which commits are applied. A commit that is applied is of the current epoch and in an envelope never
  applied before; if it carries proposals and names its sender, the sender is the node that the election
  chooses for exactly these proposals among the live, authorized members that they do not remove. It moves
  the epoch and extends the history by its own hash first; only buffered commits of the following epochs
  come behind it. A commit that is not applied, for whatever reason, leaves epoch, history, group state,
  stored group and messages, and the record of applied envelopes alone.
\<close>

theorem commit_admission:
  assumes "hash_ok D" and "coord_ok D c"
    and "handleCommitLocked D (reenter D n) env wire c = Some (applied, c')"
  shows "if applied
    then env_Epoch env = c_epoch c \<and> \<not> ghas (db_applied (c_db c)) (d_groupID D, d_sha256 D wire) \<and>
      (\<exists>commit hs. u_commit (d_json D) (env_Payload env) = Inr commit \<and>
        c_epoch c' = c_epoch c + 1 + of_nat (length hs) \<and>
        c_historyHash c' = foldl (computeHistoryHash D)
          (computeHistoryHash D (c_historyHash c) (hashCommitData D (cm_CommitData commit))) hs \<and>
        (let batch = bufferedBatchFromProposalMsgs (cm_IncludedProposals commit);
             sender = decodeEnvelopePeerID D (env_From env) ''''
         in batch = [] \<or> sender = '''' \<or>
            HolderForBatch (d_sha256 D) (d_pidString D) (c_view c) batch (the (c_sw c)) = Inr sender \<and>
            \<not> removesPeer (d_pidString D) batch sender))
    else c_epoch c' = c_epoch c \<and> c_historyHash c' = c_historyHash c \<and> c_groupState c' = c_groupState c \<and>
      db_groups (c_db c') = db_groups (c_db c) \<and> db_messages (c_db c') = db_messages (c_db c) \<and>
      db_applied (c_db c') = db_applied (c_db c)"
proof (cases "Validate_et (env_Epoch env) (the (c_et c)) = ActionProcess \<and>
    (\<exists>commit. u_commit (d_json D) (env_Payload env) = Inr commit)")
  case False
  then show ?thesis using assms(3)
    by (auto simp: handleCommitLocked_def meter_def on_tracker_def split: EpochAction.splits sum.splits)
next
  case True
  then obtain commit where cm: "u_commit (d_json D) (env_Payload env) = Inr commit"
    and now: "Validate_et (env_Epoch env) (the (c_et c)) = ActionProcess" by blast
  have ep: "env_Epoch env = c_epoch c"
    using now assms(2) by (auto simp: Validate_et_def ValidateEpoch_def coord_ok_def split: if_splits)
  from assms(3) now cm show ?thesis
  proof (cases rule: handleCommit_cases)
    case refused
    then show ?thesis by (simp add: quiet_def keeps_def db_facts_def)
  next
    case (checked db staged)
    let ?c2 = "c\<lparr>c_db := db, c_calls := c_calls c + 1\<rparr>"
    have "keeps c ?c2" by (intro keeps_intros)
    note spec = er.process_commit_spec [OF checked(3) assms(1) keeps_coord_ok [OF this assms(2)]]
    show ?thesis
    proof (cases applied)
      case True
      then obtain hs where "advances D (hashCommitData D (cm_CommitData commit) # hs) ?c2 c'" using spec by auto
      then have "c_epoch c' = c_epoch c + 1 + of_nat (length hs) \<and>
        c_historyHash c' = foldl (computeHistoryHash D)
          (computeHistoryHash D (c_historyHash c) (hashCommitData D (cm_CommitData commit))) hs"
        by (simp add: advances_def)
      then show ?thesis using True spec checked(1,2) cm ep
        by (auto simp: commit_rejected_def db_facts_def Let_def split: if_splits sum.splits)
    next
      case False
      then show ?thesis using spec checked(1) by (simp add: quiet_def keeps_def db_facts_def)
    qed
  qed
qed

end
