(* ===== verification/Progress.thy ===== *)
theory Progress
  imports MessageLoop
begin

text \<open>
  The calls of a coordinator return. The methods on commits call each other in a circle, through the
  messages that were buffered for an epoch the node has just entered; the model ties it with fuel. Here
  the buffer of the epoch tracker is shown to hold only messages of the epoch they are filed under, every
  nested call to have taken a message out of it, and hence fuel of the size of the buffer to be enough
  when commits are paced, that is, when the batching delay is positive.
\<close>

section \<open>What the buffer holds\<close>

text \<open>Documented behaviour of \<^verbatim>\<open>encoding/json\<close>: no document is empty, and a number survives the round trip.\<close>

definition codec_ok :: "Deps \<Rightarrow> bool" where
  "codec_ok D \<longleftrightarrow> (\<forall>env. u_envelope (d_json D) [] \<noteq> Inr env) \<and>
    (\<forall>env env' raw. j_envelope (d_json D) env = Some raw \<and> u_envelope (d_json D) raw = Inr env' \<longrightarrow>
       env_Epoch env' = env_Epoch env)"

definition coherent :: "Deps \<Rightarrow> EpochTracker \<Rightarrow> bool" where
  "coherent D et \<longleftrightarrow> (\<forall>e raw env. raw \<in> set (buffered_at (et_futureBuffer et) e) \<longrightarrow>
     u_envelope (d_json D) raw = Inr env \<longrightarrow> env_Epoch env = e)"

definition served :: "Deps \<Rightarrow> Coord \<Rightarrow> bool" where
  "served D c \<longleftrightarrow> (\<exists>et. c_et c = Some et \<and> et_epoch et = c_epoch c \<and> tracker_ok et \<and> coherent D et)"

lemma keeps_served: "keeps c c' \<Longrightarrow> served D c \<Longrightarrow> served D c'"
  by (simp add: keeps_def served_def)

lemma served_frame [simp]: "served D (c\<lparr>c_view := av\<rparr>) = served D c" "served D (c\<lparr>c_fd := fd\<rparr>) = served D c"
  by (simp_all add: served_def)

lemma served_buffer:
  assumes "served D c" "\<And>env. u_envelope (d_json D) raw = Inr env \<Longrightarrow> env_Epoch env = e"
  shows "served D (on_tracker (BufferFuture e raw) c)"
  using assms by (auto simp: served_def on_tracker_def coherent_def tracker_ok_Buffer)

lemma entered_tracker:
  "c_et c = Some et \<Longrightarrow> c_et (entered D s e th cd c) = Some (snd (Advance e th et))"
  "c_epoch (entered D s e th cd c) = e"
  "fst (enter_epoch D s e th c) = fst (Advance e th (the (c_et c)))"
  by (auto simp: entered_def settle_epoch_simps extend_history_simps enter_epoch_def on_writer_def Let_def case_prod_beta
      split: sum.split)

lemma served_entered: "served D c \<Longrightarrow> served D (entered D s e th cd c)"
  by (auto simp: served_def entered_tracker tracker_ok_Advance coherent_def)

interpretation sv: contract D "\<lambda>c c'. codec_ok D \<longrightarrow> served D c \<longrightarrow> served D c'" for D
proof
  show "codec_ok D \<longrightarrow> served D c \<longrightarrow> served D (on_tracker (BufferFuture (env_Epoch env)
      (case j_envelope (d_json D) env of None \<Rightarrow> [] | Some raw \<Rightarrow> raw)) c)" for c env
    by (auto simp: codec_ok_def intro!: served_buffer split: option.splits)
  show "codec_ok D \<longrightarrow> served D c \<longrightarrow> served D c'" if "c_et c = None" for c c' using that by (simp add: served_def)
qed (auto intro: keeps_served served_entered served_buffer)

section \<open>Paced commits\<close>

definition paced :: "Deps \<Rightarrow> bool" where
  "paced D \<longleftrightarrow> 0 < BatchingDelay (d_cfg D)"

lemma schedule_paced:
  "paced D \<Longrightarrow> keeps a c \<Longrightarrow> \<exists>c'. scheduleBatchCommitLocked D k c = Some c' \<and> keeps a c'"
  by (auto simp: scheduleBatchCommitLocked_def paced_def Let_def case_prod_beta intro: keeps_intros)

lemma announce_paced:
  assumes "paced D" "keeps a c"
  shows "\<exists>c'. announce_proposal D k msg b c = Some c' \<and> keeps a c'"
proof -
  let ?c1 = "on_writer (BufferProposal b) (broadcastLocked D MsgProposal (ProposalPayload msg) c)"
  have "keeps a ?c1" using assms(2) by (intro keeps_intros)
  then show ?thesis using schedule_paced [OF assms(1), of a ?c1 k]
    by (auto simp: announce_proposal_def Let_def intro: keeps_intros)
qed

lemma repropose_paced:
  assumes "paced D" "keeps a c"
  shows "\<exists>c'. repropose D k e op c = Some c' \<and> keeps a c'"
proof (cases "proposal_of_op op")
  case None
  then show ?thesis using assms by (simp add: repropose_def)
next
  case (Some pm)
  obtain pType meta where pm: "pm = (pType, meta)" by (cases pm)
  obtain res c1 where cr: "createAndStoreLocalProposalLocked D pType (po_SemanticPayload op) meta c = (res, c1)"
    by (metis prod.exhaust)
  have k1: "keeps a c1" using keeps_create [OF assms(2)] cr by (metis snd_conv)
  show ?thesis
  proof (cases res)
    case (Inl err)
    then show ?thesis using k1 by (auto simp: repropose_def Some pm cr intro!: keeps_op_saves)
  next
    case (Inr mb)
    obtain msg b where mb: "mb = (msg, b)" by (cases mb)
    obtain c2 where "announce_proposal D k msg b c1 = Some c2" "keeps a c2"
      using announce_paced [OF assms(1) k1] by blast
    then show ?thesis by (auto simp: repropose_def Some pm cr Inr mb intro: keeps_after_reproposal)
  qed
qed

lemma rebase_op_paced:
  assumes "paced D" "keeps a c"
  shows "\<exists>c'. rebase_op D k op c = Some c' \<and> keeps a c'"
proof -
  obtain b c1 where s: "removal_satisfied D op c = (b, c1)" by (metis prod.exhaust)
  have k1: "keeps a c1" using keeps_satisfied [OF assms(2)] s by (metis snd_conv)
  show ?thesis using k1 assms(2) repropose_paced [OF assms(1) k1]
    by (auto simp: rebase_op_def s Let_def split: option.split intro: keeps_op_saves)
qed

lemma rebase_ops_paced:
  "paced D \<Longrightarrow> keeps a c \<Longrightarrow> \<exists>c'. rebase_ops D k ops c = Some c' \<and> keeps a c'"
proof (induction ops arbitrary: c)
  case (Cons op ops)
  obtain c1 where "rebase_op D k op c = Some c1" "keeps a c1" using rebase_op_paced [OF Cons.prems] by blast
  then show ?case using Cons.IH [OF Cons.prems(1)] by simp
qed simp

lemma handle_join_paced:
  assumes "paced D"
  shows "\<exists>c'. handle_join D k env proposal c = Some c' \<and> keeps c c'"
proof (cases "env_Epoch env + ucast (GetMaxPastEpochs (d_cfg D)) < c_epoch c \<or> c_groupState c = []")
  case True
  then show ?thesis unfolding handle_join_def by auto
next
  case False
  define target where "target = (if pm_TargetIdentity proposal = [] then string_bytes (pm_TargetPeerID proposal)
      else pm_TargetIdentity proposal)"
  obtain member c1 where m: "engine (\<lambda>n. mls_HasMember (d_mls D) n (c_groupState c) target) c = (member, c1)"
    by (metis prod.exhaust)
  define c2 where "c2 = (if member = Inr True
      then buffer_created ProposalRemove target (empty_proposal\<lparr>bp_TargetPeerID := pm_TargetPeerID proposal\<rparr>) D c1
      else c1)"
  have k2: "keeps c c2" unfolding c2_def using keeps_bind(2) [OF m keeps_refl] by (auto intro: keeps_commit_helpers)
  define c3 where "c3 = buffer_created ProposalAdd (pm_Data proposal)
      (empty_proposal\<lparr>bp_OperationID := pm_OperationID proposal, bp_TargetPeerID := pm_TargetPeerID proposal,
         bp_RequestID := pm_RequestID proposal, bp_GroupType := pm_GroupType proposal,
         bp_CategoryID := pm_CategoryID proposal, bp_KeyPackageHash := pm_KeyPackageHash proposal\<rparr>) D c2"
  have k3: "keeps c c3" unfolding c3_def using k2 by (rule keeps_commit_helpers)
  have "handle_join D k env proposal c = (if c_groupState c3 = [] then Some c3
      else if IsTokenHolder_c D c3 then scheduleBatchCommitLocked D k c3
      else Some (scheduleFailoverTimerLocked D c3))"
    using False unfolding handle_join_def Let_def target_def [symmetric] m prod.case c2_def [symmetric] c3_def [symmetric]
    by simp
  then show ?thesis using k3 schedule_paced [OF assms k3, of k] keeps_timers(3) [OF k3] by auto
qed

lemma after_commit_paced:
  assumes "paced D" "keeps a c"
  shows "\<exists>c'. after_commit D k commit rp s e c = Some c' \<and> keeps a c'"
proof -
  let ?c1 = "reconcileOperationsAfterCommitLocked D commit c"
  let ?c2 = "if rp then triggerBatchReplayAsync (d_groupID D) ?c1 else ?c1"
  have k2: "keeps a ?c2" using assms(2) by (auto intro: keeps_intros)
  obtain res c3 where l: "on_db (ListPendingOperations (d_groupID D)) ?c2 = (res, c3)" by (metis prod.exhaust)
  have k3: "keeps a c3" using keeps_bind(1) [OF l k2] .
  have "\<exists>c4. reconcileAndRebaseOperationsLocked D k ?c2 = Some c4 \<and> keeps a c4"
  proof (cases res)
    case (Inr ops)
    obtain c4 where "rebase_ops D k ops c3 = Some c4" "keeps a c4" using rebase_ops_paced [OF assms(1) k3] by blast
    then show ?thesis using schedule_paced [OF assms(1), of a c4 k]
      by (auto simp: reconcileAndRebaseOperationsLocked_def l Inr)
  qed (use k3 in \<open>simp add: reconcileAndRebaseOperationsLocked_def l\<close>)
  then show ?thesis by (auto simp: after_commit_def Let_def intro: keeps_intros)
qed

section \<open>Nested calls empty the buffer\<close>

definition c_buf :: "Coord \<Rightarrow> nat" where
  "c_buf c = FutureBufferSize (the (c_et c))"

text \<open>
  \<open>climbs d c c'\<close>: the epoch did not fall, the buffer did not grow, and their sum rose by at most \<open>d\<close>: each
  message taken out of the buffer moves the epoch at most once.
\<close>

definition climbs :: "nat \<Rightarrow> Coord \<Rightarrow> Coord \<Rightarrow> bool" where
  "climbs d c c' \<longleftrightarrow> unat (c_epoch c) \<le> unat (c_epoch c') \<and> c_buf c' \<le> c_buf c \<and>
    unat (c_epoch c') + c_buf c' \<le> unat (c_epoch c) + c_buf c + d"

lemma climbs_refl [simp]: "climbs d c c"
  by (simp add: climbs_def)

lemma climbs_trans: "climbs d a b \<Longrightarrow> climbs d' b c \<Longrightarrow> climbs (d + d') a c"
  by (simp add: climbs_def)

lemma keeps_buf: "keeps c c' \<Longrightarrow> c_buf c' = c_buf c"
  by (simp add: keeps_def c_buf_def)

lemma climbs_kept: "climbs d a b \<Longrightarrow> keeps b c \<Longrightarrow> climbs d a c" "keeps a b \<Longrightarrow> climbs d b c \<Longrightarrow> climbs d a c"
  by (auto simp: climbs_def keeps_buf keeps_epoch)

definition room :: "nat \<Rightarrow> Coord \<Rightarrow> bool" where
  "room d c \<longleftrightarrow> unat (c_epoch c) + c_buf c + d < 2 ^ 64"

definition past_raw :: "Deps \<Rightarrow> u64 \<Rightarrow> bytes \<Rightarrow> bool" where
  "past_raw D e raw \<longleftrightarrow> (\<forall>env. u_envelope (d_json D) raw = Inr env \<longrightarrow> env_Epoch env \<le> e)"

text \<open>The contract of the re-entrant call: it answers as long as fewer than \<open>N\<close> messages are buffered.\<close>

locale answering =
  fixes D :: Deps and N :: nat and k :: reentry
  assumes answers: "paced D \<Longrightarrow> served D c \<Longrightarrow> c_buf c < N \<Longrightarrow> room 1 c \<Longrightarrow> past_raw D (c_epoch c) raw \<Longrightarrow>
      \<exists>c'. k (CallBuffered raw) c = Some c' \<and> served D c' \<and> climbs 1 c c'"
begin

lemma run_buffered_answers:
  assumes "served D c" "raws \<noteq> [] \<Longrightarrow> c_buf c < N" "room (length raws) c" "\<forall>raw \<in> set raws. past_raw D (c_epoch c) raw"
    and pace: "paced D"
  shows "\<exists>c'. run_buffered k raws c = Some c' \<and> served D c' \<and> climbs (length raws) c c'"
  using assms(1-4)
proof (induction raws arbitrary: c)
  case (Cons raw raws)
  have "room 1 c" using Cons.prems(3) by (simp add: room_def)
  then obtain c1 where c1: "k (CallBuffered raw) c = Some c1" "served D c1" "climbs 1 c c1"
    using answers [OF pace, of c raw] Cons.prems by auto
  have e: "c_epoch c \<le> c_epoch c1" using c1(3) by (simp add: climbs_def word_le_nat_alt)
  have "\<exists>c'. run_buffered k raws c1 = Some c' \<and> served D c' \<and> climbs (length raws) c1 c'"
  proof (rule Cons.IH [OF c1(2)])
    show "c_buf c1 < N" using Cons.prems(2) c1(3) by (simp add: climbs_def)
    show "room (length raws) c1" using Cons.prems(3) c1(3) by (simp add: room_def climbs_def)
    show "\<forall>raw \<in> set raws. past_raw D (c_epoch c1) raw"
      using Cons.prems(4) e by (auto simp: past_raw_def intro: order_trans)
  qed
  then show ?case using c1 climbs_trans [of 1 c c1 "length raws"] by auto
qed simp

lemma advance_answers:
  assumes "served D c" "c_buf c \<le> N" "room 1 c" and pace: "paced D"
  shows "\<exists>c'. advanceEpochLocked D k s (c_epoch c + 1) th cd c = Some c' \<and> served D c' \<and> climbs 1 c c'"
proof -
  obtain et where et: "c_et c = Some et" "et_epoch et = c_epoch c" "tracker_ok et" "coherent D et"
    using assms(1) by (auto simp: served_def)
  let ?e = "c_epoch c + 1" and ?c1 = "entered D s (c_epoch c + 1) th cd c"
  let ?raws = "buffered_at (et_futureBuffer et) ?e"
  have up: "unat ?e = unat (c_epoch c) + 1"
    using assms(3) by (simp add: room_def unat_word_ariths)
  have size: "length ?raws + c_buf ?c1 \<le> c_buf c"
    using FutureBufferSize_Advance [OF et(3), of ?e th] by (simp add: c_buf_def entered_tracker(1) [OF et(1)] et(1))
  have "\<exists>c'. run_buffered k ?raws ?c1 = Some c' \<and> served D c' \<and> climbs (length ?raws) ?c1 c'"
  proof (rule run_buffered_answers [OF served_entered [OF assms(1)]])
    show "c_buf ?c1 < N" if "?raws \<noteq> []" using size assms(2) that by (cases ?raws) auto
    show "room (length ?raws) ?c1" using assms(3) size by (simp add: room_def entered_tracker(2) up)
    show "\<forall>raw \<in> set ?raws. past_raw D (c_epoch ?c1) raw"
      using et(4) by (auto simp: coherent_def past_raw_def entered_tracker(2))
    show "paced D" by (rule pace)
  qed
  moreover have "climbs 1 c c'" if "climbs (length ?raws) ?c1 c'" for c'
    using that size by (simp add: climbs_def entered_tracker(2) up)
  ultimately show ?thesis by (auto simp: advanceEpoch_entered entered_tracker(3) et(1))
qed

definition ready :: "Coord \<Rightarrow> bool" where
  "ready c \<longleftrightarrow> paced D \<and> served D c \<and> c_buf c \<le> N \<and> room 1 c"

lemma keeps_ready: "keeps c c' \<Longrightarrow> ready c \<Longrightarrow> ready c'"
  by (auto simp: ready_def room_def keeps_buf keeps_epoch intro: keeps_served)

lemma process_commit_answers:
  assumes "ready c"
  shows "\<exists>b c'. process_commit D k env wire commit c = Some (b, c') \<and> served D c' \<and> climbs 1 c c'"
proof -
  let ?g = "\<lambda>n. mls_ProcessCommit (d_mls D) n (c_groupState c) (cm_CommitData commit)
      (proposalBytesFromMsgs (cm_IncludedProposals commit))"
  obtain res c1 where g: "engine ?g c = (res, c1)" by (metis prod.exhaust)
  have k1: "keeps c c1" using keeps_bind(2) [OF g keeps_refl] .
  have stay: "served D c' \<and> climbs 1 c c'" if "keeps c c'" for c'
    using that assms climbs_kept(1) [OF climbs_refl that] by (auto simp: ready_def intro: keeps_served)
  show ?thesis
  proof (cases res)
    case (Inl err)
    then show ?thesis using g stay [OF keeps_helpers(1) [OF k1]] by (auto simp: process_commit_def)
  next
    case (Inr st)
    obtain s th where st: "st = (s, th)" by (cases st)
    obtain ap c2 where a: "apply_commit D s th (env_Type env) wire (env_Timestamp env) (env_Epoch env) c1 = (ap, c2)"
      by (metis prod.exhaust)
    have k2: "keeps c c2" using keeps_commit_helpers(7) [OF k1] a by (metis snd_conv)
    then have ep: "c_epoch c2 = c_epoch c1" using k1 by (simp add: keeps_def)
    obtain c3 where c3: "advanceEpochLocked D k s (c_epoch c2 + 1) th (cm_CommitData commit) c2 = Some c3"
      "served D c3" "climbs 1 c2 c3"
      using advance_answers [of c2 s th "cm_CommitData commit"] keeps_ready [OF k2 assms] by (auto simp: ready_def)
    have "keeps c3 (drain_committed commit c3)" by (intro keeps_intros)
    then obtain c4 where c4: "after_commit D k commit True s (c_epoch c2 + 1) (drain_committed commit c3) = Some c4"
      "keeps c3 c4" using after_commit_paced assms unfolding ready_def by blast
    have "keeps c3 (observe_additions ds e w (meter m c4))" for ds e w m using c4(2) by (intro keeps_intros)
    then have "served D (observe_additions ds e w (meter m c4)) \<and> climbs 1 c (observe_additions ds e w (meter m c4))" for ds e w m
      using keeps_served c3(2) climbs_kept(1) [OF climbs_kept(2) [OF k2 c3(3)]] by blast
    then show ?thesis using stay [OF k2] c3(1) c4(1) ep
      by (auto simp: process_commit_def g Inr st a Let_def split: sum.split bool.split)
  qed
qed

end

section \<open>Every method answers\<close>

context answering
begin

lemma handleCommit_answers:
  assumes "ready c"
  shows "\<exists>b c'. handleCommitLocked D k env wire c = Some (b, c') \<and>
    (env_Epoch env \<le> c_epoch c \<longrightarrow> served D c' \<and> climbs 1 c c') \<and>
    (c_epoch c < env_Epoch env \<longrightarrow> c' = on_tracker (BufferFuture (env_Epoch env) wire) c)"
proof -
  obtain et where et: "c_et c = Some et" "et_epoch et = c_epoch c" using assms by (auto simp: ready_def served_def)
  have stay: "served D c' \<and> climbs 1 c c'" if "keeps c c'" for c'
    using that assms climbs_kept(1) [OF climbs_refl that] by (auto simp: ready_def intro: keeps_served)
  consider (stale) "env_Epoch env < c_epoch c" | (future) "c_epoch c < env_Epoch env"
    | (undecoded) err where "env_Epoch env = c_epoch c" "u_commit (d_json D) (env_Payload env) = Inl err"
    | (current) commit where "env_Epoch env = c_epoch c" "u_commit (d_json D) (env_Payload env) = Inr commit"
    by (metis linorder_less_linear sum.exhaust)
  then show ?thesis
  proof cases
    case stale
    then have "Validate_et (env_Epoch env) (the (c_et c)) = ActionRejectStale" by (simp add: Validate_et_def et)
    then show ?thesis using stale stay [OF keeps_prim(3) [OF keeps_refl]] by (auto simp: handleCommitLocked_def)
  next
    case future
    then have "Validate_et (env_Epoch env) (the (c_et c)) = ActionBufferFuture" by (simp add: Validate_et_def et)
    then show ?thesis using future by (auto simp: handleCommitLocked_def)
  next
    case undecoded
    then show ?thesis using stay [OF keeps_refl] by (auto simp: handleCommitLocked_def Validate_et_def et ValidateEpoch_def)
  next
    case (current commit)
    obtain h dup c1 where ck: "checkAppliedEnvelopeLocked D env wire c = ((h, dup), c1)" by (metis prod.exhaust)
    have k1: "keeps c c1" using keeps_bind_results(1) [OF ck keeps_refl] .
    let ?g = "\<lambda>n. mls_StageCommit (d_mls D) n (c_groupState c1) (cm_CommitData commit)
        (proposalBytesFromMsgs (cm_IncludedProposals commit))"
    obtain res c2 where g: "engine ?g c1 = (res, c2)" by (metis prod.exhaust)
    have k2: "keeps c c2" using keeps_bind(2) [OF g k1] .
    obtain b c' where "process_commit D k env wire commit c2 = Some (b, c')" "served D c'" "climbs 1 c2 c'"
      using process_commit_answers [OF keeps_ready [OF k2 assms]] by blast
    then show ?thesis
      using current stay [OF k1] stay [OF keeps_helpers(1) [OF k2]] climbs_kept(2) [OF k2]
      by (auto simp: handleCommitLocked_def Validate_et_def et ValidateEpoch_def ck g Let_def split: sum.split)
  qed
qed

lemma handleProposal_answers:
  assumes "c_et c \<noteq> None" and pace: "paced D"
  shows "\<exists>c'. handleProposalLocked D k p env c = Some c' \<and>
    (keeps c c' \<or> Validate_et (env_Epoch env) (the (c_et c)) = ActionBufferFuture)"
proof (cases "u_proposal (d_json D) (env_Payload env)")
  case (Inl err)
  then show ?thesis by (simp add: handleProposalLocked_def)
next
  case (Inr proposal)
  have j: "\<exists>c'. handle_join D k env proposal c = Some c' \<and> keeps c c'" by (rule handle_join_paced [OF pace])
  show ?thesis
  proof (cases "pm_ProposalType proposal \<noteq> ProposalJoin \<and> c_groupState c \<noteq> [] \<and>
      Validate_et (env_Epoch env) (the (c_et c)) = ActionProcess")
    case False
    then show ?thesis using Inr j by (auto simp: handleProposalLocked_def split: EpochAction.splits)
  next
    case True
    let ?g = "\<lambda>n. mls_ProcessProposal (d_mls D) n (c_groupState c) (pm_Data proposal)"
    obtain res c1 where g: "engine ?g c = (res, c1)" by (metis prod.exhaust)
    have k1: "keeps c c1" using keeps_bind(2) [OF g keeps_refl] .
    show ?thesis
    proof (cases res)
      case (Inl err)
      then show ?thesis using Inr True g k1 by (simp add: handleProposalLocked_def)
    next
      case ok: (Inr processed)
      obtain r2 c2 where p2: "persistCurrentEpochStateLocked D (ppr_NewGroupState processed) c1 = (r2, c2)"
        by (metis prod.exhaust)
      have k2: "keeps c c2" using keeps_bind_helpers(2) [OF p2 k1] .
      then have k3: "keeps c (accept_proposal D p env pr (c2\<lparr>c_groupState := s\<rparr>))" for pr s
        by (intro keeps_intros)
      show ?thesis using Inr True g ok p2 k1 k2 k3 schedule_paced [OF pace k3]
        by (auto simp: handleProposalLocked_def Let_def split: sum.split)
    qed
  qed
qed

lemma handle_buffered_answers:
  assumes "ready c" "past_raw D (c_epoch c) raw"
  shows "\<exists>c'. handle_buffered D k raw c = Some c' \<and> served D c' \<and> climbs 1 c c'"
proof (cases "u_envelope (d_json D) raw")
  case (Inl err)
  then show ?thesis using assms(1) by (simp add: handle_buffered_def ready_def)
next
  case (Inr env)
  then have past: "env_Epoch env \<le> c_epoch c" using assms(2) by (simp add: past_raw_def)
  obtain et where et: "c_et c = Some et" "et_epoch et = c_epoch c" using assms(1) by (auto simp: ready_def served_def)
  have stay: "served D c' \<and> climbs 1 c c'" if "keeps c c'" for c'
    using that assms climbs_kept(1) [OF climbs_refl that] by (auto simp: ready_def intro: keeps_served)
  have "keeps c (snd (handleApplicationLocked D p env raw c))" for p
    using keeps_application [OF et(1), of env raw D p] past et
    by (auto simp: handleApplicationLocked_def keeps_or_buffers_def case_prod_beta)
  moreover have "keeps c (snd (handleApplicationBatchedLocked D p env raw c))" for p
    by (rule keeps_application_batched [OF et(1)])
  moreover have "\<exists>c'. handleProposalLocked D k p env c = Some c' \<and> served D c' \<and> climbs 1 c c'" for p
    using handleProposal_answers [of c p env] past et stay assms(1) by (auto simp: Validate_et_def ready_def)
  ultimately show ?thesis
    using Inr stay handleCommit_answers [OF assms(1), of env raw] past
    by (auto simp: handle_buffered_def Let_def assms(1) [unfolded ready_def] split: MessageType.split)
qed

end

lemma reenter_answering: "answering D n (reenter D n)"
proof (induction n)
  case 0
  then show ?case by unfold_locales simp_all
next
  case (Suc n)
  show ?case
  proof
    show "\<exists>c'. reenter D (Suc n) (CallBuffered raw) c = Some c' \<and> served D c' \<and> climbs 1 c c'"
      if "paced D" "served D c" "c_buf c < Suc n" "room 1 c" "past_raw D (c_epoch c) raw" for c raw
      using that answering.handle_buffered_answers [OF Suc, of c raw] by (simp add: answering.ready_def [OF Suc])
  qed
qed

interpretation an: answering D n "reenter D n" for D n
  by (rule reenter_answering)

section \<open>Every entry point returns\<close>

context answering
begin

lemma finish_commit_returns:
  assumes "ready c"
  shows "finish_commit D k m r envb rp c \<noteq> None"
proof -
  let ?c1 = "publishPreparedEnvelopeLocked MsgCommit envb
      (on_writer (\<lambda>sw. snd (DrainBatchByRefs (cm_CommittedProposalRefs m) sw)) c)"
  have k1: "keeps c ?c1" by (intro keeps_intros)
  then have e1: "c_epoch ?c1 = c_epoch c" by (rule keeps_epoch)
  obtain c2 where "advanceEpochLocked D k (ccr_NewGroupState r) (c_epoch ?c1 + 1) (ccr_NewTreeHash r) (ccr_CommitBytes r) ?c1
      = Some c2"
    using advance_answers [of ?c1] keeps_ready [OF k1 assms] unfolding ready_def by blast
  moreover obtain c3 where "after_commit D k m rp (ccr_NewGroupState r) (c_epoch c + 1) c2 = Some c3"
    using after_commit_paced [OF _ keeps_refl] assms unfolding ready_def by blast
  ultimately show ?thesis by (simp add: finish_commit_def e1 Let_def)
qed

lemma doCommit_returns:
  assumes "ready c"
  shows "doCommitBatchLocked D k batch c \<noteq> None"
proof -
  let ?g = "\<lambda>n. mls_CreateCommit (d_mls D) n (c_groupState c) (map bp_ProposalRef batch)"
  obtain res c1 where g: "engine ?g c = (res, c1)" by (metis prod.exhaust)
  obtain ts c2 where ts: "hlc_now c1 = (ts, c2)" by (metis prod.exhaust)
  have k2: "keeps c c2" using keeps_bind(3) [OF ts keeps_bind(2) [OF g keeps_refl]] .
  have fin: "False" if "apply_commit D s th mt w' ts' e c2 = (ap, c3)" "finish_commit D k m r w rp c3 = None"
    for s th mt w w' ts' e ap c3 m r rp
  proof -
    have "keeps c c3" using keeps_commit_helpers(7) [OF k2] that(1) by (metis snd_conv)
    then show ?thesis using finish_commit_returns keeps_ready assms that(2) by blast
  qed
  then have "\<exists>y. finish_commit D k m r w rp c3 = Some y" if "apply_commit D s th mt w' ts' e c2 = (ap, c3)"
    for s th mt w w' ts' e ap c3 m r rp using that by fastforce
  then show ?thesis
    by (auto simp: doCommitBatchLocked_def g ts Let_def split: sum.splits prod.splits bool.splits Option.bind_splits dest: fin)
qed

lemma tryCommit_returns: "ready c \<Longrightarrow> tryCommitLocked D k c \<noteq> None"
  using doCommit_returns by (simp add: tryCommitLocked_def Let_def)

lemma schedule_returns: "paced D \<Longrightarrow> scheduleBatchCommitLocked D k c \<noteq> None"
  using schedule_paced [OF _ keeps_refl] by fastforce

lemma propose_returns: "paced D \<Longrightarrow> proposeLockedWithMetadata D k pType data meta c \<noteq> None"
  using schedule_returns by (auto simp: proposeLockedWithMetadata_def Let_def split: prod.splits sum.splits)

lemma timer_returns:
  assumes "ready c"
  shows "proposal_timer_fired D k ch c \<noteq> None" "failover_timer_fired D k ch c \<noteq> None"
proof -
  have "ready (c\<lparr>c_proposalTimer := None\<rparr>)" by (rule keeps_ready [OF _ assms]) (intro keeps_intros)
  then show "proposal_timer_fired D k ch c \<noteq> None"
    using tryCommit_returns by (simp add: proposal_timer_fired_def Let_def)
  show "failover_timer_fired D k ch c \<noteq> None"
    using schedule_returns assms by (simp add: ready_def failover_timer_fired_def Let_def split: sum.split)
qed

lemma view_change_returns:
  assumes "ready c"
  shows "handleActiveViewChange D k c \<noteq> None"
proof -
  have "keeps c (snd (persistCoordStateLocked D (c\<lparr>c_lastTokenHolder := h\<rparr>)))" for h by (intro keeps_intros)
  then have "tryCommitLocked D k (snd (persistCoordStateLocked D (c\<lparr>c_lastTokenHolder := h\<rparr>))) \<noteq> None" for h
    using tryCommit_returns keeps_ready assms by blast
  then show ?thesis by (simp add: handleActiveViewChange_def Let_def split: sum.split)
qed

lemma commit_one_returns:
  assumes "ready c"
  shows "commit_one D k msg ds c \<noteq> None"
proof -
  let ?g = "\<lambda>n. mls_CreateCommit (d_mls D) n (c_groupState c) [pm_ProposalRef msg]"
  obtain res c1 where g: "engine ?g c = (res, c1)" by (metis prod.exhaust)
  obtain ts c2 where ts: "hlc_now c1 = (ts, c2)" by (metis prod.exhaust)
  have k2: "keeps c c2" using keeps_bind(3) [OF ts keeps_bind(2) [OF g keeps_refl]] .
  have fin: "False" if "apply_commit D s th mt w' ts' e c2 = (ap, c3)" "finish_commit D k m r w rp c3 = None"
    for s th mt w w' ts' e ap c3 m r rp
  proof -
    have "keeps c c3" using keeps_commit_helpers(7) [OF k2] that(1) by (metis snd_conv)
    then show ?thesis using finish_commit_returns keeps_ready assms that(2) by blast
  qed
  then have "\<exists>y. finish_commit D k m r w rp c3 = Some y" if "apply_commit D s th mt w' ts' e c2 = (ap, c3)"
    for s th mt w w' ts' e ap c3 m r rp using that by fastforce
  then show ?thesis
    by (auto simp: commit_one_def g ts Let_def split: sum.splits prod.splits bool.splits Option.bind_splits dest: fin)
qed

lemma AddMember_returns:
  assumes "ready c"
  shows "AddMember D k req c \<noteq> None"
proof -
  let ?key = "add_key D (amr_TargetPeerID req)"
  obtain ex c1 where ex: "existing_op D (amr_OperationID req) ?key c = (ex, c1)" by (metis prod.exhaust)
  have k1: "keeps c c1" using keeps_member_helpers(1) [OF keeps_refl] ex by (metis snd_conv)
  obtain opID c2 where id: "choose_op_id D (amr_OperationID req) c1 = (opID, c2)" by (metis prod.exhaust)
  have k2: "keeps c c2" using keeps_member_helpers(2) [OF k1] id by (metis snd_conv)
  define op where "op = new_op D opID ''ADD_MEMBER'' ?key (amr_KeyPackageHash req)
      (d_pidString D (amr_TargetPeerID req)) (amr_KeyPackageBytes req) c2"
  obtain res c4 where cr: "createAndStoreLocalProposalLocked D ProposalAdd (amr_KeyPackageBytes req)
      (add_meta D req opID) (save_op op c2) = (res, c4)" by (metis prod.exhaust)
  have k4: "keeps c c4" using keeps_create [OF keeps_op_saves(1) [OF k2]] cr by (metis snd_conv)
  have "add_as_holder D k req i msg (observe_add D req i (proposed_op D msg op
      (meter IncrProposalsReceived (scheduleFailoverTimerLocked D (on_writer (BufferProposal b) c4))))) \<noteq> None" for i msg b
  proof -
    have "keeps c (observe_add D req i (proposed_op D msg op
      (meter IncrProposalsReceived (scheduleFailoverTimerLocked D (on_writer (BufferProposal b) c4)))))"
      using k4 by (intro keeps_intros)
    from commit_one_returns [OF keeps_ready [OF this assms]] show ?thesis
      by (auto simp: add_as_holder_def Let_def split: Option.bind_splits)
  qed
  then have "add_proposed D k req i op msg b c4 \<noteq> None" for i msg b by (simp add: add_proposed_def Let_def)
  then show ?thesis
    by (auto simp: AddMember_def Let_def ex id op_def [symmetric] cr split: option.splits sum.splits)
qed

lemma RemoveMember_returns:
  assumes "ready c"
  shows "RemoveMemberWithPeer D k req c \<noteq> None"
proof -
  let ?key = "remove_key D (rmr_TargetPeerID req)"
  obtain ex c1 where ex: "existing_op D (rmr_OperationID req) ?key c = (ex, c1)" by (metis prod.exhaust)
  have k1: "keeps c c1" using keeps_member_helpers(1) [OF keeps_refl] ex by (metis snd_conv)
  obtain opID c2 where id: "choose_op_id D (rmr_OperationID req) c1 = (opID, c2)" by (metis prod.exhaust)
  have k2: "keeps c c2" using keeps_member_helpers(2) [OF k1] id by (metis snd_conv)
  have "remove_as_holder D k t i op ident (save_op op' c2) \<noteq> None" for t i op op' ident
  proof -
    let ?meta = "empty_proposal\<lparr>bp_TargetPeerID := t, bp_OperationID := i\<rparr>"
    obtain res c3 where cr: "createAndStoreLocalProposalLocked D ProposalRemove ident ?meta (save_op op' c2) = (res, c3)"
      by (metis prod.exhaust)
    have k3: "keeps c c3" using keeps_create [OF keeps_op_saves(1) [OF k2]] cr by (metis snd_conv)
    have "commit_one D k msg (\<lambda>r. []) (proposed_op D msg op (scheduleFailoverTimerLocked D (on_writer (BufferProposal b) c3))) \<noteq> None"
      for msg b
    proof (rule commit_one_returns [OF keeps_ready [OF _ assms]])
      show "keeps c (proposed_op D msg op (scheduleFailoverTimerLocked D (on_writer (BufferProposal b) c3)))"
        using k3 by (intro keeps_intros)
    qed
    then show ?thesis
      by (auto simp: remove_as_holder_def cr Let_def simp del: not_None_eq split: sum.splits prod.splits Option.bind_splits)
  qed
  then show ?thesis using propose_returns assms [unfolded ready_def]
    by (auto simp: RemoveMemberWithPeer_def Let_def ex id split: option.splits)
qed

end

text \<open>\<open>swells d c c'\<close>: buffer and epoch together grew by at most \<open>d\<close>, and so did the buffer alone.\<close>

definition swells :: "nat \<Rightarrow> Coord \<Rightarrow> Coord \<Rightarrow> bool" where
  "swells d c c' \<longleftrightarrow> c_buf c' \<le> c_buf c + d \<and> unat (c_epoch c') + c_buf c' \<le> unat (c_epoch c) + c_buf c + d"

lemma swells_climbs: "climbs d c c' \<Longrightarrow> swells d c c'"
  by (simp add: climbs_def swells_def)

lemma swells_kept: "swells d a b \<Longrightarrow> keeps b c \<Longrightarrow> swells d a c" "keeps a b \<Longrightarrow> swells d b c \<Longrightarrow> swells d a c"
  by (auto simp: swells_def keeps_buf keeps_epoch)

lemma swells_keeps: "keeps a b \<Longrightarrow> swells d a b"
  by (simp add: swells_def keeps_buf keeps_epoch)

lemma swells_buffer:
  assumes "served D c"
  shows "swells 1 c (on_tracker (BufferFuture e raw) c)"
proof -
  obtain et where et: "c_et c = Some et" "tracker_ok et" using assms by (auto simp: served_def)
  then show ?thesis using FutureBufferSize_Buffer [OF et(2), of e raw] by (simp add: swells_def c_buf_def on_tracker_def)
qed

context answering
begin

lemma live_returns:
  assumes "ready c"
  shows "handle_live D k p env data c \<noteq> None"
proof -
  obtain et where et: "c_et c = Some et" using assms by (auto simp: ready_def served_def)
  then show ?thesis
    using handleCommit_answers [OF assms, of env data] handleProposal_answers [of c p env] assms
    by (auto simp: handle_live_def ready_def split: MessageType.split)
qed

lemma receive_returns: "ready c \<Longrightarrow> handleRawMessage D k p data c \<noteq> None"
  using live_returns by (simp add: handleRawMessage_def split: sum.split GroupOperationalMode.split)

lemma commit_detailed_answers:
  assumes "ready c"
  shows "\<exists>r c'. handleCommitDetailedLocked D k env wire c = Some (r, c') \<and> swells 1 c c'"
proof -
  obtain h dup c1 where ck: "checkAppliedEnvelopeLocked D env wire c = ((h, dup), c1)" by (metis prod.exhaust)
  have k1: "keeps c c1" using keeps_bind_results(1) [OF ck keeps_refl] .
  then have r1: "ready c1" using keeps_ready assms by blast
  then obtain et where et: "c_et c1 = Some et" "et_epoch et = c_epoch c1" by (auto simp: ready_def served_def)
  have m: "swells 1 c (markReplayResultLocked D r x)" if "swells 1 c x" for r x
    using that by (rule swells_kept(1)) (intro keeps_intros)
  have stay: "swells 1 c c1" using k1 by (rule swells_keeps)
  have buf: "swells 1 c (on_tracker (BufferFuture e raw) c1)" for e raw
    using swells_kept(2) [OF k1 swells_buffer [of D]] r1 by (simp add: ready_def)
  show ?thesis
  proof (cases "\<not> dup \<and> Validate_et (env_Epoch env) (the (c_et c1)) = ActionProcess")
    case False
    then show ?thesis
      by (auto simp: handleCommitDetailedLocked_def ck Let_def finish_def m [OF stay] m [OF buf]
          simp del: One_nat_def split: EpochAction.splits)
  next
    case True
    then obtain b c2 where c2: "handleCommitLocked D k env wire c1 = Some (b, c2)" "climbs 1 c1 c2"
      using handleCommit_answers [OF r1, of env wire] et by (auto simp: Validate_et_def)
    have s2: "swells 1 c c2" using swells_kept(2) [OF k1 swells_climbs [OF c2(2)]] .
    obtain res c3 where c3: "on_db (HasAppliedEnvelope (d_groupID D) h) c2 = (res, c3)" by (metis prod.exhaust)
    have s3: "swells 1 c c3" using swells_kept(1) [OF s2] keeps_bind(1) [OF c3 keeps_refl] by blast
    show ?thesis using True
      by (simp add: handleCommitDetailedLocked_def ck Let_def finish_def c2(1) c3 m [OF s2] m [OF s3]
          del: One_nat_def split: sum.split bool.split)
  qed
qed

lemma replay_blob_answers:
  assumes "ready c"
  shows "\<exists>r c'. replay_blob D k raw c = Some (r, c') \<and> swells 1 c c'"
proof (cases "u_envelope (d_json D) raw")
  case (Inl err)
  then show ?thesis by (simp add: replay_blob_def swells_keeps)
next
  case (Inr env)
  obtain et where et: "c_et c = Some et" "served D c" using assms by (auto simp: ready_def served_def)
  obtain r c' where d: "handleApplicationDetailedLocked D (decodeEnvelopePeerID D (env_From env) '''') env raw c = (r, c')"
    by (metis prod.exhaust)
  have "swells 1 c c'"
    using keeps_application [OF et(1), of env raw D "decodeEnvelopePeerID D (env_From env) ''''"]
      swells_kept(1) [OF swells_buffer [OF et(2)]]
    by (auto simp: d keeps_or_buffers_def intro: swells_keeps)
  moreover have "swells 1 c c" by (simp add: swells_keeps)
  ultimately show ?thesis
    using commit_detailed_answers [OF assms, of env raw]
    by (simp add: replay_blob_def Inr d Let_def del: One_nat_def split: sum.split MessageType.split)
qed

end

lemma replay_blobs_returns:
  assumes "codec_ok D" "paced D" "served D c" "c_buf c + length blobs \<le> n" "room (length blobs) c"
  shows "replay_blobs D (reenter D n) blobs c \<noteq> None"
  using assms(3-5)
proof (induction blobs arbitrary: c)
  case (Cons raw blobs)
  show ?case
  proof (cases "raw = []")
    case True
    then show ?thesis using Cons by (simp add: room_def)
  next
    case False
    have "an.ready D n c" using Cons.prems assms(2) by (simp add: an.ready_def room_def)
    then obtain r c1 where c1: "replay_blob D (reenter D n) raw c = Some (r, c1)" "swells 1 c c1"
      using an.replay_blob_answers by blast
    have "served D c1"
      using sv.re.replay_blob_rel [OF c1(1)] Cons.prems(1) assms(1) by blast
    then have "replay_blobs D (reenter D n) blobs c1 \<noteq> None"
      using Cons.IH [of c1] Cons.prems c1(2) by (simp add: swells_def room_def)
    then show ?thesis using False c1(1) by auto
  qed
qed simp

section \<open>A sound commit is applied\<close>

lemma apply_commit_calm:
  assumes "calm (Suc 0) (c_db c)" "wire \<noteq> []" "TrimSpace (d_groupID D) \<noteq> ''''" "s \<noteq> []"
    and "\<not> ghas (db_applied (c_db c)) (d_groupID D, d_sha256 D wire)"
  shows "\<exists>seq c'. apply_commit D s th mt wire ts e c = (Inr (True, seq), c')"
proof -
  have "d_groupID D \<noteq> ''''" using assms(3) by (auto simp: TrimSpace_def)
  then show ?thesis using assms
    by (simp add: apply_commit_def on_db_def ApplyCommit_apply_tx state_record_def apply_tx_def with_io_calm
        hasAppliedEnvelopeTx_def saveGroupRecordTx_def validateGroupRecordForSave_def Let_def case_prod_beta)
qed

lemma commit_lands:
  assumes ready: "an.ready D n c" and h: "hash_ok D" and ep: "env_Epoch env = c_epoch c" "env_Type env = MsgCommit"
    and cm: "u_commit (d_json D) (env_Payload env) = Inr commit"
    and db: "calm 2 (c_db c)" "wire \<noteq> []" "TrimSpace (d_groupID D) \<noteq> ''''"
      "\<not> ghas (db_applied (c_db c)) (d_groupID D, d_sha256 D wire)"
    and stage: "mls_StageCommit (d_mls D) (c_calls c) (c_groupState c) (cm_CommitData commit)
        (proposalBytesFromMsgs (cm_IncludedProposals commit)) = Inr staged"
      "\<And>x. \<not> commit_rejected D env commit staged (c\<lparr>c_db := x, c_calls := c_calls c + 1\<rparr>)"
    and mls: "mls_ProcessCommit (d_mls D) (c_calls c + 1) (c_groupState c) (cm_CommitData commit)
        (proposalBytesFromMsgs (cm_IncludedProposals commit)) = Inr (s, th)" "s \<noteq> []"
  shows "\<exists>c'. handleCommitLocked D (reenter D n) env wire c = Some (True, c')"
proof -
  obtain et where et: "c_et c = Some et" "et_epoch et = c_epoch c" using ready by (auto simp: an.ready_def served_def)
  have calm: "calm (Suc (Suc 0)) (c_db c)" using db(1) by (simp add: numeral_2_eq_2)
  let ?db = "unfaulted (c_db c)"
  have ck: "checkAppliedEnvelopeLocked D env wire c = ((d_sha256 D wire, False), c\<lparr>c_db := ?db\<rparr>)"
    using db ep(2) h [unfolded hash_ok_def, THEN spec [of _ wire]]
    by (auto simp: checkAppliedEnvelopeLocked_def hashEnvelope_def on_db_def HasAppliedEnvelope_def
        with_io_calm [OF calm] Let_def)
  let ?c2 = "c\<lparr>c_db := ?db, c_calls := c_calls c + 2\<rparr>"
  obtain seq c3 where a: "apply_commit D s th MsgCommit wire (env_Timestamp env) (c_epoch c) ?c2 = (Inr (True, seq), c3)"
    using apply_commit_calm [of ?c2 wire D s] calm_unfaulted [OF calm] db mls by fastforce
  obtain b c' where run: "handleCommitLocked D (reenter D n) env wire c = Some (b, c')"
    using an.handleCommit_answers [OF ready, of env wire] ep by auto
  then have b
    using stage mls cm a ep
    by (auto simp: handleCommitLocked_def Validate_et_def et ValidateEpoch_def ck engine_def Let_def process_commit_def
        split: Option.bind_splits)
  then show ?thesis using run by simp
qed

text \<open>A node that paces its commits, with a codec that keeps what it encodes.\<close>

definition paced_config :: CoordinatorConfig where
  "paced_config = TestConfig\<lparr>BatchingDelay := 1000000000\<rparr>"

definition paced_deps :: Deps where
  "paced_deps = sample_deps\<lparr>d_cfg := paced_config,
     d_json := sample_codecs\<lparr>j_envelope := (\<lambda>env. None), u_envelope := (\<lambda>b. if b = [] then Inl ErrDB else Inr sample_envelope)\<rparr>\<rparr>"

definition paced_node :: Coord where
  "paced_node = sample_node\<lparr>c_sw := Some (SetAuthorizedCommitters ''g'' None (NewSingleWriter ''A'' 3 paced_config))\<rparr>"

lemma paced_deps_ok: "paced paced_deps" "codec_ok paced_deps" "hash_ok paced_deps" "coord_ok paced_deps paced_node"
proof -
  show "paced paced_deps" "codec_ok paced_deps" "hash_ok paced_deps"
    by (simp_all add: paced_deps_def paced_config_def paced_def codec_ok_def hash_ok_def sample_deps_def)
  show "coord_ok paced_deps paced_node" using sample_node_ok
    by (auto simp: coord_ok_def paced_deps_def sample_deps_def paced_node_def writer_id_def sw_ok_def
        SetAuthorizedCommitters_def NewSingleWriter_def, simp add: sample_node_def)
qed

lemma paced_node_ready: "an.ready paced_deps n paced_node"
  by (simp add: an.ready_def paced_deps_ok served_def coherent_def paced_node_def sample_node_def NewEpochTracker_def tracker_ok_def
      c_buf_def FutureBufferSize_def room_def)

theorem commit_admission_witness:
  "\<exists>c'. handleCommitLocked paced_deps (reenter paced_deps 0) sample_envelope [1] paced_node = Some (True, c') \<and>
    (\<exists>hs. c_epoch c' = 4 + of_nat (length (hs :: bytes list)))"
proof -
  have "\<exists>c'. handleCommitLocked paced_deps (reenter paced_deps 0) sample_envelope [1] paced_node = Some (True, c')"
    by (rule commit_lands [OF paced_node_ready paced_deps_ok(3), where s = "[4]" and th = "[8]" and
          commit = "\<lparr>cm_CommitData = [5], cm_WelcomeData = [], cm_NewTreeHash = [8], cm_AddDeliveries = [],
            cm_IncludedProposals = [], cm_CommittedProposalRefs = []\<rparr>" and
          staged = "\<lparr>scr_Epoch = 0, scr_ProposalRefs = [], scr_ProposalTypes = []\<rparr>"])
      (simp_all add: paced_deps_def sample_deps_def sample_codecs_def paced_node_def sample_node_def sample_envelope_def sample_engine_def
        empty_db_def calm_def ghas_def gget_def decodeEnvelopePeerID_def TrimSpace_def is_space_def commit_rejected_def bufferedBatchFromProposalMsgs_def Let_def)
  then obtain c' where c': "handleCommitLocked paced_deps (reenter paced_deps 0) sample_envelope [1] paced_node = Some (True, c')"
    by blast
  then obtain hs where "c_epoch c' = c_epoch paced_node + 1 + of_nat (length (hs :: bytes list))"
    using commit_admission [OF paced_deps_ok(3,4) c'] by auto
  then show ?thesis using c' by (auto simp: paced_node_def sample_node_def)
qed

end
