(* ===== verification/Recovery.thy ===== *)
theory Recovery
  imports Healing
begin

text \<open>
  What a restart makes of the database: \<^verbatim>\<open>NewCoordinator\<close> and \<^verbatim>\<open>Start\<close> over a database that another run left
  behind, and the state a fork heal installs.
\<close>

section \<open>Starting from the database\<close>

definition stored_chain :: "Deps \<Rightarrow> DB \<Rightarrow> (u64, bytes) gomap" where
  "stored_chain D db =
    (case gget (db_coord db) (d_groupID D) of None \<Rightarrow> [] | Some r \<Rightarrow> decode_chain (cw_history_chain r))"

text \<open>The entry of the stored chain for an epoch, or the root of a fresh one.\<close>

definition stored_history :: "Deps \<Rightarrow> DB \<Rightarrow> u64 \<Rightarrow> bytes" where
  "stored_history D db e =
    (case gget (stored_chain D db) e of
       Some h \<Rightarrow> if h = [] then initialHistoryHash D (d_groupID D) else h
     | None \<Rightarrow> initialHistoryHash D (d_groupID D))"

lemma NewCoordinator_fresh:
  assumes "NewCoordinator D members hlc now db = Inr c"
  shows "c_db c = db" "c_groupState c = []" "\<not> c_started c" "c_historyHash c = []" "c_historyChain c = []"
    "view_ok (c_view c)" "c_lastCommitHash c = []"
  using assms view_run_ok [of "[]"]
  by (auto simp: NewCoordinator_def Seed_ok split: sum.splits)

lemma load_group_stored:
  assumes "c_groupState c = []" "calm (Suc n) (c_db c)" "gget (db_groups (c_db c)) (d_groupID D) = Some row"
  shows "load_group D c = (Inr (), c\<lparr>c_db := unfaulted (c_db c), c_groupState := mg_group_state row,
    c_epoch := mg_epoch row, c_treeHash := mg_tree_hash row\<rparr>)"
proof -
  have "GetGroupRecord (d_groupID D) (c_db c) = (Inr (group_of_row (d_groupID D) row), unfaulted (c_db c))"
    unfolding GetGroupRecord_def with_io_calm [OF assms(2)] using assms(3) by simp
  then show ?thesis using assms(1) by (simp add: load_group_def on_db_def group_of_row_def)
qed

lemma load_coord_stored:
  assumes "calm (Suc n) (c_db c)" "c_historyHash c = []" "c_historyChain c = []"
  shows "\<exists>h c'. load_coord D c = (Inr (), c') \<and>
    c' = c\<lparr>c_db := unfaulted (c_db c), c_lastCommitHash := h, c_historyChain := stored_chain D (c_db c),
           c_historyHash := (case gget (stored_chain D (c_db c)) (c_epoch c) of None \<Rightarrow> [] | Some h \<Rightarrow> h)\<rparr>"
proof (cases "gget (db_coord (c_db c)) (d_groupID D)")
  case None
  have "GetCoordState (d_pidDecode D) (d_groupID D) (c_db c) = (Inl ErrGroupNotFound, unfaulted (c_db c))"
    unfolding GetCoordState_def with_io_calm [OF assms(1)] using None by simp
  then show ?thesis using assms None
    by (auto simp: load_coord_def on_db_def stored_chain_def intro!: exI [of _ "c_lastCommitHash c"])
next
  case (Some r)
  obtain cs where "GetCoordState (d_pidDecode D) (d_groupID D) (c_db c) = (Inr cs, unfaulted (c_db c))"
    and "cs_HistoryChain cs = decode_chain (cw_history_chain r)"
    unfolding GetCoordState_def with_io_calm [OF assms(1)] using Some by (auto simp: Let_def)
  then show ?thesis using assms Some
    by (auto simp: load_coord_def on_db_def stored_chain_def Let_def intro!: exI [of _ "cs_LastCommitHash cs"]
        split: option.splits)
qed

lemma seed_history_eq:
  "c_historyHash (seed_history D c) = (if c_historyHash c = [] then initialHistoryHash D (d_groupID D) else c_historyHash c)"
  "c_historyHash c \<noteq> [] \<and> gget (c_historyChain c) (c_epoch c) = Some (c_historyHash c) \<or> c_historyHash c = [] \<Longrightarrow>
   gget (c_historyChain (seed_history D c)) (c_epoch c) = Some (c_historyHash (seed_history D c))"
  "c_epoch (seed_history D c) = c_epoch c" "c_groupState (seed_history D c) = c_groupState c"
  "c_treeHash (seed_history D c) = c_treeHash c" "c_view (seed_history D c) = c_view c" "c_fd (seed_history D c) = c_fd c"
  by (auto simp: seed_history_def Let_def)

lemma install_components_eq:
  "c_epoch (install_components D c) = c_epoch c" "c_groupState (install_components D c) = c_groupState c"
  "c_treeHash (install_components D c) = c_treeHash c" "c_historyHash (install_components D c) = c_historyHash c"
  "c_historyChain (install_components D c) = c_historyChain c" "c_view (install_components D c) = c_view c"
  "c_et (install_components D c) = Some (NewEpochTracker (c_epoch c) (c_treeHash c))"
  "c_sw (install_components D c) = Some (SetAuthorizedCommitters (d_groupID D) (d_authorized D)
     (NewSingleWriter (d_localID D) (c_epoch c) (d_cfg D)))"
  "\<exists>ann. fd_local (c_fd (install_components D c)) = Some ann \<and> gsa_Epoch ann = c_epoch c \<and> gsa_HistoryHash ann = c_historyHash c"
  by (auto simp: install_components_def Let_def UpdateLocal_def local_announcement_def split: sum.split)

lemma new_writer:
  "writer_id (SetAuthorizedCommitters g p (NewSingleWriter l e cfg)) = (l, e, cfg, g, p)"
  "sw_ok (SetAuthorizedCommitters g p (NewSingleWriter l e cfg))"
  by (simp_all add: writer_id_def SetAuthorizedCommitters_def NewSingleWriter_def sw_ok_def)

lemma installed_ok:
  assumes "c_historyHash c \<noteq> []" "gget (c_historyChain c) (c_epoch c) = Some (c_historyHash c)" "view_ok (c_view c)"
  shows "coord_ok D (install_components D c)"
proof -
  have "et_epoch (NewEpochTracker (c_epoch c) (c_treeHash c)) = c_epoch c" by (simp add: NewEpochTracker_def)
  then show ?thesis
    using assms install_components_eq(9) [of D c] unfolding coord_ok_def
    by (simp add: install_components_eq(1-8) new_writer)
qed

lemma keeps_resume: "keeps c (resume_on_start D c) \<and> c_groupState (resume_on_start D c) = c_groupState c \<and>
    c_treeHash (resume_on_start D c) = c_treeHash c"
proof -
  let ?c1 = "snd (on_db (GetActiveForkHealingJob (d_groupID D)) c)"
  have "resume_on_start D c \<in> {?c1} \<union> range (\<lambda>job. emit (ResumeHeal job) ?c1)"
    by (simp add: resume_on_start_def case_prod_beta split: sum.split option.split)
  moreover have "keeps c ?c1" "keeps c (emit (ResumeHeal job) ?c1)" for job by (intro keeps_intros)+
  ultimately show ?thesis by (auto simp: emit_def on_db_def case_prod_beta)
qed

lemma initialHistoryHash_nonempty: "hash_ok D \<Longrightarrow> initialHistoryHash D g \<noteq> []"
  by (metis hash_ok_def initialHistoryHash_def list.size(3) zero_neq_numeral)

lemma Start_from_db:
  assumes new: "NewCoordinator D members hlc now db = Inr c" and io: "calm 2 db" and h: "hash_ok D"
    and row: "gget (db_groups db) (d_groupID D) = Some row"
  shows "\<exists>c'. Start D (Inr ()) c = (Inr (), c') \<and> coord_ok D c' \<and> c_started c' \<and> c_epoch c' = mg_epoch row \<and>
    c_groupState c' = mg_group_state row \<and> c_treeHash c' = mg_tree_hash row \<and>
    c_historyHash c' = stored_history D db (mg_epoch row)"
proof -
  note fresh = NewCoordinator_fresh [OF new]
  have io2: "calm (Suc (Suc 0)) (c_db c)" using io fresh(1) by (simp add: numeral_2_eq_2)
  define c1 where "c1 = c\<lparr>c_db := unfaulted (c_db c), c_groupState := mg_group_state row,
      c_epoch := mg_epoch row, c_treeHash := mg_tree_hash row\<rparr>"
  have g: "load_group D c = (Inr (), c1)"
    using load_group_stored [OF fresh(2) io2, of D row] row fresh(1) by (simp add: c1_def)
  have io1: "calm (Suc 0) (c_db c1)" using calm_unfaulted [OF io2] by (simp add: c1_def)
  have chain: "stored_chain D (c_db c1) = stored_chain D db" by (simp add: stored_chain_def c1_def fresh(1))
  obtain lc c2 where l: "load_coord D c1 = (Inr (), c2)"
    and c2: "c2 = c1\<lparr>c_db := unfaulted (c_db c1), c_lastCommitHash := lc, c_historyChain := stored_chain D db,
           c_historyHash := (case gget (stored_chain D db) (c_epoch c1) of None \<Rightarrow> [] | Some h \<Rightarrow> h)\<rparr>"
    using load_coord_stored [OF io1, of D] fresh(4,5) chain by (auto simp: c1_def)
  define c3 where "c3 = seed_history D c2"
  have ep: "c_epoch c2 = mg_epoch row" by (simp add: c2 c1_def)
  have h3: "c_historyHash c3 = stored_history D db (mg_epoch row)"
    by (auto simp: c3_def seed_history_eq stored_history_def c2 c1_def split: option.splits)
  have "c_historyHash c3 \<noteq> []"
    using initialHistoryHash_nonempty [OF h] by (auto simp: h3 stored_history_def split: option.splits)
  moreover have "gget (c_historyChain c3) (c_epoch c3) = Some (c_historyHash c3)"
    using seed_history_eq(2) [of c2 D] by (auto simp: c3_def seed_history_eq(3) c2 split: option.splits)
  moreover have "view_ok (c_view c3)" by (simp add: c3_def seed_history_eq c2 c1_def fresh(6))
  ultimately have ok: "coord_ok D (install_components D c3)" by (rule installed_ok)
  define c4 where "c4 = emit (Subscribe (GroupTopic (d_groupID D)))
      ((install_components D c3)\<lparr>c_started := True, c_startedAt := c_now (install_components D c3)\<rparr>)"
  have st: "Start D (Inr ()) c = (Inr (), resume_on_start D c4)"
    using fresh(3) by (simp add: Start_def g l c3_def c4_def Let_def)
  have "coord_ok D c4" using ok by (simp add: c4_def coord_ok_def emit_def)
  then have "coord_ok D (resume_on_start D c4)" using keeps_resume keeps_coord_ok by blast
  moreover have "c_epoch c4 = mg_epoch row" "c_groupState c4 = mg_group_state row" "c_treeHash c4 = mg_tree_hash row"
    "c_historyHash c4 = c_historyHash c3" "c_started c4"
    by (simp_all add: c4_def emit_def install_components_eq c3_def seed_history_eq ep) (simp_all add: c2 c1_def)
  ultimately show ?thesis
    using st h3 keeps_resume [of c4 D] by (auto simp: keeps_def)
qed

text \<open>
  C28: a coordinator that is restarted on a database takes up the group where the database has it: epoch, group
  state and tree hash are those of the stored row, the components agree on them, and the history hash is
  the entry the stored chain has for that epoch. Where the chain has none, for instance because the process
  ended between the transaction that applied a commit and the one that saves the chain, it is the root of
  a fresh chain.
\<close>

theorem restart_restores:
  assumes "NewCoordinator D members hlc now db = Inr c" and "calm 2 db" and "hash_ok D"
    and "gget (db_groups db) (d_groupID D) = Some row"
  shows "\<exists>c'. Start D (Inr ()) c = (Inr (), c') \<and> coord_ok D c' \<and> c_epoch c' = mg_epoch row \<and>
    c_groupState c' = mg_group_state row \<and> c_treeHash c' = mg_tree_hash row \<and>
    c_historyHash c' =
      (case gget (stored_chain D db) (mg_epoch row) of
         Some h \<Rightarrow> if h = [] then initialHistoryHash D (d_groupID D) else h
       | None \<Rightarrow> initialHistoryHash D (d_groupID D))"
  using Start_from_db [OF assms] unfolding stored_history_def by blast

section \<open>The state a heal installs\<close>

lemma SaveGroupRecord_Inr:
  "SaveGroupRecord rec db = (Inr u, db') \<Longrightarrow> db' = upsert_group rec (unfaulted db)"
  by (auto simp: SaveGroupRecord_def with_io_def split: sum.splits if_splits)

lemma SaveCoordState_Inr:
  "SaveCoordState ps st db = (Inr u, db') \<Longrightarrow> db_groups db' = db_groups db \<and>
   (\<exists>r. gget (db_coord db') (cs_GroupID st) = Some r \<and>
      cw_history_chain r = map (\<lambda>(epoch, h). (FormatUint epoch, hex h)) (cs_HistoryChain st))"
  by (auto simp: SaveCoordState_def with_io_def split: if_splits)

lemma upsert_group_row:
  "\<exists>row. gget (db_groups (upsert_group rec db)) (gr_GroupID rec) = Some row \<and>
     mg_group_state row = gr_GroupState rec \<and> mg_epoch row = gr_Epoch rec \<and> mg_tree_hash row = gr_TreeHash rec"
  by (cases "gget (db_groups db) (gr_GroupID rec)")
    (simp_all add: upsert_group_def inserted_group_def updated_group_def Let_def)

lemma swap_state_ok:
  assumes "hash_ok D" "view_ok (c_view c)"
  shows "coord_ok D (swap_state D s th e c)"
  using assms initialHistoryHash_nonempty [OF assms(1)]
  by (simp add: coord_ok_def swap_state_def Let_def new_writer UpdateLocal_def Reset_def local_announcement_def
      NewEpochTracker_def tracker_ok_def)

lemma applyHealedState_spec:
  assumes run: "applyHealedState D s th e c = (Inr (), c')" and h: "hash_ok D" and v: "view_ok (c_view c)"
  shows "coord_ok D c' \<and> c_epoch c' = e \<and> c_groupState c' = s \<and> c_treeHash c' = th \<and>
    c_historyHash c' = initialHistoryHash D (d_groupID D) \<and> stored_chain D (c_db c') = [(e, c_historyHash c')] \<and>
    (\<exists>row. gget (db_groups (c_db c')) (d_groupID D) = Some row \<and>
       mg_group_state row = s \<and> mg_epoch row = e \<and> mg_tree_hash row = th)"
proof -
  obtain res c1 where c1: "on_db (GetGroupRecord (d_groupID D)) c = (res, c1)" by (metis prod.exhaust)
  obtain prev where "install_healed D s th e prev c1 = (Inr (), c')"
    using run by (auto simp: applyHealedState_def c1 split: sum.splits if_splits)
  then obtain c2 c3 where
    c2: "on_db (SaveGroupRecord (carried_record D prev s e th (c_now c1))) c1 = (Inr (), c2)"
    and c3: "persistCoordStateLocked D (swap_state D s th e c2) = (Inr (), c3)"
    and c': "c' = emit (OnEpochChange e) c3"
    by (auto simp: install_healed_def split: prod.splits sum.splits)
  let ?rec = "carried_record D prev s e th (c_now c1)"
  have v2: "view_ok (c_view c2)"
    using v c1 c2 by (auto simp: on_db_def split: prod.splits)
  have "keeps (swap_state D s th e c2) c3" using keeps_bind_helpers(1) [OF c3 keeps_refl] .
  then have "coord_ok D c3" using swap_state_ok [OF h v2] keeps_coord_ok by blast
  then have ok: "coord_ok D c'" by (simp add: c' coord_ok_def emit_def)
  let ?db = "c_db c2"
  have "?db = upsert_group ?rec (unfaulted (c_db c1))"
    using c2 SaveGroupRecord_Inr [of ?rec "c_db c1"] by (auto simp: on_db_def split: prod.splits)
  then obtain row where row: "gget (db_groups ?db) (d_groupID D) = Some row" "mg_group_state row = s"
      "mg_epoch row = e" "mg_tree_hash row = th"
    using upsert_group_row [of ?rec "unfaulted (c_db c1)"] by (auto simp: carried_record_def)
  obtain st where st: "SaveCoordState (d_pidString D) st (c_db (swap_state D s th e c2)) = (Inr (), c_db c3)"
      "cs_GroupID st = d_groupID D" "cs_HistoryChain st = [(e, initialHistoryHash D (d_groupID D))]"
    and f: "c_epoch c3 = e" "c_groupState c3 = s" "c_treeHash c3 = th" "c_historyHash c3 = initialHistoryHash D (d_groupID D)"
    using c3 by (auto simp: persistCoordStateLocked_def on_db_def swap_state_def Let_def gput_def split: prod.splits)
  have db2: "db_groups (c_db (swap_state D s th e c2)) = db_groups ?db" by (simp add: swap_state_def Let_def)
  have "decode_chain (map (\<lambda>(epoch, h). (FormatUint epoch, hex h)) [(e, initialHistoryHash D (d_groupID D))])
      = [(e, initialHistoryHash D (d_groupID D))]"
    by (rule decode_chain_encode) (simp add: gmap_ok_def)
  then have "stored_chain D (c_db c3) = [(e, initialHistoryHash D (d_groupID D))]"
    using SaveCoordState_Inr [OF st(1)] st(2,3) by (auto simp: stored_chain_def)
  moreover have "gget (db_groups (c_db c3)) (d_groupID D) = Some row"
    using SaveCoordState_Inr [OF st(1)] row(1) db2 by simp
  ultimately show ?thesis using ok f row by (simp add: c' emit_def)
qed

text \<open>
  C27: the swap of a fork heal is consistent and durable. When it succeeds, the components of the coordinator
  agree on the epoch of the winning branch, and a coordinator restarted on the database that is left takes
  up the same epoch, group state, tree hash and history hash.
\<close>

theorem healed_state_survives_restart:
  assumes "applyHealedState D newState newTreeHash newEpoch c = (Inr (), c')"
    and "hash_ok D" and "view_ok (c_view c)" and "calm 2 (c_db c')"
    and "NewCoordinator D members hlc now (c_db c') = Inr fresh"
  shows "coord_ok D c' \<and> c_epoch c' = newEpoch \<and> c_groupState c' = newState \<and>
    (\<exists>c''. Start D (Inr ()) fresh = (Inr (), c'') \<and> coord_ok D c'' \<and> c_epoch c'' = c_epoch c' \<and>
       c_groupState c'' = c_groupState c' \<and> c_treeHash c'' = c_treeHash c' \<and> c_historyHash c'' = c_historyHash c')"
proof -
  note s = applyHealedState_spec [OF assms(1-3)]
  then obtain row where row: "gget (db_groups (c_db c')) (d_groupID D) = Some row"
    "mg_group_state row = newState" "mg_epoch row = newEpoch" "mg_tree_hash row = newTreeHash" by blast
  have "stored_history D (c_db c') newEpoch = c_historyHash c'"
    using s initialHistoryHash_nonempty [OF assms(2)] by (simp add: stored_history_def gget_Cons)
  then show ?thesis using Start_from_db [OF assms(5,4,2) row(1)] s row by auto
qed

section \<open>Witnesses\<close>

definition sample_fresh :: "DB \<Rightarrow> Coord" where
  "sample_fresh db = projr (NewCoordinator sample_deps [''B''] None 1000000000 db)"

lemma sample_fresh_new: "NewCoordinator sample_deps [''B''] None 1000000000 db = Inr (sample_fresh db)"
  by (simp add: sample_fresh_def NewCoordinator_def sample_deps_def Validate_def TestConfig_def)

definition sample_stored :: DB where
  "sample_stored = empty_db\<lparr>db_groups := [(''g'', inserted_group 0 (sample_group\<lparr>gr_Epoch := 5\<rparr>))]\<rparr>"

theorem restart_restores_witness:
  "\<exists>c'. Start sample_deps (Inr ()) (sample_fresh sample_stored) = (Inr (), c') \<and> coord_ok sample_deps c' \<and>
     c_epoch c' = 5 \<and> c_historyHash c' = initialHistoryHash sample_deps ''g''"
proof -
  have "gget (db_groups sample_stored) (d_groupID sample_deps) = Some (inserted_group 0 (sample_group\<lparr>gr_Epoch := 5\<rparr>))"
    by (simp add: sample_stored_def sample_deps_def gget_Cons)
  from restart_restores [OF sample_fresh_new [of sample_stored] _ sample_hash_ok this]
  show ?thesis
    by (auto simp: sample_stored_def empty_db_def calm_def stored_chain_def inserted_group_def sample_deps_def)
qed

definition healed_node :: Coord where
  "healed_node = snd (applyHealedState sample_deps [4] [8] 9 sample_node)"

lemma healed_node_ok:
  "applyHealedState sample_deps [4] [8] 9 sample_node = (Inr (), healed_node)" "calm 2 (c_db healed_node)"
  unfolding healed_node_def
  by (simp_all add: applyHealedState_def install_healed_def on_db_def sample_node_def GetGroupRecord_def with_io_def
      empty_db_def unfaulted_def SaveGroupRecord_def validateGroupRecordForSave_def carried_record_def sample_deps_def
      persistCoordStateLocked_def SaveCoordState_def Let_def emit_def swap_state_def upsert_group_def calm_def
      TrimSpace_def is_space_def RoleMember_def split: sum.split)

theorem healed_state_survives_restart_witness:
  "coord_ok sample_deps healed_node \<and> c_epoch healed_node = 9 \<and>
    (\<exists>c''. Start sample_deps (Inr ()) (sample_fresh (c_db healed_node)) = (Inr (), c'') \<and>
       c_epoch c'' = 9 \<and> c_groupState c'' = [4])"
  using healed_state_survives_restart [OF healed_node_ok(1) sample_hash_ok _ healed_node_ok(2) sample_fresh_new]
    sample_node_ok by (auto simp: coord_ok_def)

end
