(* ===== verification/Protocol.thy ===== *)
theory Protocol
  imports Progress Recovery
begin

text \<open>
  A running coordinator as a transition system: every entry point that callers, the transport, timers and
  goroutines use is an input, and a run is any sequence of them, each with any fuel that is enough. The
  goroutine of a fork heal is not an input: it replaces the group state, see the theory on healing.
\<close>

section \<open>Inputs and runs\<close>

datatype input =
    Receive peer_id bytes
  | Replay "bytes list"
  | ProposalTimer nat
  | FailoverTimer nat
  | TimerCancelled nat
  | ViewChange
  | HeartbeatTick
  | AnnounceTick
  | SendApplication bytes string
  | Propose ProposalType bytes
  | Add AddMemberRequest
  | Remove RemoveMemberRequest
  | AckTimeout peer_id bytes
  | RetryTo peer_id
  | PeerAlive peer_id
  | BatchReplay string string
  | DeferredHeal
  | SyncReset
  | SyncRetry
  | ResumeJob ForkHealingJob
  | SetMode GroupOperationalMode
  | Wait int

fun coord_exec :: "Deps \<Rightarrow> nat \<Rightarrow> input \<Rightarrow> Coord \<Rightarrow> Coord option" where
  "coord_exec D n (Receive p data) c = handleRawMessage D (reenter D n) p data c"
| "coord_exec D n (Replay blobs) c = map_option snd (ReplayEnvelopesDetailed D (reenter D n) blobs c)"
| "coord_exec D n (ProposalTimer ch) c = proposal_timer_fired D (reenter D n) ch c"
| "coord_exec D n (FailoverTimer ch) c = failover_timer_fired D (reenter D n) ch c"
| "coord_exec D n (TimerCancelled ch) c = Some (timer_cancelled ch c)"
| "coord_exec D n ViewChange c = handleActiveViewChange D (reenter D n) c"
| "coord_exec D n HeartbeatTick c = Some (heartbeat_tick D c)"
| "coord_exec D n AnnounceTick c = Some (broadcastAnnounceLocked D c)"
| "coord_exec D n (SendApplication pt echo) c = Some (snd (sendMessage D pt echo c))"
| "coord_exec D n (Propose t data) c = map_option snd (propose D (reenter D n) t data c)"
| "coord_exec D n (Add req) c = map_option snd (AddMember D (reenter D n) req c)"
| "coord_exec D n (Remove req) c = map_option snd (RemoveMemberWithPeer D (reenter D n) req c)"
| "coord_exec D n (AckTimeout p h) c = Some (snd (applicationAckWatch D p h c))"
| "coord_exec D n (RetryTo p) c = Some (RetryOutstandingDeliveriesTo D p c)"
| "coord_exec D n (PeerAlive p) c = Some (ObservePeerAlive D p c)"
| "coord_exec D n (BatchReplay job gid) c = Some (snd (batchAndReplayOutbox D job gid c))"
| "coord_exec D n DeferredHeal c = Some (TriggerDeferredHeal D c)"
| "coord_exec D n SyncReset c = Some (ResetSyncRetryAttempts c)"
| "coord_exec D n SyncRetry c = Some (snd (IncrementSyncRetryAttempts c))"
| "coord_exec D n (ResumeJob job) c = Some (resumeForkHealingJob D job c)"
| "coord_exec D n (SetMode m) c = Some (SetOperationalMode m c)"
| "coord_exec D n (Wait d) c = Some (c\<lparr>c_now := c_now c + d\<rparr>)"

inductive reaches :: "Deps \<Rightarrow> Coord \<Rightarrow> Coord \<Rightarrow> bool" for D a where
  stay: "reaches D a a"
| step: "reaches D a b \<Longrightarrow> coord_exec D n inp b = Some c \<Longrightarrow> reaches D a c"

text \<open>A coordinator before its first step: created, given a group or not, and started.\<close>

inductive started :: "Deps \<Rightarrow> Coord \<Rightarrow> bool" for D where
  from_store: "NewCoordinator D members hlc now db = Inr c \<Longrightarrow> Start D sub c = (Inr (), c') \<Longrightarrow> started D c'"
| created: "NewCoordinator D members hlc now db = Inr c \<Longrightarrow> CreateGroup D c = (Inr (), c1) \<Longrightarrow>
    Start D sub c1 = (Inr (), c') \<Longrightarrow> started D c'"
| joined: "NewCoordinator D members hlc now db = Inr c \<Longrightarrow>
    Start D sub (InitializeGroup s e th c) = (Inr (), c') \<Longrightarrow> started D c'"

section \<open>The invariant of every run\<close>

lemma keeps_inputs [keeps_intros]:
  "keeps a c \<Longrightarrow> keeps a (timer_cancelled ch c)"
  "keeps a c \<Longrightarrow> keeps a (TriggerDeferredHeal D c)"
  "keeps a c \<Longrightarrow> keeps a (resumeForkHealingJob D job c)"
  "keeps a c \<Longrightarrow> keeps a (ResetSyncRetryAttempts c)"
  "keeps a c \<Longrightarrow> keeps a (snd (IncrementSyncRetryAttempts c))"
  "keeps a c \<Longrightarrow> keeps a (SetOperationalMode m c)"
  by (auto simp: timer_cancelled_def TriggerDeferredHeal_def start_heal_def resumeForkHealingJob_def save_job_def
      ResetSyncRetryAttempts_def IncrementSyncRetryAttempts_def SetOperationalMode_def Let_def
      split: prod.split option.split intro!: keeps_intros intro: keeps_bind_helpers)

context contract
begin

lemma exec_rel:
  assumes "coord_exec D n inp c = Some c'"
  shows "R c c'"
proof (cases inp)
  case (Replay blobs)
  then show ?thesis using assms re.replay_blobs_rel [of n blobs c]
    by (auto simp: ReplayEnvelopesDetailed_def split: if_splits)
qed (use assms in \<open>auto simp: ObservePeerAlive_def propose_def intro: kept keeps_intros re.receive_rel
      re.timer_rel re.view_change_rel liveness_rel own_announce_rel observe_rel
      re.propose_rel re.AddMember_rel re.RemoveMember_rel\<close>)

lemma reaches_rel: "reaches D a c \<Longrightarrow> R a c"
  by (induction rule: reaches.induct) (auto intro: R_trans exec_rel)

end

lemma load_coord_history:
  assumes "load_coord D c = (Inr (), c')" "c_historyHash c = []"
  shows "c_historyHash c' \<noteq> [] \<and> gget (c_historyChain c') (c_epoch c') = Some (c_historyHash c') \<or> c_historyHash c' = []"
    and "c_view c' = c_view c"
  using assms by (auto simp: load_coord_def on_db_def Let_def split: prod.splits sum.splits if_splits option.splits)

lemma Start_ok:
  assumes run: "Start D sub c = (Inr (), c')" and h: "hash_ok D" and fresh: "c_historyHash c = []" "view_ok (c_view c)"
  shows "coord_ok D c'"
proof -
  obtain c1 where g: "load_group D c = (Inr (), c1)" and v1: "c_view c1 = c_view c" "c_historyHash c1 = []"
    using run fresh by (auto simp: Start_def load_group_def on_db_def split: if_splits prod.splits sum.splits)
  obtain c2 where l: "load_coord D c1 = (Inr (), c2)"
    using run by (auto simp: Start_def g split: if_splits prod.splits sum.splits)
  note c2 = load_coord_history [OF l v1(2)]
  let ?c3 = "seed_history D c2"
  have "coord_ok D (install_components D ?c3)"
    using seed_history_eq(2) [of c2 D] c2 v1 fresh initialHistoryHash_nonempty [OF h]
    by (intro installed_ok) (auto simp: seed_history_eq(1,3,6))
  then have "coord_ok D (emit e ((install_components D ?c3)\<lparr>c_started := True, c_startedAt := t\<rparr>))" for e t
    by (simp add: coord_ok_def emit_def)
  then have "coord_ok D (resume_on_start D (emit e ((install_components D ?c3)\<lparr>c_started := True, c_startedAt := t\<rparr>)))" for e t
    by (rule keeps_coord_ok [OF conjunct1 [OF keeps_resume]])
  then show ?thesis using run
    by (auto simp: Start_def g l Let_def split: if_splits sum.splits)
qed

lemma healing_kept [simp]:
  "c_healing (snd (load_group D c)) = c_healing c" "c_healing (snd (load_coord D c)) = c_healing c"
  "c_healing (seed_history D c) = c_healing c" "c_healing (install_components D c) = c_healing c"
  "c_healing (resume_on_start D c) = c_healing c"
  by (simp_all add: load_group_def load_coord_def seed_history_def install_components_def resume_on_start_def
      emit_def on_db_def Let_def case_prod_beta split: sum.split option.split)

lemma Start_shape:
  assumes run: "Start D sub c = (Inr (), c')"
  obtains c3 where "c_healing c3 = c_healing c"
    "c' = resume_on_start D (emit (Subscribe (GroupTopic (d_groupID D)))
      ((install_components D c3)\<lparr>c_started := True, c_startedAt := c_now (install_components D c3)\<rparr>))"
proof -
  obtain c1 c2 where g: "load_group D c = (Inr (), c1)" and l: "load_coord D c1 = (Inr (), c2)"
    using run by (auto simp: Start_def split: if_splits prod.splits sum.splits)
  show thesis
  proof (rule that [of "seed_history D c2"])
    show "c_healing (seed_history D c2) = c_healing c"
      using healing_kept(1) [of D c] healing_kept(2) [of D c1] by (simp add: g l)
  qed (use run in \<open>auto simp: Start_def g l Let_def split: if_splits sum.splits\<close>)
qed

lemma Start_flags:
  assumes "Start D sub c = (Inr (), c')"
  shows "c_started c'" "c_healing c' = c_healing c" "c_et c' = Some (NewEpochTracker (c_epoch c') (c_treeHash c'))"
proof -
  from Start_shape [OF assms] obtain c3 where h: "c_healing c3 = c_healing c"
    and c': "c' = resume_on_start D (emit (Subscribe (GroupTopic (d_groupID D)))
      ((install_components D c3)\<lparr>c_started := True, c_startedAt := c_now (install_components D c3)\<rparr>))" .
  let ?c4 = "emit (Subscribe (GroupTopic (d_groupID D)))
      ((install_components D c3)\<lparr>c_started := True, c_startedAt := c_now (install_components D c3)\<rparr>)"
  have k: "keeps ?c4 c'" "c_treeHash c' = c_treeHash ?c4" using keeps_resume [of ?c4 D] by (simp_all add: c')
  show "c_started c'" using k by (simp add: keeps_def emit_def)
  show "c_healing c' = c_healing c" by (simp add: c' h emit_def)
  have "c_et ?c4 = Some (NewEpochTracker (c_epoch ?c4) (c_treeHash ?c4))"
    by (simp add: emit_def install_components_def Let_def split: sum.split)
  then show "c_et c' = Some (NewEpochTracker (c_epoch c') (c_treeHash c'))" using k by (simp add: keeps_def)
qed

lemma started_started: "started D c \<Longrightarrow> c_started c"
  by (induction rule: started.induct) (auto dest: Start_flags)

lemma started_ok: "started D c \<Longrightarrow> hash_ok D \<Longrightarrow> coord_ok D c"
proof (induction rule: started.induct)
  case (from_store members hlc now db c sub c')
  then show ?case using NewCoordinator_fresh [of D members hlc now db c] Start_ok by blast
next
  case (created members hlc now db c c1 sub c')
  have "keeps c c1 \<or> c_historyHash c1 = c_historyHash c \<and> c_view c1 = c_view c"
    using created.hyps(2)
    by (auto simp: CreateGroup_def persistCoordStateLocked_def engine_def on_db_def Let_def
        split: if_splits prod.splits sum.splits)
  then show ?case using created NewCoordinator_fresh [of D members hlc now db c] Start_ok
    by (metis keeps_def)
next
  case (joined members hlc now db c sub s e th c')
  then show ?case using NewCoordinator_fresh [of D members hlc now db c] Start_ok [OF joined.hyps(2)]
    by (simp add: InitializeGroup_def)
qed


lemma sample_started:
  assumes "Validate (d_cfg D) = Inr ()" "d_groupID D = ''g''" "hash_ok D"
  shows "\<exists>a. started D a \<and> c_epoch a = 5 \<and> \<not> c_healing a \<and> c_buf a = 0"
proof -
  obtain c where c: "NewCoordinator D [''B''] None 1000000000 sample_stored = Inr c" "\<not> c_healing c"
    using assms(1) by (simp add: NewCoordinator_def)
  have row: "gget (db_groups sample_stored) (d_groupID D) = Some (inserted_group 0 (sample_group\<lparr>gr_Epoch := 5\<rparr>))"
    using assms(2) by (simp add: sample_stored_def gget_Cons)
  have "calm 2 sample_stored" by (simp add: sample_stored_def empty_db_def calm_def)
  from Start_from_db [OF c(1) this assms(3) row]
  obtain a where a: "Start D (Inr ()) c = (Inr (), a)" "c_epoch a = 5" by (auto simp: inserted_group_def)
  then show ?thesis using Start_flags [OF a(1)] c
    by (auto simp: c_buf_def NewEpochTracker_def FutureBufferSize_def intro: started.from_store)
qed

lemma sample_config: "Validate (d_cfg sample_deps) = Inr ()" "d_groupID sample_deps = ''g''"
  by (simp_all add: sample_deps_def Validate_Test)


section \<open>What equal history hashes mean\<close>

text \<open>The inputs that are hashed along a chain that starts at \<open>r\<close>.\<close>

fun chain_inputs :: "Deps \<Rightarrow> bytes \<Rightarrow> bytes list \<Rightarrow> bytes set" where
  "chain_inputs D r [] = {}"
| "chain_inputs D r (h # hs) = insert (r @ h) (chain_inputs D (computeHistoryHash D r h) hs)"

lemma chain_inputs_snoc:
  "chain_inputs D r (hs @ [h]) = insert (foldl (computeHistoryHash D) r hs @ h) (chain_inputs D r hs)"
  by (induction hs arbitrary: r) auto

lemma chain_length: "hash_ok D \<Longrightarrow> hs \<noteq> [] \<Longrightarrow> length (foldl (computeHistoryHash D) r hs) = 32"
  by (cases hs rule: rev_cases) (auto simp: computeHistoryHash_def hash_ok_def)

lemma same_chain:
  assumes "hash_ok D" and "length hs = length hs'"
    and "foldl (computeHistoryHash D) r hs = foldl (computeHistoryHash D) r hs'"
    and "inj_on (d_sha256 D) (chain_inputs D r hs \<union> chain_inputs D r hs')"
  shows "hs = hs'"
  using assms(2-4)
proof (induction hs arbitrary: hs' rule: rev_induct)
  case (snoc h hs)
  then obtain h' gs where hs': "hs' = gs @ [h']" by (cases hs' rule: rev_cases) auto
  let ?f = "foldl (computeHistoryHash D) r"
  have "computeHistoryHash D (?f hs) h = computeHistoryHash D (?f gs) h'" using snoc.prems(2) by (simp add: hs')
  then have "d_sha256 D (?f hs @ h) = d_sha256 D (?f gs @ h')" by (subst (asm) (1 2) computeHistoryHash_def)
  moreover have "?f hs @ h \<in> chain_inputs D r (hs @ [h]) \<union> chain_inputs D r hs'"
    "?f gs @ h' \<in> chain_inputs D r (hs @ [h]) \<union> chain_inputs D r hs'" by (simp_all add: hs' chain_inputs_snoc)
  ultimately have "?f hs @ h = ?f gs @ h'" by (rule inj_onD [OF snoc.prems(3)])
  moreover have len: "length hs = length gs" using snoc.prems(1) by (simp add: hs')
  moreover have "length (?f hs) = length (?f gs)"
  proof (cases "hs = []")
    case False
    then have "gs \<noteq> []" using len by auto
    then show ?thesis using False chain_length [OF assms(1)] by simp
  qed (use len in simp)
  ultimately have "?f hs = ?f gs" "h = h'" by (auto simp: append_eq_append_conv)
  moreover have "inj_on (d_sha256 D) (chain_inputs D r hs \<union> chain_inputs D r gs)"
    using snoc.prems(3) by (rule inj_on_subset) (auto simp: hs' chain_inputs_snoc)
  ultimately show ?case using snoc.IH [of gs] len by (simp add: hs')
qed simp



section \<open>Revocation\<close>

text \<open>
  C14: once a node learned that it was removed, nothing in its run takes the revocation back, and every request
  of its application (a message, a proposal, an addition, a removal) is refused without a change of state.
\<close>

theorem revocation_final:
  assumes "started D a" and "hash_ok D" and "reaches D a b" and "c_accessRevoked b" and "reaches D b c"
  shows "c_accessRevoked c \<and>
    sendMessage D pt echo c =
      (Inl (if c_healing c then ErrMsg ''fork healing in progress'' else ErrAccessRevoked), c) \<and>
    propose D k t data c = Some (Inl ErrAccessRevoked, c) \<and>
    AddMember D k add_req c = Some (Inl ErrAccessRevoked, c) \<and>
    RemoveMemberWithPeer D k rem_req c = Some (Inl ErrAccessRevoked, c)"
proof -
  obtain hs where b: "coord_ok D b" "advances D hs a b"
    using started_ok [OF assms(1,2)] ev.reaches_rel [OF assms(3)] assms(2) by (auto simp: evolves_def)
  then obtain hs' where c: "advances D hs' b c"
    using ev.reaches_rel [OF assms(5)] assms(2) by (auto simp: evolves_def)
  have "c_accessRevoked c" "c_started c"
    using b(2) c assms(4) started_started [OF assms(1)] by (simp_all add: advances_def)
  then show ?thesis
    by (simp add: sendMessage_def propose_def proposeLockedWithMetadata_def AddMember_def RemoveMemberWithPeer_def
        updateLocalAccessRevocationLocked_def)
qed

definition expelled_deps :: Deps where
  "expelled_deps = sample_deps\<lparr>d_signingKey := replicate 32 1, d_seedPublic := (\<lambda>b. [5]),
     d_mls := sample_engine\<lparr>mls_HasMember := (\<lambda>n s i. Inr False)\<rparr>\<rparr>"

theorem revocation_final_witness:
  "\<exists>b. c_accessRevoked b \<and> propose expelled_deps (reenter expelled_deps 1) ProposalAdd [7] b = Some (Inl ErrAccessRevoked, b)"
proof -
  have h: "hash_ok expelled_deps" by (simp add: hash_ok_def expelled_deps_def sample_deps_def)
  obtain a where a: "started expelled_deps a" "\<not> c_healing a"
    using sample_started [OF _ _ h] sample_config by (auto simp: expelled_deps_def)
  let ?b = "snd (sendMessage expelled_deps [1] '''' a)"
  have r: "reaches expelled_deps a ?b"
    by (rule reaches.step [OF reaches.stay, where n = 0 and inp = "SendApplication [1] ''''"]) simp
  have "c_accessRevoked (updateLocalAccessRevocationLocked expelled_deps (c_groupState a) (c_epoch a) a)"
    by (simp add: updateLocalAccessRevocationLocked_def localIdentity_def deriveIdentityFromSigningKey_def engine_def
        emit_def expelled_deps_def)
  then have "c_accessRevoked ?b" using a started_started [OF a(1)] by (simp add: sendMessage_def Let_def)
  from revocation_final [OF a(1) h r this reaches.stay] this show ?thesis by blast
qed

section \<open>Every call returns\<close>

lemma started_served: "started D c \<Longrightarrow> served D c"
  by (induction rule: started.induct)
    (auto dest!: Start_flags(3) simp: served_def coherent_def tracker_ok_def NewEpochTracker_def)

text \<open>How many messages a call can add to the buffer.\<close>

fun incoming :: "input \<Rightarrow> nat" where
  "incoming (Replay blobs) = max 1 (length blobs)"
| "incoming inp = 1"



end
