(* ===== verification/Onboarding.thy ===== *)
theory Onboarding
  imports Storage
begin

text \<open>
  How a node becomes a member of the network: the tokens and bundles the administrator signs
  (\<^verbatim>\<open>admin/token.go\<close>, \<^verbatim>\<open>admin/admin.go\<close>), the rows a node keeps of itself (\<^verbatim>\<open>adapter/store/db_config.go\<close>,
  \<^verbatim>\<open>db_identity.go\<close>), the import of a bundle (\<^verbatim>\<open>adapter/p2p/auth.go\<close>, \<^verbatim>\<open>identity.go\<close>) and the onboarding state
  (\<^verbatim>\<open>service/app_state.go\<close>). Ed25519, AES-GCM, Argon2, JSON and libp2p's keys are parameters; a call of the random
  source is numbered. The lemmas show which bundles are imported, that what an administrator issues is
  imported by the node it names and by no other, and that a stored administrator key is recovered.
\<close>

section \<open>Parameters\<close>

record InvitationToken =
  tk_Version :: int
  tk_DisplayName :: string
  tk_PeerID :: string
  tk_PublicKey :: bytes
  tk_IssuedAt :: int
  tk_ExpiresAt :: int
  tk_Signature :: bytes

record InvitationBundle =
  bd_Token :: "InvitationToken option"
  bd_BootstrapAddr :: string
  bd_RootPublicKey :: bytes

record tokenPayload =
  tp_Version :: int
  tp_DisplayName :: string
  tp_PeerID :: string
  tp_PublicKey :: bytes
  tp_IssuedAt :: int
  tp_ExpiresAt :: int

record AuthDeps =
  a_sign :: "bytes \<Rightarrow> bytes \<Rightarrow> bytes"
  a_verify :: "bytes \<Rightarrow> bytes \<Rightarrow> bytes \<Rightarrow> bool"
  a_public :: "bytes \<Rightarrow> bytes"
  a_generate :: "nat \<Rightarrow> error + bytes \<times> bytes"
  a_tokenJSON :: "tokenPayload \<Rightarrow> bytes option"
  a_bundleJSON :: "InvitationBundle \<Rightarrow> error + bytes"
  a_bundleParse :: "bytes \<Rightarrow> error + InvitationBundle"
  a_argon :: "string \<Rightarrow> bytes \<Rightarrow> bytes"
  a_seal :: "bytes \<Rightarrow> bytes \<Rightarrow> bytes \<Rightarrow> bytes"
  a_open :: "bytes \<Rightarrow> bytes \<Rightarrow> bytes \<Rightarrow> error + bytes"
  a_random :: "nat \<Rightarrow> nat \<Rightarrow> error + bytes"
  a_libp2pParse :: "bytes \<Rightarrow> error + bytes"
  a_libp2pGenerate :: "nat \<Rightarrow> error + bytes"
  a_libp2pMarshal :: "bytes \<Rightarrow> error + bytes"
  a_libp2pID :: "bytes \<Rightarrow> error + peer_id"
  a_pidString :: "peer_id \<Rightarrow> string"

text \<open>
  Documented behaviour: a signature is not empty and verifies under the public key, which is not empty;
  what was sealed is opened with the same key and nonce; Argon2 gives a key of the length asked for and the
  random source as many bytes as asked for; a bundle survives JSON.
\<close>

definition ed25519_ok :: "AuthDeps \<Rightarrow> bool" where
  "ed25519_ok A \<longleftrightarrow> (\<forall>sk m. a_sign A sk m \<noteq> [] \<and> a_public A sk \<noteq> [] \<and> a_verify A (a_public A sk) m (a_sign A sk m))"

definition gcm_ok :: "AuthDeps \<Rightarrow> bool" where
  "gcm_ok A \<longleftrightarrow> (\<forall>k n p. a_open A k n (a_seal A k n p) = Inr p \<and> a_seal A k n p \<noteq> []) \<and>
    (\<forall>pass salt. length (a_argon A pass salt) = 32) \<and> (\<forall>i n r. a_random A i n = Inr r \<longrightarrow> length r = n)"

definition bundle_codec_ok :: "AuthDeps \<Rightarrow> bool" where
  "bundle_codec_ok A \<longleftrightarrow> (\<forall>b raw. a_bundleJSON A b = Inr raw \<longrightarrow> a_bundleParse A raw = Inr b)"

section \<open>Tokens\<close>

definition TokenVersion :: int where
  "TokenVersion = 1"

definition TokenValidityDays :: int where
  "TokenValidityDays = 365"

definition signingPayload :: "AuthDeps \<Rightarrow> InvitationToken \<Rightarrow> bytes option" where
  "signingPayload A t = a_tokenJSON A
    \<lparr>tp_Version = tk_Version t, tp_DisplayName = tk_DisplayName t, tp_PeerID = tk_PeerID t,
     tp_PublicKey = tk_PublicKey t, tp_IssuedAt = tk_IssuedAt t, tp_ExpiresAt = tk_ExpiresAt t\<rparr>"

definition SignToken :: "AuthDeps \<Rightarrow> int \<Rightarrow> bytes \<Rightarrow> string \<Rightarrow> string \<Rightarrow> string \<Rightarrow> error + InvitationToken" where
  "SignToken A now privKey displayName peerID pubKeyHex =
    (if displayName = '''' then Inl (ErrMsg ''display_name is required'')
     else if peerID = '''' then Inl (ErrMsg ''peer_id is required'')
     else case DecodeHex pubKeyHex of
         None \<Rightarrow> Inl (ErrMsg ''invalid pubKeyHex'')
       | Some pubKey \<Rightarrow>
          if pubKey = [] then Inl (ErrMsg ''public_key is required'')
          else let token = \<lparr>tk_Version = TokenVersion, tk_DisplayName = displayName, tk_PeerID = peerID,
                     tk_PublicKey = pubKey, tk_IssuedAt = now,
                     tk_ExpiresAt = wrap64 (now + TokenValidityDays * 24 * 60 * 60), tk_Signature = []\<rparr>
               in case signingPayload A token of
                   None \<Rightarrow> Inl (ErrMsg ''failed to marshal signing payload'')
                 | Some payload \<Rightarrow> Inr (token\<lparr>tk_Signature := a_sign A privKey payload\<rparr>))"

definition VerifyToken :: "AuthDeps \<Rightarrow> InvitationToken option \<Rightarrow> bytes \<Rightarrow> bool" where
  "VerifyToken A token rootPubKey =
    (case token of
       None \<Rightarrow> False
     | Some t \<Rightarrow>
        if tk_Signature t = [] \<or> rootPubKey = [] then False
        else case signingPayload A t of
            None \<Rightarrow> False
          | Some payload \<Rightarrow> a_verify A rootPubKey payload (tk_Signature t))"

definition SerializeBundle :: "AuthDeps \<Rightarrow> InvitationBundle \<Rightarrow> error + bytes" where
  "SerializeBundle A b = a_bundleJSON A b"

definition DeserializeBundle :: "AuthDeps \<Rightarrow> bytes \<Rightarrow> error + InvitationBundle" where
  "DeserializeBundle A data =
    (case a_bundleParse A data of
       Inl err \<Rightarrow> Inl (ErrWrap ''invalid bundle format'' err)
     | Inr b \<Rightarrow>
        (case bd_Token b of
           None \<Rightarrow> Inl (ErrMsg ''bundle missing token'')
         | Some t \<Rightarrow>
            if tk_PeerID t = '''' then Inl (ErrMsg ''bundle token missing peer_id'')
            else if bd_BootstrapAddr b = '''' then Inl (ErrMsg ''bundle missing bootstrap_addr'')
            else if bd_RootPublicKey b = [] then Inl (ErrMsg ''bundle missing root_public_key'')
            else Inr b))"

section \<open>Rows\<close>

record MLSIdentity =
  mi_DisplayName :: string
  mi_PublicKey :: bytes
  mi_SigningKeyPrivate :: bytes
  mi_Credential :: bytes

record StoredAuthBundle =
  ab_DisplayName :: string
  ab_PeerID :: string
  ab_PublicKey :: bytes
  ab_TokenIssuedAt :: int
  ab_TokenExpiresAt :: int
  ab_TokenSignature :: bytes
  ab_BootstrapAddr :: string
  ab_RootPublicKey :: bytes

text \<open>The tables used here, with the faults of the next statements. A key that is stored is not nil.\<close>

record AppDB =
  ad_config :: "(string, bytes) gomap"
  ad_identity :: "MLSIdentity option"
  ad_bundle :: "StoredAuthBundle option"
  ad_faults :: "bool list"

definition app_io :: "(AppDB \<Rightarrow> (error + 'a) \<times> AppDB) \<Rightarrow> AppDB \<Rightarrow> (error + 'a) \<times> AppDB" where
  "app_io f db = (let db1 = db\<lparr>ad_faults := tl (ad_faults db)\<rparr> in
    if take 1 (ad_faults db) = [True] then (Inl ErrDB, db1) else f db1)"

definition SetConfig :: "string \<Rightarrow> bytes \<Rightarrow> AppDB \<Rightarrow> (error + unit) \<times> AppDB" where
  "SetConfig key val = app_io (\<lambda>db. (Inr (), db\<lparr>ad_config := gput key val (ad_config db)\<rparr>))"

definition GetConfig :: "string \<Rightarrow> AppDB \<Rightarrow> (error + bytes) \<times> AppDB" where
  "GetConfig key = app_io (\<lambda>db.
    (case gget (ad_config db) key of None \<Rightarrow> Inl ErrNoRows | Some val \<Rightarrow> Inr val, db))"

definition HasConfig :: "string \<Rightarrow> AppDB \<Rightarrow> (error + bool) \<times> AppDB" where
  "HasConfig key = app_io (\<lambda>db. (Inr (ghas (ad_config db) key), db))"

definition DeleteConfig :: "string \<Rightarrow> AppDB \<Rightarrow> (error + unit) \<times> AppDB" where
  "DeleteConfig key = app_io (\<lambda>db. (Inr (), db\<lparr>ad_config := gdel key (ad_config db)\<rparr>))"

fun IsNotFound :: "error \<Rightarrow> bool" where
  "IsNotFound ErrNoRows = True"
| "IsNotFound (ErrWrap msg err) = IsNotFound err"
| "IsNotFound err = False"

definition SaveMLSIdentity :: "MLSIdentity \<Rightarrow> AppDB \<Rightarrow> (error + unit) \<times> AppDB" where
  "SaveMLSIdentity i = app_io (\<lambda>db. (Inr (), db\<lparr>ad_identity := Some i\<rparr>))"

definition GetMLSIdentity :: "AppDB \<Rightarrow> (error + MLSIdentity) \<times> AppDB" where
  "GetMLSIdentity = app_io (\<lambda>db.
    (case ad_identity db of None \<Rightarrow> Inl ErrNoRows | Some i \<Rightarrow> Inr i, db))"

definition UpdateMLSDisplayName :: "string \<Rightarrow> AppDB \<Rightarrow> (error + unit) \<times> AppDB" where
  "UpdateMLSDisplayName displayName = app_io (\<lambda>db.
    (Inr (), db\<lparr>ad_identity := map_option (\<lambda>i. i\<lparr>mi_DisplayName := displayName,
       mi_Credential := string_bytes displayName\<rparr>) (ad_identity db)\<rparr>))"

definition HasMLSIdentity :: "AppDB \<Rightarrow> (error + bool) \<times> AppDB" where
  "HasMLSIdentity = app_io (\<lambda>db. (Inr (ad_identity db \<noteq> None), db))"

definition SaveAuthBundle :: "StoredAuthBundle \<Rightarrow> AppDB \<Rightarrow> (error + unit) \<times> AppDB" where
  "SaveAuthBundle b = app_io (\<lambda>db. (Inr (), db\<lparr>ad_bundle := Some b\<rparr>))"

definition GetAuthBundle :: "AppDB \<Rightarrow> (error + StoredAuthBundle) \<times> AppDB" where
  "GetAuthBundle = app_io (\<lambda>db.
    (case ad_bundle db of None \<Rightarrow> Inl ErrNoRows | Some b \<Rightarrow> Inr b, db))"

definition HasAuthBundle :: "AppDB \<Rightarrow> (error + bool) \<times> AppDB" where
  "HasAuthBundle = app_io (\<lambda>db. (Inr (ad_bundle db \<noteq> None), db))"

section \<open>The administrator's key\<close>

definition AdminKeyConfigKey :: string where
  "AdminKeyConfigKey = ''admin_root_private_key''"

definition deriveKey :: "AuthDeps \<Rightarrow> string \<Rightarrow> bytes \<Rightarrow> bytes" where
  "deriveKey A passphrase salt = a_argon A passphrase salt"

text \<open>\<^verbatim>\<open>aes.NewCipher\<close> refuses keys of other lengths; \<^verbatim>\<open>n\<close> numbers the calls of the random source.\<close>

definition NewCipher_ok :: "bytes \<Rightarrow> bool" where
  "NewCipher_ok key \<longleftrightarrow> length key = 16 \<or> length key = 24 \<or> length key = 32"

definition encryptKey :: "AuthDeps \<Rightarrow> nat \<Rightarrow> bytes \<Rightarrow> string \<Rightarrow> error + bytes" where
  "encryptKey A n plaintext passphrase =
    (case a_random A n 16 of
       Inl err \<Rightarrow> Inl err
     | Inr salt \<Rightarrow>
        let key = deriveKey A passphrase salt in
        if \<not> NewCipher_ok key then Inl (ErrMsg ''invalid key size'')
        else case a_random A (n + 1) 12 of
            Inl err \<Rightarrow> Inl err
          | Inr nonce \<Rightarrow> Inr (salt @ nonce @ a_seal A key nonce plaintext))"

definition decryptKey :: "AuthDeps \<Rightarrow> bytes \<Rightarrow> string \<Rightarrow> error + bytes" where
  "decryptKey A data passphrase =
    (if length data < 16 + 12 + 1 then Inl (ErrMsg ''encrypted data too short'')
     else let salt = take 16 data; nonce = take 12 (drop 16 data); ciphertext = drop 28 data;
              key = deriveKey A passphrase salt
          in if \<not> NewCipher_ok key then Inl (ErrMsg ''invalid key size'')
             else case a_open A key nonce ciphertext of
                 Inl err \<Rightarrow> Inl (ErrWrap ''decryption failed (wrong passphrase?)'' err)
               | Inr plaintext \<Rightarrow> Inr plaintext)"

definition SetupAdminKey :: "AuthDeps \<Rightarrow> nat \<Rightarrow> string \<Rightarrow> AppDB \<Rightarrow> (error + bytes) \<times> AppDB" where
  "SetupAdminKey A n passphrase db =
    (case HasConfig AdminKeyConfigKey db of
       (Inl err, db1) \<Rightarrow> (Inl err, db1)
     | (Inr True, db1) \<Rightarrow> (Inl (ErrMsg ''admin key already exists; use passphrase to unlock it''), db1)
     | (Inr False, db1) \<Rightarrow>
        (case a_generate A n of
           Inl err \<Rightarrow> (Inl (ErrWrap ''failed to generate root key pair'' err), db1)
         | Inr (pubKey, privKey) \<Rightarrow>
            (case encryptKey A (n + 1) privKey passphrase of
               Inl err \<Rightarrow> (Inl (ErrWrap ''failed to encrypt admin key'' err), db1)
             | Inr encrypted \<Rightarrow>
                (case SetConfig AdminKeyConfigKey encrypted db1 of
                   (Inl err, db2) \<Rightarrow> (Inl (ErrWrap ''failed to store admin key'' err), db2)
                 | (Inr _, db2) \<Rightarrow> (Inr pubKey, db2)))))"

definition UnlockAdminKey :: "AuthDeps \<Rightarrow> string \<Rightarrow> AppDB \<Rightarrow> (error + bytes) \<times> AppDB" where
  "UnlockAdminKey A passphrase db =
    (case GetConfig AdminKeyConfigKey db of
       (Inl err, db1) \<Rightarrow> (Inl (if IsNotFound err then ErrMsg ''no admin key found; run --admin-setup first'' else err), db1)
     | (Inr encrypted, db1) \<Rightarrow>
        (case decryptKey A encrypted passphrase of
           Inl err \<Rightarrow> (Inl (ErrWrap ''failed to decrypt admin key (wrong passphrase?)'' err), db1)
         | Inr privKey \<Rightarrow> (Inr privKey, db1)))"

definition CreateInvitationBundle ::
  "AuthDeps \<Rightarrow> int \<Rightarrow> bytes \<Rightarrow> string \<Rightarrow> string \<Rightarrow> string \<Rightarrow> string \<Rightarrow> error + bytes" where
  "CreateInvitationBundle A now privKey displayName peerID pubKeyHex bootstrapAddr =
    (if bootstrapAddr = '''' then Inl (ErrMsg ''bootstrap_addr is required'')
     else case SignToken A now privKey displayName peerID pubKeyHex of
         Inl err \<Rightarrow> Inl (ErrWrap ''failed to sign token'' err)
       | Inr token \<Rightarrow> SerializeBundle A
           \<lparr>bd_Token = Some token, bd_BootstrapAddr = bootstrapAddr, bd_RootPublicKey = a_public A privKey\<rparr>)"

section \<open>The node\<close>

text \<open>\<^verbatim>\<open>resp\<close> is the answer of the engine to \<^verbatim>\<open>GenerateIdentity\<close>: public key, signing key, credential.\<close>

definition OnboardNewUser :: "error + bytes \<times> bytes \<times> bytes \<Rightarrow> AppDB \<Rightarrow> (error + unit) \<times> AppDB" where
  "OnboardNewUser resp db =
    (case resp of
       Inl err \<Rightarrow> (Inl (ErrWrap ''Rust GenerateIdentity failed'' err), db)
     | Inr (publicKey, signingKey, credential) \<Rightarrow>
        if publicKey = [] \<or> signingKey = [] then (Inl (ErrMsg ''Rust engine returned empty key material''), db)
        else SaveMLSIdentity \<lparr>mi_DisplayName = '''', mi_PublicKey = publicKey, mi_SigningKeyPrivate = signingKey,
               mi_Credential = credential\<rparr> db)"

record OnboardingInfo =
  oi_PeerID :: string
  oi_PublicKeyHex :: string

definition GetOnboardingInfo :: "AuthDeps \<Rightarrow> bytes \<Rightarrow> AppDB \<Rightarrow> (error + OnboardingInfo) \<times> AppDB" where
  "GetOnboardingInfo A libp2pPrivKey db =
    (case a_libp2pID A libp2pPrivKey of
       Inl err \<Rightarrow> (Inl (ErrWrap ''failed to derive PeerID'' err), db)
     | Inr pid \<Rightarrow>
        (case GetMLSIdentity db of
           (Inl err, db1) \<Rightarrow> (Inl (ErrWrap ''failed to load MLS identity'' err), db1)
         | (Inr i, db1) \<Rightarrow> (Inr \<lparr>oi_PeerID = a_pidString A pid, oi_PublicKeyHex = hex (mi_PublicKey i)\<rparr>, db1)))"

definition stored_bundle :: "InvitationToken \<Rightarrow> InvitationBundle \<Rightarrow> StoredAuthBundle" where
  "stored_bundle t bundle =
    \<lparr>ab_DisplayName = tk_DisplayName t, ab_PeerID = tk_PeerID t, ab_PublicKey = tk_PublicKey t,
     ab_TokenIssuedAt = tk_IssuedAt t, ab_TokenExpiresAt = tk_ExpiresAt t, ab_TokenSignature = tk_Signature t,
     ab_BootstrapAddr = bd_BootstrapAddr bundle, ab_RootPublicKey = bd_RootPublicKey bundle\<rparr>"

definition ImportInvitationBundle :: "AuthDeps \<Rightarrow> int \<Rightarrow> bytes \<Rightarrow> bytes \<Rightarrow> AppDB \<Rightarrow> (error + unit) \<times> AppDB" where
  "ImportInvitationBundle A now libp2pPrivKey bundleJSON db =
    (case DeserializeBundle A bundleJSON of
       Inl err \<Rightarrow> (Inl (ErrWrap ''failed to parse bundle'' err), db)
     | Inr bundle \<Rightarrow>
        let t = the (bd_Token bundle) in
        if \<not> VerifyToken A (bd_Token bundle) (bd_RootPublicKey bundle)
        then (Inl (ErrMsg ''invalid Admin signature on token''), db)
        else if now > tk_ExpiresAt t then (Inl (ErrMsg ''token has expired''), db)
        else case a_libp2pID A libp2pPrivKey of
            Inl err \<Rightarrow> (Inl (ErrWrap ''failed to derive local PeerID'' err), db)
          | Inr myPeerID \<Rightarrow>
             if tk_PeerID t \<noteq> a_pidString A myPeerID then (Inl (ErrMsg ''token PeerID mismatch''), db)
             else case GetMLSIdentity db of
                 (Inl err, db1) \<Rightarrow> (Inl (ErrWrap ''failed to load local MLS identity'' err), db1)
               | (Inr i, db1) \<Rightarrow>
                  if tk_PublicKey t \<noteq> mi_PublicKey i
                  then (Inl (ErrMsg ''token PublicKey does not match local MLS identity''), db1)
                  else case SaveAuthBundle (stored_bundle t bundle) db1 of
                      (Inl err, db2) \<Rightarrow> (Inl err, db2)
                    | (Inr _, db2) \<Rightarrow> UpdateMLSDisplayName (tk_DisplayName t) db2)"

definition BuildLocalToken :: "StoredAuthBundle \<Rightarrow> InvitationToken" where
  "BuildLocalToken b =
    \<lparr>tk_Version = TokenVersion, tk_DisplayName = ab_DisplayName b, tk_PeerID = ab_PeerID b,
     tk_PublicKey = ab_PublicKey b, tk_IssuedAt = ab_TokenIssuedAt b, tk_ExpiresAt = ab_TokenExpiresAt b,
     tk_Signature = ab_TokenSignature b\<rparr>"

definition Libp2pPrivKeyConfigKey :: string where
  "Libp2pPrivKeyConfigKey = ''libp2p_priv_key''"

definition GetOrCreateIdentity :: "AuthDeps \<Rightarrow> nat \<Rightarrow> AppDB \<Rightarrow> (error + bytes) \<times> AppDB" where
  "GetOrCreateIdentity A n db =
    (case GetConfig Libp2pPrivKeyConfigKey db of
       (Inr privKeyBytes, db1) \<Rightarrow>
         (case a_libp2pParse A privKeyBytes of
            Inl err \<Rightarrow> (Inl (ErrWrap ''failed to unmarshal Libp2p private key'' err), db1)
          | Inr privKey \<Rightarrow> (Inr privKey, db1))
     | (Inl err, db1) \<Rightarrow>
         if \<not> IsNotFound err then (Inl (ErrWrap ''failed to query Libp2p identity'' err), db1)
         else case a_libp2pGenerate A n of
             Inl err \<Rightarrow> (Inl (ErrWrap ''failed to generate Libp2p key pair'' err), db1)
           | Inr priv \<Rightarrow>
              (case a_libp2pMarshal A priv of
                 Inl err \<Rightarrow> (Inl (ErrWrap ''failed to marshal Libp2p private key'' err), db1)
               | Inr rawPriv \<Rightarrow>
                  (case SetConfig Libp2pPrivKeyConfigKey rawPriv db1 of
                     (Inl err, db2) \<Rightarrow> (Inl (ErrWrap ''failed to persist Libp2p private key'' err), db2)
                   | (Inr _, db2) \<Rightarrow> (Inr priv, db2))))"

datatype AppState = StateUninitialized | StateAwaitingBundle | StateAuthorized | StateAdminReady

text \<open>The state is returned beside the error, if there is one.\<close>

definition DetermineAppState :: "int \<Rightarrow> AppDB \<Rightarrow> (AppState \<times> error option) \<times> AppDB" where
  "DetermineAppState now db =
    (case HasMLSIdentity db of
       (Inl err, db1) \<Rightarrow> ((StateUninitialized, Some err), db1)
     | (Inr False, db1) \<Rightarrow> ((StateUninitialized, None), db1)
     | (Inr True, db1) \<Rightarrow>
        (case HasAuthBundle db1 of
           (Inl err, db2) \<Rightarrow> ((StateAwaitingBundle, Some err), db2)
         | (Inr False, db2) \<Rightarrow> ((StateAwaitingBundle, None), db2)
         | (Inr True, db2) \<Rightarrow>
            (case GetAuthBundle db2 of
               (Inl err, db3) \<Rightarrow> ((StateAwaitingBundle, Some err), db3)
             | (Inr bundle, db3) \<Rightarrow>
                if now > ab_TokenExpiresAt bundle then ((StateAwaitingBundle, None), db3)
                else case HasConfig AdminKeyConfigKey db3 of
                    (Inl err, db4) \<Rightarrow> ((StateAuthorized, Some err), db4)
                  | (Inr True, db4) \<Rightarrow> ((StateAdminReady, None), db4)
                  | (Inr False, db4) \<Rightarrow> ((StateAuthorized, None), db4))))"

section \<open>Which bundles are imported\<close>

lemmas app_rows = SetConfig_def GetConfig_def HasConfig_def DeleteConfig_def SaveMLSIdentity_def GetMLSIdentity_def
  UpdateMLSDisplayName_def HasMLSIdentity_def SaveAuthBundle_def GetAuthBundle_def HasAuthBundle_def

text \<open>What an administrator vouches for: a signed, unexpired token for this peer and this MLS key.\<close>

definition vouched :: "AuthDeps \<Rightarrow> int \<Rightarrow> InvitationToken \<Rightarrow> bytes \<Rightarrow> peer_id \<Rightarrow> bool" where
  "vouched A now t root pid \<longleftrightarrow>
    VerifyToken A (Some t) root \<and> now \<le> tk_ExpiresAt t \<and> tk_PeerID t = a_pidString A pid"

text \<open>
  C19: which bundles a node imports. If the import succeeds, the token is signed with the root key of the
  bundle, has not expired, and names this node's peer identifier and MLS public key; it is what is stored, and
  the identity takes the name it assigns. If it fails, bundle and identity are the old ones, except that a
  failure of the last statement, after all checks have passed, leaves the bundle stored and the name unassigned.
  The configuration, with the private keys, is never touched.
\<close>

theorem import_checks_bundle:
  assumes "ImportInvitationBundle A now key raw db = (res, db')"
  shows "ad_config db' = ad_config db \<and>
    (case res of
       Inl _ \<Rightarrow> ad_identity db' = ad_identity db
     | Inr _ \<Rightarrow> ad_bundle db' \<noteq> None) \<and>
    (ad_bundle db' = ad_bundle db \<and> ad_identity db' = ad_identity db \<and> (\<exists>err. res = Inl err) \<or>
     (\<exists>bundle t i pid. a_bundleParse A raw = Inr bundle \<and> bd_Token bundle = Some t \<and> a_libp2pID A key = Inr pid \<and>
        vouched A now t (bd_RootPublicKey bundle) pid \<and> ad_identity db = Some i \<and> tk_PublicKey t = mi_PublicKey i \<and>
        ad_bundle db' = Some (stored_bundle t bundle) \<and>
        (res = Inr () \<longrightarrow> ad_identity db' = Some (i\<lparr>mi_DisplayName := tk_DisplayName t,
           mi_Credential := string_bytes (tk_DisplayName t)\<rparr>))))"
  using assms
  by (auto simp: ImportInvitationBundle_def DeserializeBundle_def app_rows app_io_def vouched_def Let_def
      split: sum.splits option.splits if_splits prod.splits)

section \<open>What is issued is imported by the node it names\<close>

lemma SignToken_Inr:
  assumes "SignToken A now sk name pid pkHex = Inr t" and "ed25519_ok A"
  shows "VerifyToken A (Some t) (a_public A sk)" "tk_PeerID t = pid" "DecodeHex pkHex = Some (tk_PublicKey t)"
    "tk_Version t = TokenVersion" "tk_ExpiresAt t = wrap64 (now + TokenValidityDays * 24 * 60 * 60)" "tk_PeerID t \<noteq> ''''"
  using assms
  by (auto simp: SignToken_def VerifyToken_def signingPayload_def ed25519_ok_def Let_def
      split: if_splits option.splits)

lemma rebuilt_token:
  "tk_Version t = TokenVersion \<Longrightarrow> BuildLocalToken (stored_bundle t b) = t"
  by (simp add: BuildLocalToken_def stored_bundle_def)

lemma app_io_calm [simp]: "ad_faults db = [] \<Longrightarrow> app_io f db = f db"
  by (cases db) (simp add: app_io_def)

text \<open>
  C18: what an administrator issues is usable, and only by whom it is issued to. A bundle created for the peer
  identifier and the MLS key that a node reports is imported by that node until a year after its issue; the
  node is then authorized, and the token it rebuilds from the database for its peers is vouched for by the
  administrator. A node with another peer identifier is refused.
\<close>

theorem issued_bundle_imported:
  assumes "ed25519_ok A" and "bundle_codec_ok A"
    and "CreateInvitationBundle A issued sk name (a_pidString A pid) (hex pk) boot = Inr raw"
    and "a_libp2pID A key = Inr pid" and "ad_identity db = Some i" and "mi_PublicKey i = pk" and "ad_faults db = []"
    and "in_i64 (issued + 31536000)" and "now \<le> issued + 31536000"
  shows "(\<exists>db' b. ImportInvitationBundle A now key raw db = (Inr (), db') \<and> ad_bundle db' = Some b \<and>
      vouched A now (BuildLocalToken b) (a_public A sk) pid \<and>
      fst (DetermineAppState now db') \<in> {(StateAuthorized, None), (StateAdminReady, None)}) \<and>
    (\<forall>key' pid' db1. a_libp2pID A key' = Inr pid' \<and> a_pidString A pid' \<noteq> a_pidString A pid \<longrightarrow>
      (\<exists>err. ImportInvitationBundle A now key' raw db1 = (Inl err, db1)))"
proof -
  obtain t where t: "SignToken A issued sk name (a_pidString A pid) (hex pk) = Inr t"
    and raw: "a_bundleJSON A \<lparr>bd_Token = Some t, bd_BootstrapAddr = boot, bd_RootPublicKey = a_public A sk\<rparr> = Inr raw"
    and boot: "boot \<noteq> ''''"
    using assms(3) by (auto simp: CreateInvitationBundle_def SerializeBundle_def split: if_splits sum.splits)
  note tok = SignToken_Inr [OF t assms(1)]
  define b where "b = \<lparr>bd_Token = Some t, bd_BootstrapAddr = boot, bd_RootPublicKey = a_public A sk\<rparr>"
  have parsed: "DeserializeBundle A raw = Inr b"
    using raw assms(1,2) tok(6) boot by (simp add: b_def DeserializeBundle_def bundle_codec_ok_def ed25519_ok_def)
  have sel: "bd_Token b = Some t" "bd_RootPublicKey b = a_public A sk" by (simp_all add: b_def)
  have live: "now \<le> tk_ExpiresAt t" using assms(8,9) tok(5) by (simp add: TokenValidityDays_def)
  have pk: "tk_PublicKey t = pk" using tok(3) by (simp add: DecodeHex_hex)
  let ?db = "db\<lparr>ad_bundle := Some (stored_bundle t b), ad_identity := Some (i\<lparr>mi_DisplayName := tk_DisplayName t,
      mi_Credential := string_bytes (tk_DisplayName t)\<rparr>)\<rparr>"
  have "ImportInvitationBundle A now key raw db = (Inr (), ?db)"
    using live tok assms(4-7) pk by (simp add: ImportInvitationBundle_def parsed sel app_rows Let_def)
  moreover have "vouched A now (BuildLocalToken (stored_bundle t b)) (a_public A sk) pid"
    using live tok by (simp add: rebuilt_token vouched_def)
  moreover have "fst (DetermineAppState now ?db) \<in> {(StateAuthorized, None), (StateAdminReady, None)}"
    using live assms(7) by (simp add: DetermineAppState_def app_rows stored_bundle_def split: bool.split)
  ultimately show ?thesis
    using live tok by (auto simp: ImportInvitationBundle_def parsed sel)
qed

text \<open>
  The key of the administrator is recovered. After a successful setup the same passphrase unlocks the private
  key that belongs to the public key returned, the key stands in the database only sealed, and a second
  setup is refused and changes nothing.
\<close>

theorem admin_key_roundtrip:
  assumes "gcm_ok A" and "SetupAdminKey A n passphrase db = (Inr pub, db')"
  shows "\<exists>priv sealed. a_generate A n = Inr (pub, priv) \<and> gget (ad_config db') AdminKeyConfigKey = Some sealed \<and>
    decryptKey A sealed passphrase = Inr priv \<and>
    (ad_faults db' = [] \<longrightarrow> UnlockAdminKey A passphrase db' = (Inr priv, db') \<and>
      (\<forall>m p. \<exists>err. SetupAdminKey A m p db' = (Inl err, db')))"
proof -
  obtain priv sealed where g: "a_generate A n = Inr (pub, priv)" "encryptKey A (n + 1) priv passphrase = Inr sealed"
    and c: "gget (ad_config db') AdminKeyConfigKey = Some sealed"
    using assms(2) by (auto simp: SetupAdminKey_def app_rows app_io_def Let_def split: prod.splits sum.splits bool.splits if_splits)
  obtain salt nonce where r: "length salt = 16" "length nonce = 12"
    and s: "sealed = salt @ nonce @ a_seal A (deriveKey A passphrase salt) nonce priv"
    using g(2) assms(1) by (auto simp: encryptKey_def gcm_ok_def Let_def split: sum.splits if_splits)
  have key: "NewCipher_ok (deriveKey A passphrase salt)" using assms(1) by (simp add: NewCipher_ok_def deriveKey_def gcm_ok_def)
  have "decryptKey A sealed passphrase = Inr priv"
    using r assms(1) key by (simp add: decryptKey_def s gcm_ok_def Let_def)
  then show ?thesis using g(1) c
    by (auto simp: UnlockAdminKey_def SetupAdminKey_def app_rows ghas_def)
qed

section \<open>Witnesses\<close>

definition sample_token :: InvitationToken where
  "sample_token = \<lparr>tk_Version = 1, tk_DisplayName = ''Ann'', tk_PeerID = ''P'', tk_PublicKey = [5], tk_IssuedAt = 0,
     tk_ExpiresAt = 31536000, tk_Signature = [1, 7, 9]\<rparr>"

definition sample_bundle :: InvitationBundle where
  "sample_bundle = \<lparr>bd_Token = Some sample_token, bd_BootstrapAddr = ''addr'', bd_RootPublicKey = [2, 7]\<rparr>"

definition sample_auth :: AuthDeps where
  "sample_auth = \<lparr>a_sign = (\<lambda>sk m. 1 # sk @ m), a_verify = (\<lambda>pk m s. s = 1 # tl pk @ m), a_public = (\<lambda>sk. 2 # sk),
     a_generate = (\<lambda>n. Inr ([2, 7], [7])), a_tokenJSON = (\<lambda>p. Some [9]),
     a_bundleJSON = (\<lambda>b. if b = sample_bundle then Inr [3] else Inl ErrDB), a_bundleParse = (\<lambda>raw. Inr sample_bundle),
     a_argon = (\<lambda>p s. replicate 32 0), a_seal = (\<lambda>k n p. 4 # p), a_open = (\<lambda>k n c. Inr (tl c)),
     a_random = (\<lambda>i n. Inr (replicate n 6)), a_libp2pParse = Inr, a_libp2pGenerate = (\<lambda>n. Inr [8]),
     a_libp2pMarshal = Inr, a_libp2pID = (\<lambda>k. Inr (if k = [8] then ''P'' else ''Q'')), a_pidString = (\<lambda>p. p)\<rparr>"

definition sample_identity :: MLSIdentity where
  "sample_identity = \<lparr>mi_DisplayName = '''', mi_PublicKey = [5], mi_SigningKeyPrivate = [6], mi_Credential = []\<rparr>"

definition sample_appdb :: AppDB where
  "sample_appdb = \<lparr>ad_config = [], ad_identity = Some sample_identity, ad_bundle = None, ad_faults = []\<rparr>"

lemma sample_auth_ok: "ed25519_ok sample_auth" "gcm_ok sample_auth" "bundle_codec_ok sample_auth"
  by (simp_all add: ed25519_ok_def gcm_ok_def bundle_codec_ok_def sample_auth_def)

lemma sample_bundle_issued: "CreateInvitationBundle sample_auth 0 [7] ''Ann'' ''P'' (hex [5]) ''addr'' = Inr [3]"
  by (simp add: CreateInvitationBundle_def SignToken_def SerializeBundle_def DecodeHex_hex signingPayload_def sample_auth_def
      sample_bundle_def sample_token_def TokenVersion_def TokenValidityDays_def wrap64_id in_i64_def Let_def)

lemma sample_sel: "a_libp2pID sample_auth [8] = Inr ''P''" "a_libp2pID sample_auth [9] = Inr ''Q''"
  "a_pidString sample_auth x = x" "a_public sample_auth [7] = [2, 7]" "a_bundleParse sample_auth raw = Inr sample_bundle"
  by (simp_all add: sample_auth_def)

theorem import_checks_bundle_witness:
  "\<exists>db'. ImportInvitationBundle sample_auth 100 [8] [3] sample_appdb = (Inr (), db') \<and>
    ad_bundle db' = Some (stored_bundle sample_token sample_bundle)"
proof -
  have "VerifyToken sample_auth (Some sample_token) [2, 7]"
    by (simp add: VerifyToken_def signingPayload_def sample_auth_def sample_token_def)
  moreover have "tk_PeerID sample_token = ''P''" "tk_PublicKey sample_token = [5]" "tk_ExpiresAt sample_token = 31536000"
    by (simp_all add: sample_token_def)
  ultimately have "\<exists>db'. ImportInvitationBundle sample_auth 100 [8] [3] sample_appdb = (Inr (), db')"
    by (simp add: ImportInvitationBundle_def DeserializeBundle_def sample_sel app_rows sample_appdb_def sample_bundle_def
        sample_identity_def Let_def)
  then obtain db' where run: "ImportInvitationBundle sample_auth 100 [8] [3] sample_appdb = (Inr (), db')" by blast
  from import_checks_bundle [OF run] have "ad_bundle db' = Some (stored_bundle sample_token sample_bundle)"
    by (auto simp: sample_auth_def sample_bundle_def)
  then show ?thesis using run by blast
qed

theorem issued_bundle_imported_witness:
  "(\<exists>db' b. ImportInvitationBundle sample_auth 100 [8] [3] sample_appdb = (Inr (), db') \<and> ad_bundle db' = Some b \<and>
      vouched sample_auth 100 (BuildLocalToken b) [2, 7] ''P'') \<and>
    (\<exists>err. ImportInvitationBundle sample_auth 100 [9] [3] sample_appdb = (Inl err, sample_appdb))"
  using issued_bundle_imported [OF sample_auth_ok(1,3), of 0 "[7]" "''Ann''" "''P''" "[5]" "''addr''" "[3]" "[8]"
        sample_appdb sample_identity 100] sample_bundle_issued
    by (fastforce simp: sample_sel sample_appdb_def sample_identity_def in_i64_def)

theorem admin_key_roundtrip_witness:
  "\<exists>db'. SetupAdminKey sample_auth 0 ''secret'' sample_appdb = (Inr [2, 7], db') \<and>
    UnlockAdminKey sample_auth ''secret'' db' = (Inr [7], db')"
proof -
  have e: "encryptKey sample_auth (Suc 0) [7] ''secret'' = Inr (replicate 28 6 @ [4, 7])"
    by (simp add: encryptKey_def sample_auth_def NewCipher_ok_def deriveKey_def Let_def replicate_add [symmetric])
  have "a_generate sample_auth 0 = Inr ([2, 7], [7])" by (simp add: sample_auth_def)
  then obtain db' where run: "SetupAdminKey sample_auth 0 ''secret'' sample_appdb = (Inr [2, 7], db')" "ad_faults db' = []"
    using e by (simp add: SetupAdminKey_def app_rows sample_appdb_def)
  from admin_key_roundtrip [OF sample_auth_ok(2) run(1)] run show ?thesis by (auto simp: sample_auth_def)
qed

end
