(* ===== verification/Framing.thy ===== *)
theory Framing
  imports Prelude
begin

text \<open>
  Byte streams with length-prefixed frames: \<^verbatim>\<open>encoding/binary\<close> in big-endian order, \<^verbatim>\<open>io.ReadFull\<close>, and the
  frames of \<^verbatim>\<open>adapter/p2p/offline_wire.go\<close>. A stream is the list of the bytes that arrive before it ends
  or fails; \<^verbatim>\<open>encoding/json\<close> is a parameter. The lemmas show that what is written is read back, whatever
  follows it on the stream.
\<close>

section \<open>Big-endian numbers\<close>

fun be_bytes :: "nat \<Rightarrow> nat \<Rightarrow> bytes" where
  "be_bytes 0 n = []"
| "be_bytes (Suc k) n = of_nat (n div 256 ^ k) # be_bytes k n"

definition of_be :: "bytes \<Rightarrow> nat" where
  "of_be = foldl (\<lambda>a b. a * 256 + unat b) 0"

lemma length_be_bytes [simp]: "length (be_bytes k n) = k"
  by (induction k) simp_all

lemma foldl_be_bytes: "foldl (\<lambda>a b. a * 256 + unat b) acc (be_bytes k n) = acc * 256 ^ k + n mod 256 ^ k"
proof (induction k arbitrary: acc)
  case (Suc k)
  have "n mod 256 ^ Suc k = 256 ^ k * (n div 256 ^ k mod 256) + n mod 256 ^ k"
    by (simp only: power_Suc2 mod_mult2_eq)
  then have "(acc * 256 + n div 256 ^ k mod 256) * 256 ^ k + n mod 256 ^ k = acc * 256 ^ Suc k + n mod 256 ^ Suc k"
    by (simp add: algebra_simps)
  then show ?case by (simp add: Suc unat_of_nat)
qed simp

lemma of_be_bytes [simp]: "of_be (be_bytes k n) = n mod 256 ^ k"
  by (simp add: of_be_def foldl_be_bytes)

section \<open>Frames\<close>

definition ReadFull :: "nat \<Rightarrow> bytes \<Rightarrow> error + bytes \<times> bytes" where
  "ReadFull k s = (if length s < k then Inl (ErrMsg ''unexpected EOF'') else Inr (take k s, drop k s))"

definition ErrOfflineStreamEnd :: error where
  "ErrOfflineStreamEnd = ErrMsg ''offline: stream end marker''"

definition offlineMaxFrame :: nat where
  "offlineMaxFrame = 4194304"

definition WriteOfflineEndMarker :: bytes where
  "WriteOfflineEndMarker = [0, 0, 0, 0]"

text \<open>What a call writes; the error of the underlying stream is the caller's.\<close>

definition WriteOfflineJSONFrame :: "('a \<Rightarrow> error + bytes) \<Rightarrow> 'a \<Rightarrow> error + bytes" where
  "WriteOfflineJSONFrame marshal v =
    (case marshal v of
       Inl err \<Rightarrow> Inl err
     | Inr data \<Rightarrow>
        if data = [] \<or> length data > offlineMaxFrame then Inl (ErrMsg ''offline frame size invalid'')
        else Inr (be_bytes 4 (length data) @ data))"

definition ReadOfflineRawFrame :: "error \<Rightarrow> bytes \<Rightarrow> error + bytes \<times> bytes" where
  "ReadOfflineRawFrame eof s =
    (case ReadFull 4 s of
       Inl err \<Rightarrow> Inl err
     | Inr (lb, s1) \<Rightarrow>
        let n = of_be lb in
        if n = 0 then Inl eof
        else if n > offlineMaxFrame then Inl (ErrMsg ''offline frame too large'')
        else ReadFull n s1)"

definition ReadOfflineJSONFrame :: "(bytes \<Rightarrow> error + 'a) \<Rightarrow> bytes \<Rightarrow> error + 'a \<times> bytes" where
  "ReadOfflineJSONFrame unmarshal s =
    (case ReadOfflineRawFrame ErrOfflineStreamEnd s of
       Inl err \<Rightarrow> Inl err
     | Inr (buf, s1) \<Rightarrow> (case unmarshal buf of Inl err \<Rightarrow> Inl err | Inr v \<Rightarrow> Inr (v, s1)))"

lemma ReadFull_append [simp]: "length a = k \<Longrightarrow> ReadFull k (a @ s) = Inr (a, s)"
  by (simp add: ReadFull_def)

lemma read_written_frame:
  assumes "WriteOfflineJSONFrame marshal v = Inr w" and "\<And>d. marshal v = Inr d \<Longrightarrow> unmarshal d = Inr v"
  shows "ReadOfflineJSONFrame unmarshal (w @ s) = Inr (v, s)"
  using assms
  by (auto simp: WriteOfflineJSONFrame_def ReadOfflineJSONFrame_def ReadOfflineRawFrame_def offlineMaxFrame_def Let_def
      split: sum.splits if_splits)

lemma read_end_marker [simp]: "ReadOfflineJSONFrame unmarshal (WriteOfflineEndMarker @ s) = Inl ErrOfflineStreamEnd"
  by (simp add: ReadOfflineJSONFrame_def ReadOfflineRawFrame_def ReadFull_def WriteOfflineEndMarker_def of_be_def)

end
