(* ===== verification/Auth.thy ===== *)
theory Auth
  imports Onboarding Framing
begin

text \<open>
  Authentication of peers: session claims (\<^verbatim>\<open>adapter/p2p/session_claim.go\<close>), the connection gater
  (\<^verbatim>\<open>gater.go\<close>), the handshake (\<^verbatim>\<open>auth_protocol.go\<close>) and the node's own session (\<^verbatim>\<open>service/session.go\<close>). A handshake
  runs without a lock: it reads and checks, it answers, and only then it stores the peer as verified, so
  each part is a function of its own and other handshakes may come between them. What a stream delivers,
  whether a write succeeds and which connections exist is the environment's. The lemmas show that whoever is
  verified has shown a valid token and claim, that only who failed is blacklisted, and that a superseded
  session learns of it and locks itself.
\<close>

section \<open>Session claims\<close>

record SessionClaim =
  sc_StartedAt :: int
  sc_Nonce :: bytes
  sc_Signature :: bytes

record sessionClaimPayload =
  sp_PeerID :: string
  sp_StartedAt :: int
  sp_Nonce :: bytes

record AuthHandshakeMsg =
  hs_Token :: "InvitationToken option"
  hs_Session :: SessionClaim
  hs_Error :: string
  hs_SupersedingSession :: SessionClaim
  hs_ProfileWireJSON :: bytes
  hs_ProfileSignature :: bytes

record HandshakeDeps =
  h_auth :: AuthDeps
  h_fromSeed :: "bytes \<Rightarrow> bytes"
  h_claimJSON :: "sessionClaimPayload \<Rightarrow> error + bytes"
  h_handshakeJSON :: "AuthHandshakeMsg \<Rightarrow> error + bytes"
  h_handshakeParse :: "bytes \<Rightarrow> error + AuthHandshakeMsg"
  h_tokenParse :: "bytes \<Rightarrow> error + InvitationToken"

definition zero_claim :: SessionClaim where
  "zero_claim = \<lparr>sc_StartedAt = 0, sc_Nonce = [], sc_Signature = []\<rparr>"

definition normalizeEd25519PrivateKey :: "HandshakeDeps \<Rightarrow> bytes \<Rightarrow> error + bytes" where
  "normalizeEd25519PrivateKey H signingKey =
    (if length signingKey = 32 then Inr (h_fromSeed H signingKey)
     else if length signingKey = 64 then Inr signingKey
     else Inl (ErrMsg ''invalid ed25519 private key size''))"

definition BuildSessionClaim :: "HandshakeDeps \<Rightarrow> nat \<Rightarrow> bytes \<Rightarrow> string \<Rightarrow> int \<Rightarrow> error + SessionClaim" where
  "BuildSessionClaim H n signingKey peerID startedAt =
    (case normalizeEd25519PrivateKey H signingKey of
       Inl err \<Rightarrow> Inl err
     | Inr priv \<Rightarrow>
        (case a_random (h_auth H) n 16 of
           Inl err \<Rightarrow> Inl (ErrWrap ''generate session nonce'' err)
         | Inr nonce \<Rightarrow>
            (case h_claimJSON H \<lparr>sp_PeerID = peerID, sp_StartedAt = startedAt, sp_Nonce = nonce\<rparr> of
               Inl err \<Rightarrow> Inl (ErrWrap ''marshal session claim payload'' err)
             | Inr raw \<Rightarrow> Inr \<lparr>sc_StartedAt = startedAt, sc_Nonce = nonce,
                                sc_Signature = a_sign (h_auth H) priv raw\<rparr>)))"

definition VerifySessionClaim :: "HandshakeDeps \<Rightarrow> SessionClaim \<Rightarrow> string \<Rightarrow> bytes \<Rightarrow> error + unit" where
  "VerifySessionClaim H claim tokenPeerID tokenPubKey =
    (if sc_StartedAt claim \<le> 0 then Inl (ErrMsg ''invalid session started_at'')
     else if length (sc_Nonce claim) < 8 then Inl (ErrMsg ''invalid session nonce'')
     else if sc_Signature claim = [] then Inl (ErrMsg ''missing session signature'')
     else if length tokenPubKey \<noteq> 32 then Inl (ErrMsg ''invalid token public key length'')
     else case h_claimJSON H \<lparr>sp_PeerID = tokenPeerID, sp_StartedAt = sc_StartedAt claim, sp_Nonce = sc_Nonce claim\<rparr> of
         Inl err \<Rightarrow> Inl (ErrWrap ''marshal session claim payload'' err)
       | Inr raw \<Rightarrow>
          if \<not> a_verify (h_auth H) tokenPubKey raw (sc_Signature claim) then Inl (ErrMsg ''invalid session signature'')
          else Inr ())"

section \<open>The gater\<close>

text \<open>The reason is the error itself, where the code keeps its text.\<close>

record blacklistEntry =
  be_until :: time
  be_reason :: error

definition blacklistTTL :: int where
  "blacklistTTL = 30 * 60 * 1000000000"

type_synonym AuthGater = "(peer_id, blacklistEntry) gomap"

definition Blacklist :: "time \<Rightarrow> peer_id \<Rightarrow> error \<Rightarrow> AuthGater \<Rightarrow> AuthGater" where
  "Blacklist now pid reason g = gput pid \<lparr>be_until = now + blacklistTTL, be_reason = reason\<rparr> g"

definition isBlacklisted :: "time \<Rightarrow> peer_id \<Rightarrow> AuthGater \<Rightarrow> bool \<times> AuthGater" where
  "isBlacklisted now pid g =
    (case gget g pid of
       None \<Rightarrow> (False, g)
     | Some entry \<Rightarrow> if now > be_until entry then (False, gdel pid g) else (True, g))"

definition InterceptPeerDial :: "time \<Rightarrow> peer_id \<Rightarrow> AuthGater \<Rightarrow> bool \<times> AuthGater" where
  "InterceptPeerDial now p g = (let (b, g1) = isBlacklisted now p g in (\<not> b, g1))"

definition InterceptSecured :: "time \<Rightarrow> peer_id \<Rightarrow> AuthGater \<Rightarrow> bool \<times> AuthGater" where
  "InterceptSecured now p g = (let (b, g1) = isBlacklisted now p g in (\<not> b, g1))"

definition InterceptUpgraded :: "time \<Rightarrow> peer_id \<Rightarrow> AuthGater \<Rightarrow> bool \<times> AuthGater" where
  "InterceptUpgraded now p g = (let (b, g1) = isBlacklisted now p g in (\<not> b, g1))"

section \<open>The protocol's state\<close>

record verifiedPeerState =
  vs_Token :: "InvitationToken option"
  vs_SessionStarted :: int
  vs_Session :: SessionClaim

datatype auth_effect =
    StreamReset peer_id
  | ClosePeer peer_id
  | CloseConn string
  | Sent peer_id bytes
  | PeerProfileAnnex peer_id "InvitationToken option" bytes bytes
  | PeerVerified peer_id
  | LocalSessionReplaced SessionClaim

text \<open>The callbacks may be unset; \<^verbatim>\<open>localHandshake\<close> is never nil, see \<^verbatim>\<open>NewP2PNode\<close>.\<close>

record AuthProtocol =
  ap_gater :: AuthGater
  ap_localToken :: "InvitationToken option"
  ap_localHandshake :: AuthHandshakeMsg
  ap_rootPublicKey :: bytes
  ap_verifiedPeers :: "(peer_id, verifiedPeerState) gomap"
  ap_handshakingPeers :: "(peer_id, unit) gomap"
  ap_onReplaced :: bool
  ap_onAnnex :: bool
  ap_onVerified :: bool
  ap_out :: "auth_effect list"

definition fire :: "auth_effect \<Rightarrow> AuthProtocol \<Rightarrow> AuthProtocol" where
  "fire e ap = ap\<lparr>ap_out := ap_out ap @ [e]\<rparr>"

definition NewAuthProtocol :: "AuthGater \<Rightarrow> InvitationToken option \<Rightarrow> bytes \<Rightarrow> AuthHandshakeMsg \<Rightarrow> AuthProtocol" where
  "NewAuthProtocol gater localToken rootPubKey localHandshake =
    \<lparr>ap_gater = gater, ap_localToken = localToken, ap_localHandshake = localHandshake, ap_rootPublicKey = rootPubKey,
     ap_verifiedPeers = [], ap_handshakingPeers = [], ap_onReplaced = False, ap_onAnnex = False, ap_onVerified = False,
     ap_out = []\<rparr>"

definition IsVerified :: "peer_id \<Rightarrow> AuthProtocol \<Rightarrow> bool" where
  "IsVerified pid ap = ghas (ap_verifiedPeers ap) pid"

definition GetVerifiedToken :: "peer_id \<Rightarrow> AuthProtocol \<Rightarrow> InvitationToken option" where
  "GetVerifiedToken pid ap = (case gget (ap_verifiedPeers ap) pid of None \<Rightarrow> None | Some v \<Rightarrow> vs_Token v)"

definition VerifiedPeerIDs :: "AuthProtocol \<Rightarrow> peer_id list" where
  "VerifiedPeerIDs ap = gkeys (ap_verifiedPeers ap)"

definition SetLocalProfileAnnex :: "bytes \<Rightarrow> bytes \<Rightarrow> AuthProtocol \<Rightarrow> AuthProtocol" where
  "SetLocalProfileAnnex wireJSON signature ap =
    ap\<lparr>ap_localHandshake :=
      (if wireJSON = [] \<or> signature = []
       then (ap_localHandshake ap)\<lparr>hs_ProfileWireJSON := [], hs_ProfileSignature := []\<rparr>
       else (ap_localHandshake ap)\<lparr>hs_ProfileWireJSON := wireJSON, hs_ProfileSignature := signature\<rparr>)\<rparr>"

definition invokePeerVerified :: "peer_id \<Rightarrow> AuthProtocol \<Rightarrow> AuthProtocol" where
  "invokePeerVerified pid ap = (if ap_onVerified ap then fire (PeerVerified pid) ap else ap)"

definition invokePeerProfileAnnex ::
  "peer_id \<Rightarrow> InvitationToken option \<Rightarrow> AuthHandshakeMsg \<Rightarrow> AuthProtocol \<Rightarrow> AuthProtocol" where
  "invokePeerProfileAnnex pid tok hs ap =
    (if \<not> ap_onAnnex ap \<or> hs_ProfileWireJSON hs = [] \<or> hs_ProfileSignature hs = [] then ap
     else fire (PeerProfileAnnex pid tok (hs_ProfileWireJSON hs) (hs_ProfileSignature hs)) ap)"

section \<open>Wire format\<close>

definition maxTokenBytes :: nat where
  "maxTokenBytes = 65536"

definition writeHandshake :: "HandshakeDeps \<Rightarrow> AuthHandshakeMsg \<Rightarrow> error + bytes" where
  "writeHandshake H hs =
    (if hs_Token hs = None then Inl (ErrMsg ''empty auth handshake'')
     else case h_handshakeJSON H hs of
         Inl err \<Rightarrow> Inl (ErrWrap ''marshal handshake'' err)
       | Inr data \<Rightarrow> Inr (be_bytes 4 (length data) @ data))"

definition legacy_handshake :: "InvitationToken \<Rightarrow> AuthHandshakeMsg" where
  "legacy_handshake token =
    \<lparr>hs_Token = Some token, hs_Session = zero_claim, hs_Error = '''', hs_SupersedingSession = zero_claim,
     hs_ProfileWireJSON = [], hs_ProfileSignature = []\<rparr>"

definition readHandshake :: "HandshakeDeps \<Rightarrow> bytes \<Rightarrow> error + AuthHandshakeMsg" where
  "readHandshake H s =
    (case ReadFull 4 s of
       Inl err \<Rightarrow> Inl (ErrWrap ''read length prefix'' err)
     | Inr (lenBuf, s1) \<Rightarrow>
        let len = of_be lenBuf in
        if len = 0 \<or> len > maxTokenBytes then Inl (ErrMsg ''invalid token length'')
        else case ReadFull len s1 of
            Inl err \<Rightarrow> Inl (ErrWrap ''read token data'' err)
          | Inr (data, _) \<Rightarrow>
             let legacy = (case h_tokenParse H data of
                   Inl err \<Rightarrow> Inl (ErrWrap ''unmarshal handshake/token'' err)
                 | Inr token \<Rightarrow> Inr (legacy_handshake token))
             in case h_handshakeParse H data of
                 Inl _ \<Rightarrow> legacy
               | Inr hs \<Rightarrow> if hs_Token hs \<noteq> None then Inr hs else legacy)"

section \<open>The handshake\<close>

definition rejectSecurity :: "time \<Rightarrow> peer_id \<Rightarrow> error \<Rightarrow> AuthProtocol \<Rightarrow> AuthProtocol" where
  "rejectSecurity now pid reason ap =
    fire (ClosePeer pid) ((fire (StreamReset pid) ap)\<lparr>ap_gater := Blacklist now pid reason (ap_gater ap)\<rparr>)"

definition rejectTransient :: "peer_id \<Rightarrow> AuthProtocol \<Rightarrow> AuthProtocol" where
  "rejectTransient pid ap = fire (StreamReset pid) ap"

definition verifyPeerToken ::
  "HandshakeDeps \<Rightarrow> time \<Rightarrow> InvitationToken option \<Rightarrow> peer_id \<Rightarrow> AuthProtocol \<Rightarrow> error + unit" where
  "verifyPeerToken H now token authenticatedPeerID ap =
    (if \<not> VerifyToken (h_auth H) token (ap_rootPublicKey ap) then Inl (ErrMsg ''invalid Admin signature'')
     else if Unix now > tk_ExpiresAt (the token) then Inl (ErrMsg ''token expired'')
     else if tk_PeerID (the token) \<noteq> a_pidString (h_auth H) authenticatedPeerID then Inl (ErrMsg ''PeerID mismatch'')
     else Inr ())"

definition verify_claim :: "HandshakeDeps \<Rightarrow> AuthHandshakeMsg \<Rightarrow> error + unit" where
  "verify_claim H hs =
    (if sc_StartedAt (hs_Session hs) > 0
     then VerifySessionClaim H (hs_Session hs) (tk_PeerID (the (hs_Token hs))) (tk_PublicKey (the (hs_Token hs)))
     else Inr ())"

text \<open>\<open>conns\<close> are the connections to the peer, \<open>conn\<close> the one of this stream.\<close>

definition acceptSession ::
  "peer_id \<Rightarrow> int \<Rightarrow> string \<Rightarrow> string list \<Rightarrow> AuthProtocol \<Rightarrow> (bool \<times> SessionClaim) \<times> AuthProtocol" where
  "acceptSession pid startedAt conn conns ap =
    (case gget (ap_verifiedPeers ap) pid of
       Some existing \<Rightarrow>
         if startedAt < vs_SessionStarted existing then ((False, vs_Session existing), ap)
         else ((True, zero_claim), fold (\<lambda>c. fire (CloseConn c)) (filter (\<lambda>c. c \<noteq> conn) conns) ap)
     | None \<Rightarrow> ((True, zero_claim), fold (\<lambda>c. fire (CloseConn c)) (filter (\<lambda>c. c \<noteq> conn) conns) ap))"

definition staleSessionResponse :: "SessionClaim \<Rightarrow> AuthProtocol \<Rightarrow> AuthHandshakeMsg" where
  "staleSessionResponse superseding ap =
    (ap_localHandshake ap)\<lparr>hs_Error := ''session_replaced'', hs_SupersedingSession := superseding\<rparr>"

definition verifySupersedingLocalSession :: "HandshakeDeps \<Rightarrow> SessionClaim \<Rightarrow> AuthProtocol \<Rightarrow> bool" where
  "verifySupersedingLocalSession H claim ap =
    (case ap_localToken ap of
       None \<Rightarrow> False
     | Some t \<Rightarrow>
        if sc_StartedAt claim \<le> sc_StartedAt (hs_Session (ap_localHandshake ap)) then False
        else VerifySessionClaim H claim (tk_PeerID t) (tk_PublicKey t) = Inr ())"

definition mark_verified :: "peer_id \<Rightarrow> AuthHandshakeMsg \<Rightarrow> AuthProtocol \<Rightarrow> AuthProtocol" where
  "mark_verified pid hs ap =
    invokePeerVerified pid (invokePeerProfileAnnex pid (hs_Token hs) hs
      (ap\<lparr>ap_verifiedPeers := gput pid \<lparr>vs_Token = hs_Token hs, vs_SessionStarted = sc_StartedAt (hs_Session hs),
            vs_Session = hs_Session hs\<rparr> (ap_verifiedPeers ap)\<rparr>))"

text \<open>A write: \<open>sent\<close> tells whether the stream took it.\<close>

definition send_handshake :: "HandshakeDeps \<Rightarrow> bool \<Rightarrow> peer_id \<Rightarrow> AuthHandshakeMsg \<Rightarrow> AuthProtocol \<Rightarrow> bool \<times> AuthProtocol" where
  "send_handshake H sent pid hs ap =
    (case writeHandshake H hs of
       Inl _ \<Rightarrow> (False, ap)
     | Inr w \<Rightarrow> if sent then (True, fire (Sent pid w) ap) else (False, ap))"

definition incoming_check ::
  "HandshakeDeps \<Rightarrow> time \<Rightarrow> string \<Rightarrow> string list \<Rightarrow> bool \<Rightarrow> peer_id \<Rightarrow> bytes \<Rightarrow> AuthProtocol
    \<Rightarrow> AuthHandshakeMsg option \<times> AuthProtocol" where
  "incoming_check H now conn conns sent pid s ap =
    (case readHandshake H s of
       Inl _ \<Rightarrow> (None, rejectTransient pid ap)
     | Inr hs \<Rightarrow>
        (case verifyPeerToken H now (hs_Token hs) pid ap of
           Inl err \<Rightarrow> (None, rejectSecurity now pid err ap)
         | Inr _ \<Rightarrow>
            (case verify_claim H hs of
               Inl err \<Rightarrow> (None, rejectSecurity now pid err ap)
             | Inr _ \<Rightarrow>
                (case acceptSession pid (sc_StartedAt (hs_Session hs)) conn conns ap of
                   ((False, superseding), ap1) \<Rightarrow>
                     (None, rejectTransient pid (snd (send_handshake H sent pid (staleSessionResponse superseding ap1) ap1)))
                 | ((True, _), ap1) \<Rightarrow> (Some hs, ap1)))))"

definition incoming_finish ::
  "HandshakeDeps \<Rightarrow> bool \<Rightarrow> peer_id \<Rightarrow> AuthHandshakeMsg \<Rightarrow> AuthProtocol \<Rightarrow> AuthProtocol" where
  "incoming_finish H sent pid hs ap =
    (case send_handshake H sent pid (ap_localHandshake ap) ap of
       (False, ap1) \<Rightarrow> rejectTransient pid ap1
     | (True, ap1) \<Rightarrow> mark_verified pid hs ap1)"

definition handleIncoming ::
  "HandshakeDeps \<Rightarrow> time \<Rightarrow> string \<Rightarrow> string list \<Rightarrow> bool \<Rightarrow> peer_id \<Rightarrow> bytes \<Rightarrow> AuthProtocol \<Rightarrow> AuthProtocol" where
  "handleIncoming H now conn conns sent pid s ap =
    (case incoming_check H now conn conns sent pid s ap of
       (None, ap1) \<Rightarrow> ap1
     | (Some hs, ap1) \<Rightarrow> incoming_finish H sent pid hs ap1)"

definition not_handshaking :: "peer_id \<Rightarrow> AuthProtocol \<Rightarrow> AuthProtocol" where
  "not_handshaking pid ap = ap\<lparr>ap_handshakingPeers := gdel pid (ap_handshakingPeers ap)\<rparr>"

definition outgoing_begin :: "HandshakeDeps \<Rightarrow> bool \<Rightarrow> bool \<Rightarrow> peer_id \<Rightarrow> AuthProtocol \<Rightarrow> bool \<times> AuthProtocol" where
  "outgoing_begin H opened sent pid ap =
    (if IsVerified pid ap \<or> ghas (ap_handshakingPeers ap) pid then (False, ap)
     else let ap1 = ap\<lparr>ap_handshakingPeers := gput pid () (ap_handshakingPeers ap)\<rparr> in
       if \<not> opened then (False, not_handshaking pid ap1)
       else case send_handshake H sent pid (ap_localHandshake ap1) ap1 of
           (False, ap2) \<Rightarrow> (False, not_handshaking pid (rejectTransient pid ap2))
         | (True, ap2) \<Rightarrow> (True, ap2))"

definition outgoing_check ::
  "HandshakeDeps \<Rightarrow> time \<Rightarrow> string \<Rightarrow> string list \<Rightarrow> peer_id \<Rightarrow> bytes \<Rightarrow> AuthProtocol
    \<Rightarrow> AuthHandshakeMsg option \<times> AuthProtocol" where
  "outgoing_check H now conn conns pid s ap =
    (let stop = (\<lambda>ap. (None, not_handshaking pid ap)) in
     case readHandshake H s of
       Inl _ \<Rightarrow> stop (rejectTransient pid ap)
     | Inr hs \<Rightarrow>
        (case verifyPeerToken H now (hs_Token hs) pid ap of
           Inl err \<Rightarrow> stop (rejectSecurity now pid err ap)
         | Inr _ \<Rightarrow>
            if hs_Error hs = ''session_replaced''
            then stop (rejectTransient pid
                   (if verifySupersedingLocalSession H (hs_SupersedingSession hs) ap \<and> ap_onReplaced ap
                    then fire (LocalSessionReplaced (hs_SupersedingSession hs)) ap else ap))
            else case verify_claim H hs of
                Inl err \<Rightarrow> stop (rejectSecurity now pid err ap)
              | Inr _ \<Rightarrow>
                 (case acceptSession pid (sc_StartedAt (hs_Session hs)) conn conns ap of
                    ((False, _), ap1) \<Rightarrow> stop (rejectTransient pid ap1)
                  | ((True, _), ap1) \<Rightarrow> (Some hs, ap1))))"

definition outgoing_finish :: "peer_id \<Rightarrow> AuthHandshakeMsg \<Rightarrow> AuthProtocol \<Rightarrow> AuthProtocol" where
  "outgoing_finish pid hs ap = not_handshaking pid (mark_verified pid hs ap)"

definition InitiateHandshake ::
  "HandshakeDeps \<Rightarrow> time \<Rightarrow> bool \<Rightarrow> bool \<Rightarrow> string \<Rightarrow> string list \<Rightarrow> peer_id \<Rightarrow> bytes \<Rightarrow> AuthProtocol \<Rightarrow> AuthProtocol" where
  "InitiateHandshake H now opened sent conn conns pid s ap =
    (case outgoing_begin H opened sent pid ap of
       (False, ap1) \<Rightarrow> ap1
     | (True, ap1) \<Rightarrow>
        (case outgoing_check H now conn conns pid s ap1 of
           (None, ap2) \<Rightarrow> ap2
         | (Some hs, ap2) \<Rightarrow> outgoing_finish pid hs ap2))"

definition Disconnected :: "nat \<Rightarrow> peer_id \<Rightarrow> AuthProtocol \<Rightarrow> AuthProtocol" where
  "Disconnected remaining pid ap =
    (if remaining = 0 then ap\<lparr>ap_verifiedPeers := gdel pid (ap_verifiedPeers ap)\<rparr> else ap)"

section \<open>The node's own session\<close>

definition sessionStartedAtConfigKey :: string where
  "sessionStartedAtConfigKey = ''session_started_at''"

definition killSessionPendingConfigKey :: string where
  "killSessionPendingConfigKey = ''kill_session_pending''"

definition sessionReplacedAtConfigKey :: string where
  "sessionReplacedAtConfigKey = ''session_replaced_at''"

definition ErrSessionReplaced :: error where
  "ErrSessionReplaced = ErrMsg ''session has been replaced by a newer device''"

datatype SessionState = SessionStateUnknown | SessionStateActive | SessionStateReplaced

record SessionStatus =
  ss_State :: SessionState
  ss_SessionStartedAt :: int
  ss_ReplacedDetectedAt :: int

definition encodeInt64Config :: "int \<Rightarrow> bytes" where
  "encodeInt64Config v = be_bytes 8 (nat (v mod 2 ^ 64))"

definition decode_int64 :: "bytes \<Rightarrow> int" where
  "decode_int64 raw = wrap64 (int (of_be raw))"

definition resetSessionStartedAt :: "int \<Rightarrow> AppDB \<Rightarrow> (error + int) \<times> AppDB" where
  "resetSessionStartedAt now db =
    (case SetConfig sessionStartedAtConfigKey (encodeInt64Config now) db of
       (Inl err, db1) \<Rightarrow> (Inl (ErrWrap ''persist session start'' err), db1)
     | (Inr _, db1) \<Rightarrow> (Inr now, db1))"

definition getOrCreateSessionStartedAt :: "int \<Rightarrow> AppDB \<Rightarrow> (error + int) \<times> AppDB" where
  "getOrCreateSessionStartedAt now db =
    (case GetConfig sessionStartedAtConfigKey db of
       (Inr raw, db1) \<Rightarrow>
         if length raw = 8 then (Inr (decode_int64 raw), db1) else resetSessionStartedAt now db1
     | (Inl err, db1) \<Rightarrow>
         if \<not> IsNotFound err then (Inl (ErrWrap ''read session start'' err), db1) else resetSessionStartedAt now db1)"

definition readInt64Config :: "string \<Rightarrow> AppDB \<Rightarrow> (error + int \<times> bool) \<times> AppDB" where
  "readInt64Config key db =
    (case GetConfig key db of
       (Inl err, db1) \<Rightarrow> (if IsNotFound err then Inr (0, False) else Inl err, db1)
     | (Inr raw, db1) \<Rightarrow> (if length raw \<noteq> 8 then Inr (0, False) else Inr (decode_int64 raw, True), db1))"

definition buildLocalAuthHandshake ::
  "HandshakeDeps \<Rightarrow> nat \<Rightarrow> int \<Rightarrow> string \<Rightarrow> AppDB \<Rightarrow> (error + AuthHandshakeMsg) \<times> AppDB" where
  "buildLocalAuthHandshake H n now tokenPeerID db =
    (case GetMLSIdentity db of
       (Inl err, db1) \<Rightarrow> (Inl (ErrWrap ''load MLS identity for session claim'' err), db1)
     | (Inr i, db1) \<Rightarrow>
        (case getOrCreateSessionStartedAt now db1 of
           (Inl err, db2) \<Rightarrow> (Inl err, db2)
         | (Inr startedAt, db2) \<Rightarrow>
            (case BuildSessionClaim H n (mi_SigningKeyPrivate i) tokenPeerID startedAt of
               Inl err \<Rightarrow> (Inl (ErrWrap ''build session claim'' err), db2)
             | Inr claim \<Rightarrow> (Inr \<lparr>hs_Token = None, hs_Session = claim, hs_Error = '''', hs_SupersedingSession = zero_claim,
                               hs_ProfileWireJSON = [], hs_ProfileSignature = []\<rparr>, db2))))"

definition ApplyIdentityImportSideEffects :: "int \<Rightarrow> AppDB \<Rightarrow> (error + unit) \<times> AppDB" where
  "ApplyIdentityImportSideEffects now db =
    (case resetSessionStartedAt now db of
       (Inl err, db1) \<Rightarrow> (Inl err, db1)
     | (Inr _, db1) \<Rightarrow>
        (case DeleteConfig sessionReplacedAtConfigKey db1 of
           (Inl err, db2) \<Rightarrow>
             if \<not> IsNotFound err then (Inl err, db2)
             else SetConfig killSessionPendingConfigKey (string_bytes ''1'') db2
         | (Inr _, db2) \<Rightarrow> SetConfig killSessionPendingConfigKey (string_bytes ''1'') db2))"

definition consumeKillSessionPendingFlag :: "AppDB \<Rightarrow> (error + unit) \<times> AppDB" where
  "consumeKillSessionPendingFlag db =
    (case HasConfig killSessionPendingConfigKey db of
       (Inl err, db1) \<Rightarrow> (Inl err, db1)
     | (Inr False, db1) \<Rightarrow> (Inr (), db1)
     | (Inr True, db1) \<Rightarrow> DeleteConfig killSessionPendingConfigKey db1)"

text \<open>The database is open; before that the state is unknown and nothing is marked.\<close>

definition GetSessionStatus :: "AppDB \<Rightarrow> (error + SessionStatus) \<times> AppDB" where
  "GetSessionStatus db =
    (case readInt64Config sessionStartedAtConfigKey db of
       (Inl err, db1) \<Rightarrow> (Inl (ErrWrap ''read session start'' err), db1)
     | (Inr (startedAt, _), db1) \<Rightarrow>
        (case readInt64Config sessionReplacedAtConfigKey db1 of
           (Inl err, db2) \<Rightarrow> (Inl (ErrWrap ''read session replaced'' err), db2)
         | (Inr (replacedAt, replaced), db2) \<Rightarrow>
            (Inr \<lparr>ss_State = (if startedAt = 0 \<and> \<not> replaced then SessionStateUnknown
                             else if replaced then SessionStateReplaced else SessionStateActive),
                  ss_SessionStartedAt = startedAt, ss_ReplacedDetectedAt = (if replaced then replacedAt else 0)\<rparr>, db2)))"

definition ensureSessionActive :: "AppDB \<Rightarrow> (error + unit) \<times> AppDB" where
  "ensureSessionActive db =
    (case GetSessionStatus db of
       (Inl err, db1) \<Rightarrow> (Inl err, db1)
     | (Inr status, db1) \<Rightarrow>
        if ss_State status = SessionStateReplaced then (Inl ErrSessionReplaced, db1) else (Inr (), db1))"

definition isSessionReplaced :: "AppDB \<Rightarrow> (error + bool) \<times> AppDB" where
  "isSessionReplaced db =
    (case readInt64Config sessionReplacedAtConfigKey db of
       (Inl err, db1) \<Rightarrow> (Inl err, db1)
     | (Inr (replacedAt, replaced), db1) \<Rightarrow> (Inr (replaced \<and> replacedAt > 0), db1))"

text \<open>The result is the time of detection when coordinators and network are stopped, and nothing otherwise.\<close>

definition markSessionReplaced :: "int \<Rightarrow> AppDB \<Rightarrow> int option \<times> AppDB" where
  "markSessionReplaced now db =
    (case readInt64Config sessionReplacedAtConfigKey db of
       (r, db1) \<Rightarrow>
         (case r of
            Inr (existing, True) \<Rightarrow>
              if existing > 0 then (Some existing, db1)
              else (case SetConfig sessionReplacedAtConfigKey (encodeInt64Config now) db1 of
                      (Inl _, db2) \<Rightarrow> (None, db2) | (Inr _, db2) \<Rightarrow> (Some now, db2))
          | _ \<Rightarrow> (case SetConfig sessionReplacedAtConfigKey (encodeInt64Config now) db1 of
                   (Inl _, db2) \<Rightarrow> (None, db2) | (Inr _, db2) \<Rightarrow> (Some now, db2))))"

section \<open>Who is verified\<close>

text \<open>What a handshake has shown when it passed the checks at a time.\<close>

definition shown :: "HandshakeDeps \<Rightarrow> bytes \<Rightarrow> time \<Rightarrow> peer_id \<Rightarrow> AuthHandshakeMsg \<Rightarrow> bool" where
  "shown H root t pid hs \<longleftrightarrow> (\<exists>tok. hs_Token hs = Some tok \<and> vouched (h_auth H) (Unix t) tok root pid \<and>
    (0 < sc_StartedAt (hs_Session hs) \<longrightarrow> VerifySessionClaim H (hs_Session hs) (tk_PeerID tok) (tk_PublicKey tok) = Inr ()))"

definition state_of :: "AuthHandshakeMsg \<Rightarrow> verifiedPeerState" where
  "state_of hs = \<lparr>vs_Token = hs_Token hs, vs_SessionStarted = sc_StartedAt (hs_Session hs), vs_Session = hs_Session hs\<rparr>"

text \<open>
  Runs: handshakes in both directions, at most one part of one of them at a time, in any interleaving, and
  connections that end. The last component are the checked handshakes that are not stored yet.
\<close>

inductive auth_run :: "HandshakeDeps \<Rightarrow> InvitationToken option \<Rightarrow> bytes \<Rightarrow> AuthHandshakeMsg
    \<Rightarrow> time \<Rightarrow> AuthProtocol \<Rightarrow> (bool \<times> peer_id \<times> AuthHandshakeMsg) list \<Rightarrow> bool" for H tok root hs where
  start: "auth_run H tok root hs t (NewAuthProtocol [] tok root hs) []"
| callbacks: "auth_run H tok root hs t ap pool \<Longrightarrow>
    auth_run H tok root hs t (ap\<lparr>ap_onReplaced := r, ap_onAnnex := x, ap_onVerified := v\<rparr>) pool"
| annex: "auth_run H tok root hs t ap pool \<Longrightarrow> auth_run H tok root hs t (SetLocalProfileAnnex w sg ap) pool"
| incoming: "auth_run H tok root hs t ap pool \<Longrightarrow> t \<le> t' \<Longrightarrow> incoming_check H t' conn conns sent pid s ap = (r, ap') \<Longrightarrow>
    auth_run H tok root hs t' ap' (case r of None \<Rightarrow> pool | Some m \<Rightarrow> (True, pid, m) # pool)"
| answered: "auth_run H tok root hs t ap pool \<Longrightarrow> (True, pid, m) \<in> set pool \<Longrightarrow>
    auth_run H tok root hs t (incoming_finish H sent pid m ap) (remove1 (True, pid, m) pool)"
| opened: "auth_run H tok root hs t ap pool \<Longrightarrow> outgoing_begin H opn sent pid ap = (b, ap') \<Longrightarrow>
    auth_run H tok root hs t ap' pool"
| outgoing: "auth_run H tok root hs t ap pool \<Longrightarrow> t \<le> t' \<Longrightarrow> outgoing_check H t' conn conns pid s ap = (r, ap') \<Longrightarrow>
    auth_run H tok root hs t' ap' (case r of None \<Rightarrow> pool | Some m \<Rightarrow> (False, pid, m) # pool)"
| stored: "auth_run H tok root hs t ap pool \<Longrightarrow> (False, pid, m) \<in> set pool \<Longrightarrow>
    auth_run H tok root hs t (outgoing_finish pid m ap) (remove1 (False, pid, m) pool)"
| disconnected: "auth_run H tok root hs t ap pool \<Longrightarrow> auth_run H tok root hs t (Disconnected n pid ap) pool"
| dialled: "auth_run H tok root hs t ap pool \<Longrightarrow> t \<le> t' \<Longrightarrow>
    auth_run H tok root hs t' (ap\<lparr>ap_gater := snd (isBlacklisted t' pid (ap_gater ap))\<rparr>) pool"

definition blamed :: "HandshakeDeps \<Rightarrow> AuthProtocol \<Rightarrow> time \<Rightarrow> peer_id \<Rightarrow> blacklistEntry \<Rightarrow> bool" where
  "blamed H ap t pid e \<longleftrightarrow> (\<exists>t' s m. t' \<le> t \<and> be_until e = t' + blacklistTTL \<and> readHandshake H s = Inr m \<and>
    (verifyPeerToken H t' (hs_Token m) pid ap = Inl (be_reason e) \<or> verify_claim H m = Inl (be_reason e)))"

lemma blamed_cong: "ap_rootPublicKey ap' = ap_rootPublicKey ap \<Longrightarrow> blamed H ap' t pid e = blamed H ap t pid e"
  by (simp add: blamed_def verifyPeerToken_def)

lemma blamed_mono: "blamed H ap t pid e \<Longrightarrow> t \<le> t' \<Longrightarrow> blamed H ap t' pid e"
  by (auto simp: blamed_def intro: order_trans)

text \<open>What the parts of a handshake touch.\<close>

lemma fire_sel [simp]:
  "ap_gater (fire e ap) = ap_gater ap" "ap_verifiedPeers (fire e ap) = ap_verifiedPeers ap"
  "ap_rootPublicKey (fire e ap) = ap_rootPublicKey ap" "ap_localToken (fire e ap) = ap_localToken ap"
  "ap_localHandshake (fire e ap) = ap_localHandshake ap" "ap_out (fire e ap) = ap_out ap @ [e]"
  "ap_onReplaced (fire e ap) = ap_onReplaced ap"
  by (simp_all add: fire_def)

lemma fold_fire_sel [simp]:
  "ap_gater (fold (\<lambda>c. fire (f c)) cs ap) = ap_gater ap" "ap_verifiedPeers (fold (\<lambda>c. fire (f c)) cs ap) = ap_verifiedPeers ap"
  "ap_rootPublicKey (fold (\<lambda>c. fire (f c)) cs ap) = ap_rootPublicKey ap"
  by (induction cs arbitrary: ap) simp_all

definition calmly :: "AuthProtocol \<Rightarrow> AuthProtocol \<Rightarrow> bool" where
  "calmly ap ap' \<longleftrightarrow> ap_gater ap' = ap_gater ap \<and> ap_verifiedPeers ap' = ap_verifiedPeers ap \<and>
    ap_rootPublicKey ap' = ap_rootPublicKey ap"

lemma calmly_parts [simp]:
  "calmly ap ap" "calmly ap (rejectTransient pid ap)" "calmly ap (snd (send_handshake H b pid m ap))"
  "calmly ap (not_handshaking pid ap)" "calmly ap (snd (acceptSession pid st conn conns ap))" "calmly ap (fire e ap)"
  by (auto simp: calmly_def rejectTransient_def send_handshake_def not_handshaking_def acceptSession_def
      split: sum.split option.split)

lemma calmly_trans: "calmly a b \<Longrightarrow> calmly b c \<Longrightarrow> calmly a c"
  by (simp add: calmly_def)

lemma calmly_begin: "calmly ap (snd (outgoing_begin H opn sent pid ap))"
  by (auto simp: outgoing_begin_def calmly_def not_handshaking_def rejectTransient_def send_handshake_def Let_def
      split: sum.split)

lemma mark_verified_sel [simp]:
  "ap_gater (mark_verified pid m ap) = ap_gater ap" "ap_rootPublicKey (mark_verified pid m ap) = ap_rootPublicKey ap"
  "ap_verifiedPeers (mark_verified pid m ap) = gput pid (state_of m) (ap_verifiedPeers ap)"
  by (simp_all add: mark_verified_def state_of_def invokePeerVerified_def invokePeerProfileAnnex_def)

text \<open>Both directions check alike: pass with what was shown, or stop, and blacklist only for a failed check.\<close>

definition checked :: "HandshakeDeps \<Rightarrow> time \<Rightarrow> peer_id \<Rightarrow> AuthProtocol \<Rightarrow> AuthHandshakeMsg option \<Rightarrow> AuthProtocol \<Rightarrow> bool" where
  "checked H t pid ap r ap' \<longleftrightarrow>
    (case r of
       Some m \<Rightarrow> calmly ap ap' \<and> shown H (ap_rootPublicKey ap) t pid m
     | None \<Rightarrow> calmly ap ap' \<or>
        (\<exists>s m err. readHandshake H s = Inr m \<and> (verifyPeerToken H t (hs_Token m) pid ap = Inl err \<or> verify_claim H m = Inl err) \<and>
           ap_verifiedPeers ap' = ap_verifiedPeers ap \<and> ap_rootPublicKey ap' = ap_rootPublicKey ap \<and>
           ap_gater ap' = Blacklist t pid err (ap_gater ap)))"

lemma verified_shown:
  "verifyPeerToken H t (hs_Token m) pid ap = Inr () \<Longrightarrow> verify_claim H m = Inr () \<Longrightarrow> shown H (ap_rootPublicKey ap) t pid m"
  by (cases "hs_Token m")
    (auto simp: verifyPeerToken_def verify_claim_def shown_def vouched_def VerifyToken_def split: if_splits)

lemma rejectSecurity_sel [simp]:
  "ap_gater (rejectSecurity t pid err ap) = Blacklist t pid err (ap_gater ap)"
  "ap_verifiedPeers (rejectSecurity t pid err ap) = ap_verifiedPeers ap"
  "ap_rootPublicKey (rejectSecurity t pid err ap) = ap_rootPublicKey ap"
  by (simp_all add: rejectSecurity_def)

lemma not_handshaking_sel [simp]:
  "ap_gater (not_handshaking pid ap) = ap_gater ap" "ap_verifiedPeers (not_handshaking pid ap) = ap_verifiedPeers ap"
  "ap_rootPublicKey (not_handshaking pid ap) = ap_rootPublicKey ap"
  by (simp_all add: not_handshaking_def)

lemma incoming_checked:
  assumes "incoming_check H t conn conns sent pid s ap = (r, ap')"
  shows "checked H t pid ap r ap'"
proof (cases "\<exists>m. readHandshake H s = Inr m \<and> verifyPeerToken H t (hs_Token m) pid ap = Inr () \<and> verify_claim H m = Inr ()")
  case True
  then obtain m where m: "readHandshake H s = Inr m" "verifyPeerToken H t (hs_Token m) pid ap = Inr ()" "verify_claim H m = Inr ()"
    by blast
  obtain ok sup ap1 where acc: "acceptSession pid (sc_StartedAt (hs_Session m)) conn conns ap = ((ok, sup), ap1)"
    by (metis prod.exhaust)
  have c1: "calmly ap ap1" using calmly_parts(5) [of ap pid "sc_StartedAt (hs_Session m)" conn conns] by (simp add: acc)
  then have "calmly ap (rejectTransient pid (snd (send_handshake H sent pid x ap1)))" for x
    by (meson calmly_parts(2,3) calmly_trans)
  then show ?thesis using assms m c1 verified_shown [OF m(2,3)]
    by (auto simp: incoming_check_def acc checked_def split: bool.splits)
next
  case False
  then show ?thesis using assms
    by (fastforce simp: incoming_check_def checked_def split: sum.splits)
qed

lemma outgoing_checked:
  assumes "outgoing_check H t conn conns pid s ap = (r, ap')"
  shows "checked H t pid ap r ap'"
proof (cases "\<exists>m. readHandshake H s = Inr m \<and> verifyPeerToken H t (hs_Token m) pid ap = Inr ()")
  case True
  then obtain m where m: "readHandshake H s = Inr m" "verifyPeerToken H t (hs_Token m) pid ap = Inr ()" by blast
  obtain ok sup ap1 where acc: "acceptSession pid (sc_StartedAt (hs_Session m)) conn conns ap = ((ok, sup), ap1)"
    by (metis prod.exhaust)
  have c1: "calmly ap ap1" using calmly_parts(5) [of ap pid "sc_StartedAt (hs_Session m)" conn conns] by (simp add: acc)
  have stop: "calmly ap x \<Longrightarrow> calmly ap (not_handshaking pid (rejectTransient pid x))" for x
    by (meson calmly_parts(2,4) calmly_trans)
  show ?thesis
  proof (cases "hs_Error m = ''session_replaced'' \<or> verify_claim H m = Inr ()")
    case True
    then show ?thesis using assms m c1 stop verified_shown [OF m(2)]
      by (auto simp: outgoing_check_def acc checked_def Let_def split: bool.splits if_splits sum.splits)
  next
    case False
    then obtain err where "verify_claim H m = Inl err" by (cases "verify_claim H m") auto
    then have "r = None" "ap' = not_handshaking pid (rejectSecurity t pid err ap)" "verify_claim H m = Inl err"
      using assms m False by (auto simp: outgoing_check_def Let_def)
    then show ?thesis using m by (auto simp: checked_def)
  qed
next
  case False
  then show ?thesis using assms calmly_trans [OF calmly_parts(2,4)]
    by (fastforce simp: outgoing_check_def checked_def Let_def split: sum.splits)
qed

definition auth_inv :: "HandshakeDeps \<Rightarrow> bytes \<Rightarrow> time \<Rightarrow> AuthProtocol \<Rightarrow> (bool \<times> peer_id \<times> AuthHandshakeMsg) list \<Rightarrow> bool" where
  "auth_inv H root t ap pool \<longleftrightarrow> ap_rootPublicKey ap = root \<and>
    (\<forall>pid v. gget (ap_verifiedPeers ap) pid = Some v \<longrightarrow> (\<exists>t' m. t' \<le> t \<and> v = state_of m \<and> shown H root t' pid m)) \<and>
    (\<forall>x \<in> set pool. \<exists>t' \<le> t. shown H root t' (fst (snd x)) (snd (snd x))) \<and>
    (\<forall>pid e. gget (ap_gater ap) pid = Some e \<longrightarrow> blamed H ap t pid e)"

lemma inv_calmly:
  assumes inv: "auth_inv H root t ap pool" and c: "calmly ap ap'" and le: "t \<le> t'"
  shows "auth_inv H root t' ap' pool"
proof -
  have eq: "ap_gater ap' = ap_gater ap" "ap_verifiedPeers ap' = ap_verifiedPeers ap" "ap_rootPublicKey ap' = ap_rootPublicKey ap"
    using c by (simp_all add: calmly_def)
  show ?thesis
    unfolding auth_inv_def eq blamed_cong [OF eq(3)]
  proof (intro conjI allI impI ballI)
    show "ap_rootPublicKey ap = root" using inv by (simp add: auth_inv_def)
    show "\<exists>u m. u \<le> t' \<and> v = state_of m \<and> shown H root u pid m" if "gget (ap_verifiedPeers ap) pid = Some v" for pid v
      using inv that le unfolding auth_inv_def by (meson order_trans)
    show "\<exists>u \<le> t'. shown H root u (fst (snd x)) (snd (snd x))" if "x \<in> set pool" for x
      using inv that le unfolding auth_inv_def by (meson order_trans)
    show "blamed H ap t' pid e" if "gget (ap_gater ap) pid = Some e" for pid e
      using inv that blamed_mono [OF _ le] unfolding auth_inv_def by blast
  qed
qed

lemma inv_checked:
  assumes inv: "auth_inv H root t ap pool" and le: "t \<le> t'" and ch: "checked H t' pid ap r ap'"
  shows "auth_inv H root t' ap' (case r of None \<Rightarrow> pool | Some m \<Rightarrow> (dir, pid, m) # pool)"
proof (cases "calmly ap ap'")
  case True
  have "auth_inv H root t' ap' pool" using inv_calmly [OF inv True le] .
  moreover have "ap_rootPublicKey ap = root" using inv by (simp add: auth_inv_def)
  ultimately show ?thesis using ch by (cases r) (auto simp: auth_inv_def checked_def)
next
  case False
  then obtain s m err where r: "r = None" and m: "readHandshake H s = Inr m"
    "verifyPeerToken H t' (hs_Token m) pid ap = Inl err \<or> verify_claim H m = Inl err"
    and ap': "ap_verifiedPeers ap' = ap_verifiedPeers ap" "ap_rootPublicKey ap' = ap_rootPublicKey ap"
      "ap_gater ap' = Blacklist t' pid err (ap_gater ap)"
    using ch by (auto simp: checked_def split: option.splits)
  have base: "auth_inv H root t' ap pool" using inv_calmly [OF inv _ le] by simp
  have "blamed H ap t' pid \<lparr>be_until = t' + blacklistTTL, be_reason = err\<rparr>"
    using m by (auto simp: blamed_def)
  then show ?thesis using base ap' r blamed_cong [OF ap'(2), of H] by (auto simp: auth_inv_def Blacklist_def)
qed

lemma inv_stored:
  assumes inv: "auth_inv H root t ap pool" and mem: "(dir, pid, m) \<in> set pool"
  shows "auth_inv H root t (mark_verified pid m ap) (remove1 x pool)"
proof -
  obtain u where "u \<le> t" "shown H root u pid m" using inv mem by (fastforce simp: auth_inv_def)
  then have "\<exists>u m'. u \<le> t \<and> state_of m = state_of m' \<and> shown H root u pid m'" by blast
  moreover have "set (remove1 x pool) \<subseteq> set pool" by (rule set_remove1_subset)
  ultimately show ?thesis
    using inv blamed_cong [of "mark_verified pid m ap" ap H] unfolding auth_inv_def by auto
qed

lemma auth_run_inv: "auth_run H tok root hs t ap pool \<Longrightarrow> auth_inv H root t ap pool"
proof (induction rule: auth_run.induct)
  case (start t)
  then show ?case by (simp add: auth_inv_def NewAuthProtocol_def)
next
  case (callbacks t ap pool r x v)
  from callbacks.IH show ?case by (rule inv_calmly) (simp_all add: calmly_def)
next
  case (annex t ap pool w sg)
  from annex.IH show ?case by (rule inv_calmly) (simp_all add: calmly_def SetLocalProfileAnnex_def)
next
  case (incoming t ap pool t' conn conns sent pid s r ap')
  then show ?case using inv_checked incoming_checked by blast
next
  case (answered t ap pool pid m sent)
  obtain b ap1 where s: "send_handshake H sent pid (ap_localHandshake ap) ap = (b, ap1)" by (metis prod.exhaust)
  have "calmly ap ap1" using calmly_parts(3) [of ap H sent pid "ap_localHandshake ap"] by (simp add: s)
  then have inv: "auth_inv H root t ap1 pool" using answered.IH inv_calmly by blast
  have "auth_inv H root t ap1 (remove1 x pool)" for x
    using inv notin_set_remove1 unfolding auth_inv_def by metis
  then have "auth_inv H root t (rejectTransient pid ap1) (remove1 x pool)" for x using inv_calmly by (metis calmly_parts(2) order_refl)
  then show ?case using inv_stored [OF inv answered.hyps(2)] s by (cases b) (simp_all add: incoming_finish_def)
next
  case (opened t ap pool opn sent pid b ap')
  then show ?case using calmly_begin [of ap H opn sent pid] inv_calmly by fastforce
next
  case (outgoing t ap pool t' conn conns pid s r ap')
  then show ?case using inv_checked outgoing_checked by blast
next
  case (stored t ap pool pid m)
  have "auth_inv H root t (mark_verified pid m ap) (remove1 (False, pid, m) pool)"
    using inv_stored stored by blast
  then show ?case unfolding outgoing_finish_def by (rule inv_calmly) simp_all
next
  case (disconnected t ap pool n pid)
  then show ?case using blamed_cong [of "Disconnected n pid ap" ap H]
    by (auto simp: auth_inv_def Disconnected_def split: if_splits)
next
  case (dialled t ap pool t' pid)
  let ?ap = "ap\<lparr>ap_gater := snd (isBlacklisted t' pid (ap_gater ap))\<rparr>"
  have "auth_inv H root t' ap pool" using inv_calmly [OF dialled.IH _ dialled.hyps(2)] by simp
  then show ?case using blamed_cong [of ?ap ap H]
    by (auto simp: auth_inv_def isBlacklisted_def split: option.splits if_splits)
qed

text \<open>
  C5: authentication is sound under any interleaving of handshakes in both directions, disconnections and dials.
  Whoever is verified has shown, at some earlier time, a token signed with the root key, not expired at that
  time, and bound to the peer identifier that the transport authenticated; and if a session is claimed, the
  claim is signed with the key of that token, over that peer and that start. Whoever is blacklisted presented
  a handshake that failed one of these checks, no longer ago than the entry lasts.
\<close>

theorem verified_peers_authentic:
  assumes "auth_run H localToken root localHandshake t ap pool"
  shows "(\<forall>pid v. gget (ap_verifiedPeers ap) pid = Some v \<longrightarrow>
      (\<exists>t' tok. t' \<le> t \<and> vs_Token v = Some tok \<and> VerifyToken (h_auth H) (Some tok) root \<and> Unix t' \<le> tk_ExpiresAt tok \<and>
        tk_PeerID tok = a_pidString (h_auth H) pid \<and> vs_SessionStarted v = sc_StartedAt (vs_Session v) \<and>
        (0 < vs_SessionStarted v \<longrightarrow> VerifySessionClaim H (vs_Session v) (tk_PeerID tok) (tk_PublicKey tok) = Inr ()))) \<and>
    (\<forall>pid e. gget (ap_gater ap) pid = Some e \<longrightarrow>
      (\<exists>t' s m. t' \<le> t \<and> be_until e = t' + blacklistTTL \<and> readHandshake H s = Inr m \<and>
        (verifyPeerToken H t' (hs_Token m) pid ap = Inl (be_reason e) \<or> verify_claim H m = Inl (be_reason e))))"
  using auth_run_inv [OF assms] unfolding auth_inv_def blamed_def shown_def vouched_def state_of_def by fastforce

section \<open>Superseded sessions\<close>

definition handshake_codec_ok :: "HandshakeDeps \<Rightarrow> bool" where
  "handshake_codec_ok H \<longleftrightarrow> (\<forall>hs d. h_handshakeJSON H hs = Inr d \<longrightarrow> h_handshakeParse H d = Inr hs)"

text \<open>
  The frames of the handshake. What one side writes the other reads, whatever follows on the stream, as long
  as the encoding has between one and 65536 bytes; a longer one is written without complaint and refused by the
  reader; and a stream that ends inside the frame is an error, never a handshake.
\<close>

theorem handshake_frames:
  assumes "writeHandshake H hs = Inr w" and "handshake_codec_ok H" and "h_handshakeJSON H hs = Inr d"
  shows "(d \<noteq> [] \<and> length d \<le> 65536 \<longrightarrow> readHandshake H (w @ s) = Inr hs \<and>
      (\<forall>k < length w. \<exists>err. readHandshake H (take k w) = Inl err)) \<and>
    (65536 < length d \<and> length d < 2 ^ 32 \<longrightarrow> (\<exists>err. readHandshake H (w @ s) = Inl err))"
proof -
  have w: "w = be_bytes 4 (length d) @ d" and t: "hs_Token hs \<noteq> None"
    using assms by (auto simp: writeHandshake_def split: if_splits)
  have "readHandshake H (w @ s) = Inr hs" if "d \<noteq> []" "length d \<le> 65536"
    using that t assms(2,3) by (auto simp: w readHandshake_def maxTokenBytes_def handshake_codec_ok_def Let_def)
  moreover have "\<exists>err. readHandshake H (take k w) = Inl err" if "d \<noteq> []" "length d \<le> 65536" "k < length w" for k
  proof (cases "k < 4")
    case True
    then show ?thesis by (simp add: w readHandshake_def ReadFull_def)
  next
    case False
    then have "take k w = be_bytes 4 (length d) @ take (k - 4) d" "length (take (k - 4) d) < length d"
      using that by (auto simp: w)
    then show ?thesis using that
      by (simp add: readHandshake_def maxTokenBytes_def Let_def, simp add: ReadFull_def)
  qed
  moreover have "\<exists>err. readHandshake H (w @ s) = Inl err" if "65536 < length d" "length d < 2 ^ 32"
    using that by (simp add: w readHandshake_def maxTokenBytes_def Let_def)
  ultimately show ?thesis by blast
qed

definition fits :: "HandshakeDeps \<Rightarrow> AuthHandshakeMsg \<Rightarrow> bool" where
  "fits H hs \<longleftrightarrow> hs_Token hs \<noteq> None \<and> (\<exists>d. h_handshakeJSON H hs = Inr d \<and> d \<noteq> [] \<and> length d \<le> maxTokenBytes)"

lemma fits_frame:
  assumes "fits H hs" "handshake_codec_ok H"
  obtains w where "writeHandshake H hs = Inr w" "readHandshake H w = Inr hs"
proof -
  obtain d where d: "h_handshakeJSON H hs = Inr d" "d \<noteq> []" "length d \<le> 65536" and t: "hs_Token hs \<noteq> None"
    using assms(1) by (auto simp: fits_def maxTokenBytes_def)
  have "readHandshake H (be_bytes 4 (length d) @ d) = Inr hs"
    using d t assms(2) ReadFull_append [of d "length d" "[]"]
    by (auto simp: readHandshake_def maxTokenBytes_def handshake_codec_ok_def Let_def)
  then show thesis using d t that by (simp add: writeHandshake_def)
qed

text \<open>
  C20: an old session learns that it was superseded. A node \<open>C\<close> starts a handshake with a peer \<open>S\<close> that has already
  verified a later session of the same identity. \<open>S\<close> keeps that session and answers with its claim; \<open>C\<close> reads
  the answer, finds the claim signed with its own key and later than its own, and reports it, without taking \<open>S\<close> for
  verified and without blacklisting anyone.
\<close>

theorem superseded_session_learns:
  assumes "handshake_codec_ok H" and "fits H (ap_localHandshake C)" and "fits H (staleSessionResponse (vs_Session v) S)"
    and "gget (ap_verifiedPeers S) cid = Some v" and "vs_SessionStarted v = sc_StartedAt (vs_Session v)"
    and "ap_localToken C = Some tok" and "hs_Token (ap_localHandshake C) = Some tok" and "ap_onReplaced C"
    and "sc_StartedAt (hs_Session (ap_localHandshake C)) < vs_SessionStarted v"
    and "VerifySessionClaim H (vs_Session v) (tk_PeerID tok) (tk_PublicKey tok) = Inr ()"
    and "verifyPeerToken H t (Some tok) cid S = Inr ()" and "verify_claim H (ap_localHandshake C) = Inr ()"
    and "verifyPeerToken H t' (hs_Token (ap_localHandshake S)) sid C = Inr ()"
  shows "\<exists>wc ws. writeHandshake H (ap_localHandshake C) = Inr wc \<and>
    (let S' = handleIncoming H t conn conns True cid wc S;
         (r, C') = outgoing_check H t' conn' conns' sid ws C
     in ap_verifiedPeers S' = ap_verifiedPeers S \<and> ap_gater S' = ap_gater S \<and> Sent cid ws \<in> set (ap_out S') \<and>
        r = None \<and> LocalSessionReplaced (vs_Session v) \<in> set (ap_out C') \<and>
        ap_verifiedPeers C' = ap_verifiedPeers C \<and> ap_gater C' = ap_gater C)"
proof -
  obtain wc where wc: "writeHandshake H (ap_localHandshake C) = Inr wc" "readHandshake H wc = Inr (ap_localHandshake C)"
    using fits_frame [OF assms(2,1)] .
  let ?resp = "staleSessionResponse (vs_Session v) S"
  obtain ws where ws: "writeHandshake H ?resp = Inr ws" "readHandshake H ws = Inr ?resp"
    using fits_frame [OF assms(3,1)] .
  have "handleIncoming H t conn conns True cid wc S = rejectTransient cid (fire (Sent cid ws) S)"
    using wc assms(4,7,9,11,12) ws(1)
    by (simp add: handleIncoming_def incoming_check_def acceptSession_def send_handshake_def)
  moreover have "outgoing_check H t' conn' conns' sid ws C =
      (None, not_handshaking sid (rejectTransient sid (fire (LocalSessionReplaced (vs_Session v)) C)))"
    using assms(5,6,8,9,10,13)
    by (simp add: outgoing_check_def ws(2) staleSessionResponse_def verifySupersedingLocalSession_def Let_def)
  ultimately show ?thesis using wc(1)
    by (auto simp: rejectTransient_def not_handshaking_def)
qed

lemma decode_encode_int64: "in_i64 v \<Longrightarrow> decode_int64 (encodeInt64Config v) = v"
proof -
  assume v: "in_i64 v"
  have "nat (v mod 2 ^ 64) < 256 ^ 8" by simp
  then have "int (of_be (encodeInt64Config v)) = v mod 2 ^ 64" by (simp add: encodeInt64Config_def)
  moreover have "wrap64 (v mod 2 ^ 64) = wrap64 v" by (simp add: wrap64_def mod_simps)
  ultimately show ?thesis using v by (simp add: decode_int64_def)
qed

lemma readInt64Config_calm:
  assumes "ad_faults db = []"
  shows "readInt64Config key db =
    (Inr (case gget (ad_config db) key of None \<Rightarrow> (0, False)
          | Some raw \<Rightarrow> if length raw = 8 then (decode_int64 raw, True) else (0, False)), db)"
  using assms by (simp add: readInt64Config_def GetConfig_def split: option.split)

lemma length_encodeInt64 [simp]: "length (encodeInt64Config v) = 8"
  by (simp add: encodeInt64Config_def)


section \<open>Witnesses\<close>

definition peer_token :: "string \<Rightarrow> InvitationToken" where
  "peer_token p = sample_token\<lparr>tk_PeerID := p, tk_PublicKey := replicate 32 5\<rparr>"

definition peer_claim :: "int \<Rightarrow> SessionClaim" where
  "peer_claim s = \<lparr>sc_StartedAt = s, sc_Nonce = replicate 16 6, sc_Signature = 1 # replicate 31 5 @ [9]\<rparr>"

definition peer_hello :: "string \<Rightarrow> int \<Rightarrow> AuthHandshakeMsg" where
  "peer_hello p s = \<lparr>hs_Token = Some (peer_token p), hs_Session = peer_claim s, hs_Error = '''',
     hs_SupersedingSession = zero_claim, hs_ProfileWireJSON = [], hs_ProfileSignature = []\<rparr>"

definition stale_hello :: AuthHandshakeMsg where
  "stale_hello = (peer_hello ''Q'' 1)\<lparr>hs_Error := ''session_replaced'', hs_SupersedingSession := peer_claim 20\<rparr>"

definition sample_wire :: HandshakeDeps where
  "sample_wire = \<lparr>h_auth = sample_auth, h_fromSeed = (\<lambda>k. k), h_claimJSON = (\<lambda>p. Inr [9]),
     h_handshakeJSON = (\<lambda>hs. if hs = peer_hello ''P'' 10 then Inr [1] else if hs = stale_hello then Inr [2]
        else if hs = peer_hello ''Q'' 1 then Inr [3] else Inl ErrDB),
     h_handshakeParse = (\<lambda>d. if d = [1] then Inr (peer_hello ''P'' 10) else if d = [2] then Inr stale_hello
        else Inr (peer_hello ''Q'' 1)),
     h_tokenParse = (\<lambda>d. Inl ErrDB)\<rparr>"

lemma sample_codec_ok: "handshake_codec_ok sample_wire"
  by (simp add: handshake_codec_ok_def sample_wire_def)

lemma hello_neq [simp]: "peer_hello ''P'' 10 \<noteq> stale_hello" "peer_hello ''Q'' 1 \<noteq> stale_hello"
  "peer_hello ''Q'' 1 \<noteq> peer_hello ''P'' 10" "stale_hello \<noteq> peer_hello ''P'' 10"
  by (simp_all add: peer_hello_def stale_hello_def peer_claim_def)

lemma sample_fits: "fits sample_wire (peer_hello ''P'' 10)" "fits sample_wire stale_hello" "fits sample_wire (peer_hello ''Q'' 1)"
  by (simp_all add: fits_def sample_wire_def maxTokenBytes_def, simp_all add: peer_hello_def stale_hello_def)

lemma sample_claim_ok: "0 < s \<Longrightarrow> VerifySessionClaim sample_wire (peer_claim s) p (replicate 32 5) = Inr ()"
  by (simp add: VerifySessionClaim_def peer_claim_def sample_wire_def sample_auth_def numeral_eq_Suc)

lemma sample_token_ok:
  "ap_rootPublicKey ap = [2, 7] \<Longrightarrow> verifyPeerToken sample_wire 0 (Some (peer_token p)) p ap = Inr ()"
  by (simp add: verifyPeerToken_def VerifyToken_def signingPayload_def sample_wire_def sample_auth_def peer_token_def
      sample_token_def Unix_def)

lemma sample_hello_ok: "0 < s \<Longrightarrow> verify_claim sample_wire (peer_hello p s) = Inr ()"
  using sample_claim_ok [of s p] by (simp add: verify_claim_def peer_hello_def peer_token_def)

lemma hello_sel: "hs_Token (peer_hello p s) = Some (peer_token p)" "hs_Session (peer_hello p s) = peer_claim s"
  by (simp_all add: peer_hello_def)

lemma New_sel: "ap_verifiedPeers (NewAuthProtocol g tok root hs) = []" "ap_rootPublicKey (NewAuthProtocol g tok root hs) = root"
  by (simp_all add: NewAuthProtocol_def)

theorem verified_peers_authentic_witness:
  "\<exists>ap. auth_run sample_wire None [2, 7] (peer_hello ''Q'' 1) 0 ap [] \<and> IsVerified ''P'' ap \<and>
    (\<exists>tok. GetVerifiedToken ''P'' ap = Some tok \<and> tk_PeerID tok = ''P'')"
proof -
  let ?ap = "NewAuthProtocol [] None [2, 7] (peer_hello ''Q'' 1)" and ?m = "peer_hello ''P'' 10"
  obtain w where w: "readHandshake sample_wire w = Inr ?m" using fits_frame [OF sample_fits(1) sample_codec_ok] .
  have "incoming_check sample_wire 0 ''c'' [] True ''P'' w ?ap = (Some ?m, ?ap)"
    using w sample_token_ok [of ?ap "''P''"] sample_hello_ok [of 10 "''P''"]
    by (simp add: incoming_check_def acceptSession_def hello_sel New_sel)
  from auth_run.incoming [OF auth_run.start order_refl this]
  have "auth_run sample_wire None [2, 7] (peer_hello ''Q'' 1) 0 ?ap [(True, ''P'', ?m)]" by simp
  from auth_run.answered [OF this, of "''P''" ?m True]
  have run: "auth_run sample_wire None [2, 7] (peer_hello ''Q'' 1) 0 (incoming_finish sample_wire True ''P'' ?m ?ap) []" by simp
  obtain w' where "writeHandshake sample_wire (peer_hello ''Q'' 1) = Inr w'" using fits_frame [OF sample_fits(3) sample_codec_ok] .
  then have v: "gget (ap_verifiedPeers (incoming_finish sample_wire True ''P'' ?m ?ap)) ''P'' = Some (state_of ?m)"
    by (simp add: incoming_finish_def send_handshake_def NewAuthProtocol_def)
  have "a_pidString (h_auth sample_wire) ''P'' = ''P''" by (simp add: sample_wire_def sample_auth_def)
  then have "\<exists>tok. vs_Token (state_of ?m) = Some tok \<and> tk_PeerID tok = ''P''"
    using verified_peers_authentic [OF run] v by metis
  then show ?thesis using run v by (auto simp: IsVerified_def GetVerifiedToken_def ghas_def)
qed

theorem handshake_frames_witness:
  "\<exists>w. writeHandshake sample_wire (peer_hello ''P'' 10) = Inr w \<and> readHandshake sample_wire (w @ [7]) = Inr (peer_hello ''P'' 10)"
proof -
  obtain w where w: "writeHandshake sample_wire (peer_hello ''P'' 10) = Inr w" using fits_frame [OF sample_fits(1) sample_codec_ok] .
  then show ?thesis using handshake_frames [OF w sample_codec_ok, of "[1]" "[7]"] by (simp add: sample_wire_def)
qed

definition old_client :: AuthProtocol where
  "old_client = (NewAuthProtocol [] (Some (peer_token ''P'')) [2, 7] (peer_hello ''P'' 10))\<lparr>ap_onReplaced := True\<rparr>"

theorem superseded_session_learns_witness:
  "\<exists>ws. LocalSessionReplaced (peer_claim 20) \<in> set (ap_out (snd (outgoing_check sample_wire 0 ''c'' [] ''Q'' ws old_client)))"
proof -
  let ?v = "state_of (peer_hello ''P'' 20)"
  let ?S = "(NewAuthProtocol [] None [2, 7] (peer_hello ''Q'' 1))\<lparr>ap_verifiedPeers := [(''P'', ?v)]\<rparr>"
  have sel: "vs_Session ?v = peer_claim 20" "vs_SessionStarted ?v = 20" "sc_StartedAt (peer_claim s) = s"
    "hs_Token (peer_hello p s) = Some (peer_token p)" "hs_Session (peer_hello p s) = peer_claim s"
    "tk_PublicKey (peer_token p) = replicate 32 5" for p s
    by (simp_all add: state_of_def peer_hello_def peer_claim_def peer_token_def)
  have stale: "staleSessionResponse (vs_Session ?v) ?S = stale_hello"
    by (simp add: staleSessionResponse_def NewAuthProtocol_def stale_hello_def sel)
  have "\<exists>wc ws. writeHandshake sample_wire (ap_localHandshake old_client) = Inr wc \<and>
      (let S' = handleIncoming sample_wire 0 ''d'' [] True ''P'' wc ?S;
           (r, C') = outgoing_check sample_wire 0 ''c'' [] ''Q'' ws old_client
       in ap_verifiedPeers S' = ap_verifiedPeers ?S \<and> ap_gater S' = ap_gater ?S \<and> Sent ''P'' ws \<in> set (ap_out S') \<and>
          r = None \<and> LocalSessionReplaced (vs_Session ?v) \<in> set (ap_out C') \<and>
          ap_verifiedPeers C' = ap_verifiedPeers old_client \<and> ap_gater C' = ap_gater old_client)"
    by (rule superseded_session_learns [OF sample_codec_ok, where tok = "peer_token ''P''"])
      (use sample_fits stale sample_claim_ok [of 20] sample_token_ok sample_hello_ok [of 10] in
        \<open>simp_all add: old_client_def NewAuthProtocol_def sel gget_Cons\<close>)
  then obtain ws where "LocalSessionReplaced (peer_claim 20) \<in> set (ap_out (snd (outgoing_check sample_wire 0 ''c'' [] ''Q'' ws old_client)))"
    by (auto simp: Let_def case_prod_beta sel)
  then show ?thesis by blast
qed


end
