(* ===== verification/OfflineSync.thy ===== *)
theory OfflineSync
  imports MessageLoop Auth
begin

text \<open>
  Catching up from a peer: \<^verbatim>\<open>service/offline_sync.go\<close> over the frames of \<^verbatim>\<open>adapter/p2p/offline_wire.go\<close>, and the
  replay of pending envelopes of \<^verbatim>\<open>service/recovery_replay.go\<close>. The puller names its groups and how far it has
  read the log of the peer; the responder sends what comes after, page by page; the puller hands the envelopes
  to its coordinators in order, moves its cursor over those that are settled, and acknowledges. A stream is the
  list of bytes that arrive on it, and \<open>room\<close> is how many bytes it takes before a write fails. One call is one
  step of the model. The theorems are about a complete exchange, about what a peer can get and change, and about
  how a group that is stuck escalates.
\<close>

section \<open>Messages\<close>

record OfflineSyncRequestGroup =
  rg_GroupID :: string
  rg_AfterSeq :: int

record OfflineSyncRequestV1 =
  rq_V :: int
  rq_Groups :: "OfflineSyncRequestGroup list"

record OfflineSyncEntryV1 =
  se_Seq :: int
  se_Envelope :: bytes

record OfflineSyncBatchV1 =
  sb_GroupID :: string
  sb_Entries :: "OfflineSyncEntryV1 list"
  sb_HasMore :: bool

record OfflineSyncAckGroupV1 =
  ag_GroupID :: string
  ag_AckedSeq :: int

record OfflineSyncAckV1 =
  sa_V :: int
  sa_Groups :: "OfflineSyncAckGroupV1 list"

record OfflineDeliveryAckGroupV1 =
  dg_GroupID :: string
  dg_AckedSeq :: int

record OfflineDeliveryAckV1 =
  da_V :: int
  da_Recipient :: string
  da_Groups :: "OfflineDeliveryAckGroupV1 list"

text \<open>What the streams take from outside: \<^verbatim>\<open>encoding/json\<close> at these types, and the text of a peer identifier.\<close>

record SyncDeps =
  y_encRequest :: "OfflineSyncRequestV1 \<Rightarrow> error + bytes"
  y_decRequest :: "bytes \<Rightarrow> error + OfflineSyncRequestV1"
  y_encBatch :: "OfflineSyncBatchV1 \<Rightarrow> error + bytes"
  y_decBatch :: "bytes \<Rightarrow> error + OfflineSyncBatchV1"
  y_encAck :: "OfflineSyncAckV1 \<Rightarrow> error + bytes"
  y_decAck :: "bytes \<Rightarrow> error + OfflineSyncAckV1"
  y_encDelivery :: "OfflineDeliveryAckV1 \<Rightarrow> error + bytes"
  y_decDelivery :: "bytes \<Rightarrow> error + OfflineDeliveryAckV1"
  y_pidString :: "peer_id \<Rightarrow> string"

definition ReplayStateBlockedStaleRequiresSnapshot :: ReplayEnvelopeState where
  "ReplayStateBlockedStaleRequiresSnapshot = ''BLOCKED_STALE_REQUIRES_SNAPSHOT''"

definition ReplayStateBlockedDecryptFailed :: ReplayEnvelopeState where
  "ReplayStateBlockedDecryptFailed = ''BLOCKED_DECRYPT_FAILED''"

definition offlineSyncShouldAdvanceCursor :: "ReplayEnvelopeState \<Rightarrow> bool" where
  "offlineSyncShouldAdvanceCursor state \<longleftrightarrow> state \<in> {ReplayStateApplied, ReplayStateDuplicateApplied,
     ReplayStateStaleEpoch, ReplayStateDecryptFailed, ReplayStateBlockedStaleRequiresSnapshot,
     ReplayStateBlockedDecryptFailed}"

text \<open>A write on a stream: whether it succeeded, what got out, and the room that is left.\<close>

definition stream_write :: "bytes \<Rightarrow> nat \<Rightarrow> bool \<times> bytes \<times> nat" where
  "stream_write w room = (length w \<le> room, take room w, room - length w)"

definition write_frame :: "('a \<Rightarrow> error + bytes) \<Rightarrow> 'a \<Rightarrow> nat \<Rightarrow> bool \<times> bytes \<times> nat" where
  "write_frame marshal v room =
    (case WriteOfflineJSONFrame marshal v of
       Inl _ \<Rightarrow> (False, [], room)
     | Inr w \<Rightarrow> stream_write w room)"

section \<open>The responder\<close>

definition entry_of :: "EnvelopeRecord \<Rightarrow> OfflineSyncEntryV1" where
  "entry_of rec = \<lparr>se_Seq = er_Seq rec, se_Envelope = er_Envelope rec\<rparr>"

definition page_batch :: "string \<Rightarrow> EnvelopeRecord list \<Rightarrow> OfflineSyncBatchV1" where
  "page_batch gid recs = \<lparr>sb_GroupID = gid, sb_Entries = map entry_of recs, sb_HasMore = (length recs = 50)\<rparr>"

lemma GetEnvelopesSince_page:
  assumes "GetEnvelopesSince gid a 50 db = (Inr recs, db1)"
  shows "recs = take 50 (log_after gid a db)" "db1 = unfaulted db"
  using assms unfolding GetEnvelopesSince_def
  by (cases rule: with_io_cases [of "\<lambda>db. (let n = (if (50::int) < 1 then 50 else 50)
      in (Inr (sql_limit n (log_after gid a db)), db))" db]; simp add: sql_limit_def)+

lemma log_after_shrinks:
  assumes "r \<in> set (log_after gid a db)"
  shows "length (log_after gid (er_Seq r) db) < length (log_after gid a db)"
proof -
  obtain q where q: "q \<in> set (db_log db)" "er_GroupID q = gid" "a < er_Seq q" "er_Seq q = er_Seq r"
    using assms by (auto simp: log_after_def)
  let ?xs = "filter (\<lambda>x. er_GroupID x = gid \<and> er_Seq x > a) (db_log db)"
  have "filter (\<lambda>x. er_GroupID x = gid \<and> er_Seq x > er_Seq r) (db_log db) = filter (\<lambda>x. er_Seq x > er_Seq r) ?xs"
    using q by (auto intro!: filter_cong)
  moreover have "length (filter (\<lambda>x. er_Seq x > er_Seq r) ?xs) < length ?xs"
    using q by (intro length_filter_less [of q]) auto
  ultimately have "length (filter (\<lambda>x. er_GroupID x = gid \<and> er_Seq x > er_Seq r) (db_log db)) < length ?xs" by simp
  then show ?thesis by (simp add: log_after_def order_by_def)
qed

lemma page_advances:
  assumes "GetEnvelopesSince gid a 50 db = (Inr recs, db1)" and "\<not> length recs < 50"
  shows "length (log_after gid (er_Seq (last recs)) db1) < length (log_after gid a db)"
proof -
  have page: "recs = take 50 (log_after gid a db)" "db1 = unfaulted db" "recs \<noteq> []"
    using GetEnvelopesSince_page [OF assms(1)] assms(2) by auto
  then have "last recs \<in> set (log_after gid a db)" by (metis in_set_takeD last_in_set)
  then show ?thesis using log_after_shrinks page(2) by simp
qed

function serve_group :: "SyncDeps \<Rightarrow> string \<Rightarrow> int \<Rightarrow> nat \<Rightarrow> DB \<Rightarrow> (bool \<times> bytes \<times> nat) \<times> DB" where
  "serve_group Y gid after room db =
    (case GetEnvelopesSince gid after 50 db of
       (Inl _, db1) \<Rightarrow> ((True, [], room), db1)
     | (Inr recs, db1) \<Rightarrow>
        (case write_frame (y_encBatch Y) (page_batch gid recs) room of
           (False, w, room1) \<Rightarrow> ((False, w, room1), db1)
         | (True, w, room1) \<Rightarrow>
            if length recs < 50 then ((True, w, room1), db1)
            else case serve_group Y gid (er_Seq (last recs)) room1 db1 of
                ((ok, w2, room2), db2) \<Rightarrow> ((ok, w @ w2, room2), db2)))"
  by pat_completeness auto
termination
  by (relation "measure (\<lambda>(Y, gid, after, room, db). length (log_after gid after db))")
    (auto dest!: sym [of _ "GetEnvelopesSince _ _ _ _"] page_advances)

declare serve_group.simps [simp del]

fun serve_groups :: "SyncDeps \<Rightarrow> OfflineSyncRequestGroup list \<Rightarrow> nat \<Rightarrow> DB \<Rightarrow> (bool \<times> bytes \<times> nat) \<times> DB" where
  "serve_groups Y [] room db = ((True, [], room), db)"
| "serve_groups Y (g # gs) room db =
    (if rg_GroupID g = '''' then serve_groups Y gs room db
     else case serve_group Y (rg_GroupID g) (rg_AfterSeq g) room db of
         ((False, w, room1), db1) \<Rightarrow> ((False, w, room1), db1)
       | ((True, w, room1), db1) \<Rightarrow>
          (case serve_groups Y gs room1 db1 of ((ok, w2, room2), db2) \<Rightarrow> ((ok, w @ w2, room2), db2)))"

fun record_acks :: "time \<Rightarrow> string \<Rightarrow> (string \<times> int) list \<Rightarrow> DB \<Rightarrow> DB" where
  "record_acks now peerID [] db = db"
| "record_acks now peerID ((gid, seq) # acks) db =
    record_acks now peerID acks (if gid = '''' then db else snd (RecordSyncAck now peerID gid seq db))"

definition sync_acks :: "SyncDeps \<Rightarrow> time \<Rightarrow> peer_id \<Rightarrow> bytes \<Rightarrow> DB \<Rightarrow> DB" where
  "sync_acks Y now remote s db =
    (case ReadOfflineJSONFrame (y_decAck Y) s of
       Inl _ \<Rightarrow> db
     | Inr (ack, _) \<Rightarrow>
        if sa_V ack \<noteq> 1 then db
        else record_acks now (y_pidString Y remote) (map (\<lambda>ag. (ag_GroupID ag, ag_AckedSeq ag)) (sa_Groups ack)) db)"

text \<open>\<open>ap\<close> is \<open>None\<close> where the node has no authentication; the storage is open. The result is what goes to the peer.\<close>

definition handleOfflineSyncStream ::
  "SyncDeps \<Rightarrow> AuthProtocol option \<Rightarrow> time \<Rightarrow> peer_id \<Rightarrow> bytes \<Rightarrow> nat \<Rightarrow> DB \<Rightarrow> bytes \<times> DB" where
  "handleOfflineSyncStream Y ap now remote s room db =
    (if (case ap of None \<Rightarrow> False | Some a \<Rightarrow> \<not> IsVerified remote a) then ([], db)
     else case ReadOfflineJSONFrame (y_decRequest Y) s of
         Inl _ \<Rightarrow> ([], db)
       | Inr (req, s1) \<Rightarrow>
          if rq_V req \<noteq> 1 then ([], db)
          else case serve_groups Y (rq_Groups req) room db of
              ((False, w, _), db1) \<Rightarrow> (w, db1)
            | ((True, w, room1), db1) \<Rightarrow>
               (case stream_write WriteOfflineEndMarker room1 of
                  (False, w2, _) \<Rightarrow> (w @ w2, db1)
                | (True, w2, _) \<Rightarrow> (w @ w2, sync_acks Y now remote s1 db1)))"

definition handleOfflineDeliveryAckStream ::
  "SyncDeps \<Rightarrow> AuthProtocol option \<Rightarrow> time \<Rightarrow> peer_id \<Rightarrow> bytes \<Rightarrow> DB \<Rightarrow> DB" where
  "handleOfflineDeliveryAckStream Y ap now remote s db =
    (if (case ap of None \<Rightarrow> False | Some a \<Rightarrow> \<not> IsVerified remote a) then db
     else case ReadOfflineJSONFrame (y_decDelivery Y) s of
         Inl _ \<Rightarrow> db
       | Inr (ack, _) \<Rightarrow>
          if da_V ack \<noteq> 1 \<or> da_Recipient ack \<noteq> y_pidString Y remote then db
          else record_acks now (da_Recipient ack) (map (\<lambda>g. (dg_GroupID g, dg_AckedSeq g)) (da_Groups ack)) db)"

section \<open>The puller\<close>

text \<open>
  The part of the runtime that the pull touches: the shared database, the coordinators by group, the
  authentication, and the goroutines it started. A coordinator is run on the shared database.
\<close>

datatype service_task = ReplayPending string string | Pull peer_id | SchedulePull peer_id | DeferredHeal string

record Runtime =
  rt_db :: DB
  rt_auth :: "AuthProtocol option"
  rt_localID :: peer_id
  rt_coords :: "(string, Coord) gomap"
  rt_tasks :: "service_task list"

definition start_task :: "service_task \<Rightarrow> Runtime \<Rightarrow> Runtime" where
  "start_task t rt = rt\<lparr>rt_tasks := rt_tasks rt @ [t]\<rparr>"

definition rt_io :: "(DB \<Rightarrow> 'a \<times> DB) \<Rightarrow> Runtime \<Rightarrow> 'a \<times> Runtime" where
  "rt_io f rt = (let (r, db) = f (rt_db rt) in (r, rt\<lparr>rt_db := db\<rparr>))"

definition checkout :: "string \<Rightarrow> Runtime \<Rightarrow> Coord option" where
  "checkout gid rt = map_option (\<lambda>c. c\<lparr>c_db := rt_db rt\<rparr>) (gget (rt_coords rt) gid)"

definition checkin :: "string \<Rightarrow> Coord \<Rightarrow> Runtime \<Rightarrow> Runtime" where
  "checkin gid c rt = rt\<lparr>rt_coords := gput gid c (rt_coords rt), rt_db := c_db c\<rparr>"

text \<open>What the network answers while a stream to the peer is opened: the handshake before it, and the stream.\<close>

record Dial =
  dl_hsOpened :: bool
  dl_hsSent :: bool
  dl_conn :: string
  dl_conns :: "string list"
  dl_hsReply :: bytes
  dl_opened :: bool

definition dial :: "HandshakeDeps \<Rightarrow> time \<Rightarrow> Dial \<Rightarrow> peer_id \<Rightarrow> Runtime \<Rightarrow> bool \<times> Runtime" where
  "dial H now dl remote rt = (dl_opened dl, rt\<lparr>rt_auth := map_option
     (InitiateHandshake H now (dl_hsOpened dl) (dl_hsSent dl) (dl_conn dl) (dl_conns dl) remote (dl_hsReply dl))
     (rt_auth rt)\<rparr>)"

fun request_groups :: "string list \<Rightarrow> string \<Rightarrow> DB \<Rightarrow> OfflineSyncRequestGroup list \<times> DB" where
  "request_groups [] remote db = ([], db)"
| "request_groups (gid # gids) remote db =
    (let (r, db1) = GetOfflinePullCursor gid remote db;
         (gs, db2) = request_groups gids remote db1
     in (\<lparr>rg_GroupID = gid, rg_AfterSeq = (case r of Inl _ \<Rightarrow> 0 | Inr seq \<Rightarrow> seq)\<rparr> # gs, db2))"

definition add_batch :: "OfflineSyncBatchV1 \<Rightarrow> (string, OfflineSyncEntryV1 list) gomap \<Rightarrow> (string, OfflineSyncEntryV1 list) gomap" where
  "add_batch b pending = gput (sb_GroupID b)
    ((case gget pending (sb_GroupID b) of None \<Rightarrow> [] | Some es \<Rightarrow> es) @ sb_Entries b) pending"

lemma frame_consumes:
  "ReadOfflineJSONFrame dec s = Inr (v, s1) \<Longrightarrow> length s1 < length s"
  by (auto simp: ReadOfflineJSONFrame_def ReadOfflineRawFrame_def ReadFull_def Let_def split: sum.splits if_splits)

function read_batches :: "SyncDeps \<Rightarrow> bytes \<Rightarrow> (string, OfflineSyncEntryV1 list) gomap
    \<Rightarrow> error + (string, OfflineSyncEntryV1 list) gomap" where
  "read_batches Y s pending =
    (case ReadOfflineJSONFrame (y_decBatch Y) s of
       Inl err \<Rightarrow> if err = ErrOfflineStreamEnd then Inr pending else Inl err
     | Inr (b, s1) \<Rightarrow> read_batches Y s1 (add_batch b pending))"
  by pat_completeness auto
termination
  by (relation "measure (\<lambda>(Y, s, pending). length s)") (auto dest!: sym [of _ "ReadOfflineJSONFrame _ _"] frame_consumes)

declare read_batches.simps [simp del]

text \<open>One envelope: it is written to the log and handed to the coordinator; \<open>True\<close> is an envelope that is settled.\<close>

definition pull_entry :: "Deps \<Rightarrow> reentry \<Rightarrow> string \<Rightarrow> OfflineSyncEntryV1 \<Rightarrow> Coord \<Rightarrow> (bool \<times> Coord) option" where
  "pull_entry D k gid e c =
    (case u_envelope (d_json D) (se_Envelope e) of
       Inl _ \<Rightarrow> Some (False, c)
     | Inr env \<Rightarrow>
        if env_GroupID env \<noteq> gid \<or> env_Type env \<noteq> MsgCommit \<and> env_Type env \<noteq> MsgApplication then Some (False, c)
        else case on_db (AppendEnvelopeWithSource (d_sha256 D) (c_now c) (env_GroupID env) (env_Type env) (env_Epoch env)
                           (env_Timestamp env) (se_Envelope e) ''offline_sync'') c of
            (Inl _, c1) \<Rightarrow> Some (False, c1)
          | (Inr _, c1) \<Rightarrow> do {
              (res, c2) \<leftarrow> ReplayEnvelopesDetailed D k [se_Envelope e] c1;
              Some (case res of
                      Inr (r # _) \<Rightarrow> rr_State r \<noteq> ReplayStateFutureEpoch \<and> rr_State r \<noteq> ReplayStateBlockedMissingPriorEpoch \<and>
                                     offlineSyncShouldAdvanceCursor (rr_State r)
                    | _ \<Rightarrow> False, c2) })"

fun pull_entries :: "Deps \<Rightarrow> reentry \<Rightarrow> string \<Rightarrow> OfflineSyncEntryV1 list \<Rightarrow> int \<Rightarrow> Coord \<Rightarrow> (int \<times> Coord) option" where
  "pull_entries D k gid [] lastSuccessSeq c = Some (lastSuccessSeq, c)"
| "pull_entries D k gid (e # es) lastSuccessSeq c = do {
    (ok, c1) \<leftarrow> pull_entry D k gid e c;
    if ok then pull_entries D k gid es (se_Seq e) c1 else Some (lastSuccessSeq, c1) }"

text \<open>\<^verbatim>\<open>sort.Slice\<close> leaves the order of equal keys open; the sort here is the stable one.\<close>

definition pull_group ::
  "SyncDeps \<Rightarrow> (string \<Rightarrow> Deps) \<Rightarrow> nat \<Rightarrow> peer_id \<Rightarrow> string \<Rightarrow> OfflineSyncEntryV1 list
    \<Rightarrow> (string, int) gomap \<Rightarrow> Runtime \<Rightarrow> ((string, int) gomap \<times> Runtime) option" where
  "pull_group Y Ds n remote gid entries maxByGroup rt =
    (case checkout gid rt of
       None \<Rightarrow> Some (maxByGroup, rt)
     | Some c \<Rightarrow> do {
         (lastSuccessSeq, c1) \<leftarrow> pull_entries (Ds gid) (reenter (Ds gid) n) gid (order_by se_Seq entries) 0 c;
         let rt1 = checkin gid c1 rt;
         Some (if lastSuccessSeq > 0
               then (gput gid lastSuccessSeq maxByGroup,
                     start_task (ReplayPending gid ''offline_sync'')
                       (snd (rt_io (SetOfflinePullCursor gid (y_pidString Y remote) lastSuccessSeq) rt1)))
               else (maxByGroup, rt1)) })"

fun pull_groups ::
  "SyncDeps \<Rightarrow> (string \<Rightarrow> Deps) \<Rightarrow> nat \<Rightarrow> peer_id \<Rightarrow> (string \<times> OfflineSyncEntryV1 list) list
    \<Rightarrow> (string, int) gomap \<Rightarrow> Runtime \<Rightarrow> ((string, int) gomap \<times> Runtime) option" where
  "pull_groups Y Ds n remote [] maxByGroup rt = Some (maxByGroup, rt)"
| "pull_groups Y Ds n remote ((gid, entries) # ps) maxByGroup rt = do {
    (maxByGroup1, rt1) \<leftarrow> pull_group Y Ds n remote gid entries maxByGroup rt;
    pull_groups Y Ds n remote ps maxByGroup1 rt1 }"

definition sync_ack :: "(string, int) gomap \<Rightarrow> OfflineSyncAckV1" where
  "sync_ack maxByGroup = \<lparr>sa_V = 1, sa_Groups = order_by ag_GroupID
     (map (\<lambda>(gid, m). \<lparr>ag_GroupID = gid, ag_AckedSeq = m\<rparr>) (filter (\<lambda>(gid, m). \<not> m \<le> 0) maxByGroup))\<rparr>"

text \<open>
  The result is the error that is returned, what was written to the peer, and the runtime. \<open>iter\<close> is the order
  in which the map of received entries is ranged over.
\<close>

definition pullOfflineSyncFromPeerOnce ::
  "SyncDeps \<Rightarrow> HandshakeDeps \<Rightarrow> (string \<Rightarrow> Deps) \<Rightarrow> nat
    \<Rightarrow> ((string, OfflineSyncEntryV1 list) gomap \<Rightarrow> (string, OfflineSyncEntryV1 list) gomap)
    \<Rightarrow> time \<Rightarrow> Dial \<Rightarrow> nat \<Rightarrow> peer_id \<Rightarrow> bytes \<Rightarrow> Runtime \<Rightarrow> ((error + unit) \<times> bytes \<times> Runtime) option" where
  "pullOfflineSyncFromPeerOnce Y H Ds n iter now dl room remote s rt =
    (if rt_coords rt = [] then Some (Inr (), [], rt)
     else
       let (groups, rt1) = rt_io (request_groups (sort (gkeys (rt_coords rt))) (y_pidString Y remote)) rt;
           (opened, rt2) = dial H now dl remote rt1
       in if \<not> opened then Some (Inl (ErrMsg ''NewStream''), [], rt2)
       else case write_frame (y_encRequest Y) \<lparr>rq_V = 1, rq_Groups = groups\<rparr> room of
           (False, w, _) \<Rightarrow> Some (Inl (ErrMsg ''write request''), w, rt2)
         | (True, w, room1) \<Rightarrow>
            (case read_batches Y s [] of
               Inl err \<Rightarrow> Some (Inl err, w, rt2)
             | Inr pending \<Rightarrow> do {
                 (maxByGroup, rt3) \<leftarrow> pull_groups Y Ds n remote (iter pending) [] rt2;
                 let (_, w2, _) = write_frame (y_encAck Y) (sync_ack maxByGroup) room1;
                 Some (Inr (), w @ w2, rt3) }))"

text \<open>
  \<^verbatim>\<open>scheduleOfflineSyncPull\<close> makes at most three attempts; each finds the peer connected or not and has its own
  network. \<open>unsupported\<close> tells the error of a peer that has not registered the protocol yet.
\<close>

fun pull_attempts :: "('a \<Rightarrow> Runtime \<Rightarrow> ((error + unit) \<times> bytes \<times> Runtime) option) \<Rightarrow> (error \<Rightarrow> bool)
    \<Rightarrow> (bool \<times> 'a) list \<Rightarrow> Runtime \<Rightarrow> Runtime option" where
  "pull_attempts pull unsupported [] rt = Some rt"
| "pull_attempts pull unsupported ((connected, net) # as) rt =
    (if \<not> connected then Some rt
     else do { (res, _, rt1) \<leftarrow> pull net rt;
               case res of
                 Inl err \<Rightarrow> if unsupported err then pull_attempts pull unsupported as rt1 else Some rt1
               | Inr _ \<Rightarrow> Some rt1 })"

definition scheduleOfflineSyncPull where
  "scheduleOfflineSyncPull Y H Ds n iter unsupported remote attempts rt =
    pull_attempts (\<lambda>(now, dl, room, s). pullOfflineSyncFromPeerOnce Y H Ds n iter now dl room remote s)
      unsupported (take 3 attempts) rt"

definition flushPendingDeliveryAcksTo ::
  "SyncDeps \<Rightarrow> HandshakeDeps \<Rightarrow> time \<Rightarrow> Dial \<Rightarrow> nat \<Rightarrow> peer_id \<Rightarrow> Runtime \<Rightarrow> bytes \<times> Runtime" where
  "flushPendingDeliveryAcksTo Y H now dl room remote rt =
    (case rt_io (ListPendingDeliveryAcksForTarget (y_pidString Y remote)) rt of
       (Inl _, rt1) \<Rightarrow> ([], rt1)
     | (Inr rows, rt1) \<Rightarrow>
        if rows = [] then ([], rt1)
        else
          let (opened, rt2) = dial H now dl remote rt1;
              ack = \<lparr>da_V = 1, da_Recipient = y_pidString Y (rt_localID rt2),
                     da_Groups = map (\<lambda>r. \<lparr>dg_GroupID = pa_GroupID r, dg_AckedSeq = pa_AckedSeq r\<rparr>) rows\<rparr>
          in if \<not> opened then ([], rt2)
          else case write_frame (y_encDelivery Y) ack room of
              (False, w, _) \<Rightarrow> (w, rt2)
            | (True, w, _) \<Rightarrow> (w, fold (\<lambda>r rt. snd (rt_io (DeletePendingDeliveryAck (pa_ID r)) rt)) rows rt2))"

definition runOfflineEnvelopeGC :: "time \<Rightarrow> CoordinatorConfig \<Rightarrow> Runtime \<Rightarrow> Runtime" where
  "runOfflineEnvelopeGC now cfg rt =
    snd (rt_io (PruneEnvelopes (Unix (now - EnvelopeLogTTL cfg)) (EnvelopeLogMaxPerGroup cfg)) rt)"

definition TriggerOfflineSync :: "peer_id list option \<Rightarrow> Runtime \<Rightarrow> (error + unit) \<times> Runtime" where
  "TriggerOfflineSync transport rt =
    (case transport of
       None \<Rightarrow> (Inl (ErrMsg ''transport not ready''), rt)
     | Some peers \<Rightarrow> (Inr (), fold (\<lambda>p. start_task (Pull p)) peers rt))"

section \<open>Replaying what is pending\<close>

record replay_progress =
  rv_applied :: nat
  rv_progressed :: bool
  rv_blocked :: "(string \<times> int) list"  \<comment> \<open>reason and sequence number of each \<^verbatim>\<open>group:replay_blocked\<close>\<close>

definition emitReplayBlocked :: "string \<Rightarrow> string \<Rightarrow> EnvelopeRecord \<Rightarrow> replay_progress \<Rightarrow> replay_progress" where
  "emitReplayBlocked groupID reason rec rv =
    (if TrimSpace groupID = '''' \<or> TrimSpace reason = '''' then rv
     else rv\<lparr>rv_blocked := rv_blocked rv @ [(TrimSpace reason, er_Seq rec)]\<rparr>)"

definition block_record ::
  "string \<Rightarrow> EnvelopeRecord \<Rightarrow> ReplayEnvelopeState \<Rightarrow> string \<Rightarrow> string \<Rightarrow> bool \<Rightarrow> replay_progress \<Rightarrow> Coord \<Rightarrow> replay_progress \<times> Coord" where
  "block_record gid rec state lastErr reason progressed rv c =
    ((emitReplayBlocked gid reason rec rv)\<lparr>rv_progressed := progressed\<rparr>,
     snd (on_db (MarkEnvelopeReplayState gid (er_EnvelopeHash rec) state lastErr (c_now c)) c))"

definition replay_outcome ::
  "string \<Rightarrow> EnvelopeRecord \<Rightarrow> ReplayEnvelopeState \<Rightarrow> replay_progress \<Rightarrow> Coord \<Rightarrow> replay_progress \<times> Coord" where
  "replay_outcome gid rec state rv c =
    (if state = ReplayStateApplied then (rv\<lparr>rv_applied := rv_applied rv + 1, rv_progressed := True\<rparr>, c)
     else if state = ReplayStateDuplicateApplied then (rv\<lparr>rv_progressed := True\<rparr>, c)
     else if state = ReplayStateStaleEpoch then
       block_record gid rec ReplayStateBlockedStaleRequiresSnapshot ''stale_epoch_requires_recovery_snapshot''
         ''stale_epoch_requires_recovery_snapshot'' True rv c
     else if state = ReplayStateDecryptFailed then
       block_record gid rec ReplayStateBlockedDecryptFailed ''decrypt_failed_or_missing_past_key''
         ''decrypt_failed_or_missing_past_key'' True rv c
     else if state = ReplayStateFutureEpoch then
       block_record gid rec ReplayStateBlockedMissingPriorEpoch ''future_epoch_missing_prior_commit''
         ''future_epoch_missing_prior_commit'' False rv c
     else block_record gid rec ReplayStateBlockedDecryptFailed state state False rv c)"

fun replay_records ::
  "Deps \<Rightarrow> reentry \<Rightarrow> string \<Rightarrow> EnvelopeRecord list \<Rightarrow> replay_progress \<Rightarrow> Coord \<Rightarrow> (replay_progress \<times> Coord) option" where
  "replay_records D k gid [] rv c = Some (rv, c)"
| "replay_records D k gid (rec # recs) rv c = do {
    (res, c1) \<leftarrow> ReplayEnvelopesDetailed D k [er_Envelope rec] c;
    case res of
      Inr (r # _) \<Rightarrow>
        let (rv1, c2) = replay_outcome gid rec (rr_State r) rv c1 in
        if rv_progressed rv1 then replay_records D k gid recs rv1 c2 else Some (rv1, c2)
    | _ \<Rightarrow> Some (rv, c1) }"

text \<open>The rounds of the loop, bounded by \<open>m\<close>: each that does not end the loop has processed pending envelopes.\<close>

fun replay_rounds ::
  "nat \<Rightarrow> Deps \<Rightarrow> reentry \<Rightarrow> string \<Rightarrow> bool \<Rightarrow> replay_progress \<Rightarrow> Coord \<Rightarrow> (bool \<times> replay_progress \<times> Coord) option" where
  "replay_rounds 0 D k gid hasPending rv c = None"
| "replay_rounds (Suc m) D k gid hasPending rv c =
    (case on_db (GetPendingEnvelopes gid 100) c of
       (Inl _, c1) \<Rightarrow> Some (hasPending, rv, c1)
     | (Inr recs, c1) \<Rightarrow>
        if recs = [] then Some (hasPending, rv, c1)
        else do {
          (rv1, c2) \<leftarrow> replay_records D k gid recs (rv\<lparr>rv_progressed := False\<rparr>) c1;
          if rv_progressed rv1 then replay_rounds m D k gid True rv1 c2 else Some (True, rv1, c2) })"

definition after_replay ::
  "string \<Rightarrow> (peer_id \<Rightarrow> bool) \<Rightarrow> u64 \<Rightarrow> bool \<Rightarrow> replay_progress \<Rightarrow> Coord \<Rightarrow> Runtime \<Rightarrow> Coord \<times> Runtime" where
  "after_replay gid connected startEpoch hasPending rv c rt =
    (if rv_applied rv > 0 \<or> CurrentEpoch c > startEpoch then (ResetSyncRetryAttempts c, rt)
     else if hasPending then
       let (attempts, c1) = IncrementSyncRetryAttempts c in
       if attempts < 3
       then (c1, case find (\<lambda>m. m \<noteq> rt_localID rt \<and> connected m) (ActiveMembers c1) of
                   None \<Rightarrow> rt
                 | Some targetPeer \<Rightarrow> if targetPeer = '''' then rt else start_task (SchedulePull targetPeer) rt)
       else (c1, start_task (DeferredHeal gid) rt)
     else (c, rt))"

definition replayPendingEnvelopesForGroup ::
  "(string \<Rightarrow> Deps) \<Rightarrow> nat \<Rightarrow> nat \<Rightarrow> (peer_id \<Rightarrow> bool) \<Rightarrow> string \<Rightarrow> Runtime \<Rightarrow> (replay_progress \<times> Runtime) option" where
  "replayPendingEnvelopesForGroup Ds n m connected gid rt =
    (let rv0 = \<lparr>rv_applied = 0, rv_progressed = False, rv_blocked = []\<rparr> in
     if gid = '''' then Some (rv0, rt)
     else case checkout gid rt of
         None \<Rightarrow> Some (rv0, rt)
       | Some c \<Rightarrow> do {
           (hasPending, rv, c1) \<leftarrow> replay_rounds m (Ds gid) (reenter (Ds gid) n) gid False rv0
             (SetOperationalMode ModeCatchingUp c);
           let (c2, rt1) = after_replay gid connected (CurrentEpoch c) hasPending rv c1 rt;
           Some (rv, checkin gid (SetOperationalMode ModeLive c2) rt1) })"

section \<open>What the responder sends is what the puller reads\<close>

lemma unfaulted_calm [simp]: "db_faults db = [] \<Longrightarrow> unfaulted db = db"
  by (simp add: unfaulted_def)

lemma with_io_quiet: "db_faults db = [] \<Longrightarrow> with_io f db = f db"
  by (simp add: with_io_def)

text \<open>JSON of the batches of a group, of the request and of the acknowledgements is read back.\<close>

definition batches_decode :: "SyncDeps \<Rightarrow> string \<Rightarrow> bool" where
  "batches_decode Y gid \<longleftrightarrow> (\<forall>es more d. y_encBatch Y \<lparr>sb_GroupID = gid, sb_Entries = es, sb_HasMore = more\<rparr> = Inr d
     \<longrightarrow> y_decBatch Y d = Inr \<lparr>sb_GroupID = gid, sb_Entries = es, sb_HasMore = more\<rparr>)"

definition got :: "string \<Rightarrow> OfflineSyncEntryV1 list \<Rightarrow> (string, OfflineSyncEntryV1 list) gomap \<Rightarrow> (string, OfflineSyncEntryV1 list) gomap" where
  "got gid es pending = gput gid ((case gget pending gid of None \<Rightarrow> [] | Some xs \<Rightarrow> xs) @ es) pending"

lemma got_got: "got gid ys (got gid xs pending) = got gid (xs @ ys) pending"
  by (simp add: got_def) (simp add: gput_def)

lemma read_batch:
  assumes "batches_decode Y gid" and "WriteOfflineJSONFrame (y_encBatch Y) (page_batch gid recs) = Inr w"
  shows "read_batches Y (w @ s) pending = read_batches Y s (got gid (map entry_of recs) pending)"
proof -
  have "ReadOfflineJSONFrame (y_decBatch Y) (w @ s) = Inr (page_batch gid recs, s)"
    using assms(1) by (intro read_written_frame [OF assms(2)]) (simp add: batches_decode_def page_batch_def)
  then show ?thesis
    by (simp add: read_batches.simps [of Y "w @ s"]) (simp add: add_batch_def got_def page_batch_def)
qed

lemma read_cut_frame:
  assumes "WriteOfflineJSONFrame enc v = Inr w" and "r < length w"
  shows "ReadOfflineJSONFrame dec (take r w) = Inl (ErrMsg ''unexpected EOF'')"
proof -
  obtain data where w: "w = be_bytes 4 (length data) @ data" "data \<noteq> []" "length data \<le> offlineMaxFrame"
    using assms(1) by (auto simp: WriteOfflineJSONFrame_def not_less split: sum.splits if_splits)
  show ?thesis
  proof (cases "r < 4")
    case True
    then show ?thesis by (simp add: ReadOfflineJSONFrame_def ReadOfflineRawFrame_def ReadFull_def w)
  next
    case False
    then have "take r w = be_bytes 4 (length data) @ take (r - 4) data" by (simp add: w)
    moreover have "length data mod 256 ^ 4 = length data" using w(3) by (simp add: offlineMaxFrame_def)
    moreover have "r - 4 < length data" using assms(2) w(1) False by simp
    ultimately show ?thesis
      using w(2,3)
      by (simp add: ReadOfflineJSONFrame_def ReadOfflineRawFrame_def Let_def) (simp add: ReadFull_def)
  qed
qed

lemma read_cut_batch:
  assumes "write_frame (y_encBatch Y) v room = (False, w, room1)"
  shows "read_batches Y w pending = Inl (ErrMsg ''unexpected EOF'')"
proof -
  have "ReadOfflineJSONFrame (y_decBatch Y) w = Inl (ErrMsg ''unexpected EOF'')"
  proof (cases "WriteOfflineJSONFrame (y_encBatch Y) v")
    case (Inl err)
    then show ?thesis
      using assms by (auto simp: write_frame_def ReadOfflineJSONFrame_def ReadOfflineRawFrame_def ReadFull_def)
  next
    case (Inr f)
    then have "w = take room f" "room < length f"
      using assms by (auto simp: write_frame_def stream_write_def)
    then show ?thesis using read_cut_frame [OF Inr] by simp
  qed
  then show ?thesis by (simp add: read_batches.simps [of Y w] ErrOfflineStreamEnd_def)
qed

lemma page_rest:
  assumes "storage_ok db" and "page = take 50 (log_after gid a db)" and "page \<noteq> []"
  shows "log_after gid a db = page @ log_after gid (er_Seq (last page)) db"
proof -
  have "last page \<in> set (log_after gid a db)" using assms(2,3) by (metis in_set_takeD last_in_set)
  then have "a \<le> er_Seq (last page)" using log_after_member by fastforce
  then have "log_after gid (er_Seq (last page)) db = drop 50 (log_after gid a db)"
    using log_after_step [OF assms(1), of a "er_Seq (last page)" gid]
      strict_sorted_page [OF log_after_sorted [OF assms(1)], of 50 gid a] assms(2,3) by simp
  then show ?thesis using assms(2) by (metis append_take_drop_id)
qed

lemma serve_group_frames:
  assumes "serve_group Y gid a room db = ((ok, w, room1), db1)"
    and "storage_ok db" and "db_faults db = []" and "batches_decode Y gid"
  shows "db1 = db \<and>
    (if ok then \<forall>s pending. read_batches Y (w @ s) pending = read_batches Y s (got gid (map entry_of (log_after gid a db)) pending)
     else \<forall>pending. read_batches Y w pending = Inl (ErrMsg ''unexpected EOF''))"
  using assms
proof (induction Y gid a room db arbitrary: ok w room1 db1 rule: serve_group.induct)
  case (1 Y gid a room db)
  let ?page = "take 50 (log_after gid a db)"
  have page: "GetEnvelopesSince gid a 50 db = (Inr ?page, db)"
    using \<open>db_faults db = []\<close> by (simp add: GetEnvelopesSince_def with_io_quiet sql_limit_def)
  obtain ok1 w1 r1 where wf: "write_frame (y_encBatch Y) (page_batch gid ?page) room = (ok1, w1, r1)"
    by (metis prod.exhaust)
  show ?case
  proof (cases ok1)
    case False
    then have "db1 = db" "\<not> ok" "w = w1"
      using "1.prems"(1) page wf by (auto simp: serve_group.simps [of Y gid a])
    then show ?thesis using read_cut_batch wf False by simp
  next
    case True
    then obtain f where f: "WriteOfflineJSONFrame (y_encBatch Y) (page_batch gid ?page) = Inr f" "w1 = f"
      using wf by (auto simp: write_frame_def stream_write_def split: sum.splits)
    note read = read_batch [OF \<open>batches_decode Y gid\<close> f(1)]
    show ?thesis
    proof (cases "length ?page < 50")
      case True
      then have "?page = log_after gid a db" by simp
      then show ?thesis
        using "1.prems"(1) page wf \<open>ok1\<close> True f read by (auto simp: serve_group.simps [of Y gid a])
    next
      case False
      then have ne: "?page \<noteq> []" by auto
      obtain ok2 w2 r2 db2 where rest: "serve_group Y gid (er_Seq (last ?page)) r1 db = ((ok2, w2, r2), db2)"
        by (metis prod.exhaust)
      have "ok = ok2" "w = w1 @ w2" "db1 = db2"
        using "1.prems"(1) page wf \<open>ok1\<close> False rest by (auto simp: serve_group.simps [of Y gid a])
      moreover have "map entry_of ?page @ map entry_of (log_after gid (er_Seq (last ?page)) db) = map entry_of (log_after gid a db)"
        using page_rest [OF "1.prems"(2) refl ne] by (metis map_append)
      ultimately show ?thesis
        using "1.IH" [OF page [symmetric] refl wf [symmetric] _ refl False rest] "1.prems"(2-4) \<open>ok1\<close> f read
        by (simp add: got_got)
    qed
  qed
qed

definition group_got :: "DB \<Rightarrow> OfflineSyncRequestGroup \<Rightarrow> (string, OfflineSyncEntryV1 list) gomap \<Rightarrow> (string, OfflineSyncEntryV1 list) gomap" where
  "group_got db g pending = (if rg_GroupID g = '''' then pending
     else got (rg_GroupID g) (map entry_of (log_after (rg_GroupID g) (rg_AfterSeq g) db)) pending)"

lemma serve_groups_frames:
  assumes "serve_groups Y gs room db = ((ok, w, room1), db1)"
    and "storage_ok db" and "db_faults db = []" and "\<forall>g \<in> set gs. batches_decode Y (rg_GroupID g)"
  shows "db1 = db \<and>
    (if ok then \<forall>s pending. read_batches Y (w @ s) pending = read_batches Y s (fold (group_got db) gs pending)
     else \<forall>pending. read_batches Y w pending = Inl (ErrMsg ''unexpected EOF''))"
  using assms(1,4)
proof (induction gs arbitrary: ok w room room1 db1)
  case (Cons g gs)
  show ?case
  proof (cases "rg_GroupID g = ''''")
    case True
    then show ?thesis using Cons by (simp add: group_got_def)
  next
    case False
    obtain ok1 w1 r1 d1 where g: "serve_group Y (rg_GroupID g) (rg_AfterSeq g) room db = ((ok1, w1, r1), d1)"
      by (metis prod.exhaust)
    note one = serve_group_frames [OF g assms(2,3)]
    obtain ok2 w2 r2 d2 where gs: "serve_groups Y gs r1 db = ((ok2, w2, r2), d2)" by (metis prod.exhaust)
    show ?thesis
      using one Cons.IH [OF gs] Cons.prems False g gs by (cases ok1) (auto simp: group_got_def)
  qed
qed simp

lemma got_sel: "gget (got gid es pending) j = (if j = gid then Some ((case gget pending gid of None \<Rightarrow> [] | Some xs \<Rightarrow> xs) @ es) else gget pending j)"
  by (simp add: got_def)

lemma group_got_sel: "gget (group_got db g pending) j =
    (if j = rg_GroupID g \<and> j \<noteq> '''' then Some ((case gget pending j of None \<Rightarrow> [] | Some xs \<Rightarrow> xs)
       @ map entry_of (log_after (rg_GroupID g) (rg_AfterSeq g) db)) else gget pending j)"
  by (simp add: group_got_def got_sel)

lemma gmap_ok_got: "gmap_ok pending \<Longrightarrow> gmap_ok (got gid es pending)"
  unfolding got_def by (rule gm.ok_put)

lemma groups_got_other:
  "gid \<notin> rg_GroupID ` set gs \<Longrightarrow> gget (fold (group_got db) gs pending) gid = gget pending gid"
  by (induction gs arbitrary: pending) (auto simp: group_got_sel)

lemma groups_got_keys: "set (gkeys (fold (group_got db) gs [])) \<subseteq> rg_GroupID ` set gs"
proof
  fix g assume "g \<in> set (gkeys (fold (group_got db) gs []))"
  then show "g \<in> rg_GroupID ` set gs"
    using groups_got_other [of g gs db "[]"] by (metis (mono_tags, lifting) gget_empty ghas_def mem_Collect_eq set_gkeys)
qed

lemma groups_got:
  assumes "distinct (map rg_GroupID gs)" and "g \<in> set gs" and "rg_GroupID g \<noteq> ''''" and "gget pending (rg_GroupID g) = None"
  shows "gget (fold (group_got db) gs pending) (rg_GroupID g)
    = Some (map entry_of (log_after (rg_GroupID g) (rg_AfterSeq g) db))"
  using assms
proof (induction gs arbitrary: pending)
  case (Cons h gs)
  show ?case
  proof (cases "h = g")
    case True
    then show ?thesis
      using Cons.prems groups_got_other [of "rg_GroupID g" gs] by (auto simp: group_got_sel)
  next
    case False
    then have "g \<in> set gs" "rg_GroupID h \<noteq> rg_GroupID g" using Cons.prems by auto
    then show ?thesis using Cons by (auto simp: group_got_sel)
  qed
qed simp

lemma groups_got_ok: "gmap_ok pending \<Longrightarrow> gmap_ok (fold (group_got db) gs pending)"
  by (induction gs arbitrary: pending) (simp_all add: group_got_def gmap_ok_got)

text \<open>The whole reply: either the puller reads an error, or the responder wrote everything.\<close>

lemma reply_read:
  assumes "serve_groups Y gs room db = ((ok, w, room1), db1)" "storage_ok db" "db_faults db = []"
    and "\<forall>g \<in> set gs. batches_decode Y (rg_GroupID g)"
    and "out = (if ok then w @ take room1 WriteOfflineEndMarker else w)"
    and "read_batches Y out [] = Inr pending"
  shows "ok" "4 \<le> room1" "db1 = db" "pending = fold (group_got db) gs []"
proof -
  note sg = serve_groups_frames [OF assms(1-4)]
  show ok: "ok" using sg assms(5,6) by (auto split: if_splits)
  then have r: "read_batches Y (take room1 WriteOfflineEndMarker) (fold (group_got db) gs []) = Inr pending"
    using sg assms(5,6) by simp
  show long: "4 \<le> room1"
  proof (rule ccontr)
    assume "\<not> 4 \<le> room1"
    then have "ReadOfflineJSONFrame (y_decBatch Y) (take room1 WriteOfflineEndMarker) = Inl (ErrMsg ''unexpected EOF'')"
      by (simp add: ReadOfflineJSONFrame_def ReadOfflineRawFrame_def ReadFull_def WriteOfflineEndMarker_def)
    then show False using r by (simp add: read_batches.simps [of Y "take room1 WriteOfflineEndMarker"] ErrOfflineStreamEnd_def)
  qed
  show "db1 = db" using sg by simp
  have "take room1 WriteOfflineEndMarker = WriteOfflineEndMarker @ []"
    using long by (simp add: WriteOfflineEndMarker_def)
  then show "pending = fold (group_got db) gs []"
    using r by (simp only: read_batches.simps [of Y "WriteOfflineEndMarker @ []"] read_end_marker) simp
qed

section \<open>What the puller settles\<close>

text \<open>
  An envelope is settled when it is one of the group's commits or messages, is in the log, and its replay
  ended in one of the final states. \<open>settles\<close> runs over envelopes one after the other.
\<close>

definition settles_entry :: "Deps \<Rightarrow> reentry \<Rightarrow> string \<Rightarrow> OfflineSyncEntryV1 \<Rightarrow> Coord \<Rightarrow> Coord \<Rightarrow> bool" where
  "settles_entry D k gid e c c' \<longleftrightarrow> (\<exists>env seq c1 r rs.
     u_envelope (d_json D) (se_Envelope e) = Inr env \<and> env_GroupID env = gid \<and>
     (env_Type env = MsgCommit \<or> env_Type env = MsgApplication) \<and>
     on_db (AppendEnvelopeWithSource (d_sha256 D) (c_now c) gid (env_Type env) (env_Epoch env) (env_Timestamp env)
       (se_Envelope e) ''offline_sync'') c = (Inr seq, c1) \<and>
     ReplayEnvelopesDetailed D k [se_Envelope e] c1 = Some (Inr (r # rs), c') \<and>
     offlineSyncShouldAdvanceCursor (rr_State r))"

fun settles :: "Deps \<Rightarrow> reentry \<Rightarrow> string \<Rightarrow> OfflineSyncEntryV1 list \<Rightarrow> Coord \<Rightarrow> Coord \<Rightarrow> bool" where
  "settles D k gid [] c c' \<longleftrightarrow> c' = c"
| "settles D k gid (e # es) c c' \<longleftrightarrow> (\<exists>c1. settles_entry D k gid e c c1 \<and> settles D k gid es c1 c')"

lemma advance_not_future:
  "offlineSyncShouldAdvanceCursor s \<Longrightarrow> s \<noteq> ReplayStateFutureEpoch \<and> s \<noteq> ReplayStateBlockedMissingPriorEpoch"
  by (auto simp: offlineSyncShouldAdvanceCursor_def replay_state_defs ReplayStateBlockedStaleRequiresSnapshot_def
      ReplayStateBlockedDecryptFailed_def)

lemma pull_entry_settles: "pull_entry D k gid e c = Some (True, c') \<longleftrightarrow> settles_entry D k gid e c c'"
proof
  assume "pull_entry D k gid e c = Some (True, c')"
  then show "settles_entry D k gid e c c'"
    unfolding pull_entry_def settles_entry_def
    by (auto split: sum.splits if_splits prod.splits list.splits Option.bind_splits)
next
  assume "settles_entry D k gid e c c'"
  then show "pull_entry D k gid e c = Some (True, c')"
    unfolding pull_entry_def settles_entry_def using advance_not_future by fastforce
qed

lemma pull_entries_prefix:
  assumes "pull_entries D k gid es l c = Some (l', c')"
  shows "\<exists>i c1. i \<le> length es \<and> settles D k gid (take i es) c c1 \<and>
    (i < length es \<longrightarrow> (\<forall>c2. \<not> settles_entry D k gid (es ! i) c1 c2)) \<and>
    l' = (if i = 0 then l else se_Seq (es ! (i - 1)))"
  using assms
proof (induction es arbitrary: l c)
  case (Cons e es)
  then obtain ok c1 where pe: "pull_entry D k gid e c = Some (ok, c1)" by (auto split: Option.bind_splits)
  show ?case
  proof (cases ok)
    case False
    then have "\<not> settles_entry D k gid e c c2" for c2 using pe by (auto simp: pull_entry_settles [symmetric])
    then show ?thesis using Cons.prems pe False by (intro exI [of _ 0]) auto
  next
    case True
    then have "pull_entries D k gid es (se_Seq e) c1 = Some (l', c')" using Cons.prems pe by simp
    from Cons.IH [OF this] obtain i c2 where i: "i \<le> length es" "settles D k gid (take i es) c1 c2"
      "i < length es \<longrightarrow> (\<forall>c3. \<not> settles_entry D k gid (es ! i) c2 c3)" "l' = (if i = 0 then se_Seq e else se_Seq (es ! (i - 1)))"
      by blast
    have "settles_entry D k gid e c c1" using pe True by (simp add: pull_entry_settles [symmetric])
    then show ?thesis using i by (intro exI [of _ "Suc i"] exI [of _ c2]) (auto simp: nth_Cons')
  qed
qed simp

lemma order_by_id: "sorted_wrt (<) (map key xs) \<Longrightarrow> order_by key xs = xs"
proof (induction xs)
  case (Cons x xs)
  then show ?case by (cases xs) (auto simp: order_by_def SliceStable_Cons)
qed (simp add: order_by_def SliceStable_def)

lemma checkin_sel [simp]: "gget (rt_coords (checkin gid c rt)) j = (if j = gid then Some c else gget (rt_coords rt) j)"
  "gget (rt_coords (start_task t rt)) j = gget (rt_coords rt) j" "gget (rt_coords (snd (rt_io f rt))) j = gget (rt_coords rt) j"
  by (simp_all add: checkin_def start_task_def rt_io_def case_prod_beta)

lemma pull_group_other:
  assumes "pull_group Y Ds n remote gid es mx rt = Some (mx', rt')"
  shows "j \<noteq> gid \<Longrightarrow> gget mx' j = gget mx j" "j \<noteq> gid \<Longrightarrow> gget (rt_coords rt') j = gget (rt_coords rt) j"
    "gmap_ok mx \<Longrightarrow> gmap_ok mx'" "\<forall>g m. gget mx g = Some m \<longrightarrow> 0 < m \<Longrightarrow> \<forall>g m. gget mx' g = Some m \<longrightarrow> 0 < m"
  using assms by (auto simp: pull_group_def Let_def split: option.splits if_splits Option.bind_splits)

lemma pull_group_settles:
  assumes "pull_group Y Ds n remote gid es mx rt = Some (mx', rt')" and "gget (rt_coords rt) gid = Some c"
    and "gget mx gid = None"
  shows "\<exists>db l c'. pull_entries (Ds gid) (reenter (Ds gid) n) gid (order_by se_Seq es) 0 (c\<lparr>c_db := db\<rparr>) = Some (l, c') \<and>
    gget mx' gid = (if 0 < l then Some l else None)"
proof -
  obtain l c' where "pull_entries (Ds gid) (reenter (Ds gid) n) gid (order_by se_Seq es) 0 (c\<lparr>c_db := rt_db rt\<rparr>) = Some (l, c')"
    using assms(1,2) by (auto simp: pull_group_def checkout_def split: Option.bind_splits)
  then show ?thesis
    using assms by (intro exI [of _ "rt_db rt"] exI [of _ l] exI [of _ c'])
      (auto simp: pull_group_def Let_def checkout_def split: if_splits)
qed

lemma pull_groups_maps:
  assumes "pull_groups Y Ds n remote ps mx rt = Some (mx', rt')"
  shows "j \<notin> fst ` set ps \<Longrightarrow> gget mx' j = gget mx j" "gmap_ok mx \<Longrightarrow> gmap_ok mx'"
    "\<forall>g m. gget mx g = Some m \<longrightarrow> 0 < m \<Longrightarrow> \<forall>g m. gget mx' g = Some m \<longrightarrow> 0 < m"
  using assms
proof (induction ps arbitrary: mx rt)
  case (Cons p ps)
  obtain g es where p: "p = (g, es)" by (cases p)
  have split: "\<exists>mx1 rt1. pull_group Y Ds n remote g es mx rt = Some (mx1, rt1) \<and>
      pull_groups Y Ds n remote ps mx1 rt1 = Some (mx', rt')"
    if "pull_groups Y Ds n remote (p # ps) mx rt = Some (mx', rt')" for mx rt using that by (auto simp: p split: Option.bind_splits)
  { case 1
    then obtain mx1 rt1 where one: "pull_group Y Ds n remote g es mx rt = Some (mx1, rt1)"
      "pull_groups Y Ds n remote ps mx1 rt1 = Some (mx', rt')" using split by blast
    show ?case using Cons.IH(1) [OF _ one(2)] pull_group_other(1) [OF one(1), of j] 1(1) by (simp add: p) }
  { case 2
    then obtain mx1 rt1 where one: "pull_group Y Ds n remote g es mx rt = Some (mx1, rt1)"
      "pull_groups Y Ds n remote ps mx1 rt1 = Some (mx', rt')" using split by blast
    show ?case using Cons.IH(2) [OF pull_group_other(3) [OF one(1) 2(1)] one(2)] . }
  { case 3
    then obtain mx1 rt1 where one: "pull_group Y Ds n remote g es mx rt = Some (mx1, rt1)"
      "pull_groups Y Ds n remote ps mx1 rt1 = Some (mx', rt')" using split by blast
    show ?case using Cons.IH(3) [OF pull_group_other(4) [OF one(1) 3(1)] one(2)] . }
qed auto

lemma pull_groups_settle:
  assumes "pull_groups Y Ds n remote ps mx rt = Some (mx', rt')" and "distinct (map fst ps)" and "(gid, es) \<in> set ps"
    and "gget (rt_coords rt) gid = Some c" and "gget mx gid = None"
  shows "\<exists>db l c'. pull_entries (Ds gid) (reenter (Ds gid) n) gid (order_by se_Seq es) 0 (c\<lparr>c_db := db\<rparr>) = Some (l, c') \<and>
    gget mx' gid = (if 0 < l then Some l else None)"
  using assms
proof (induction ps arbitrary: mx rt)
  case (Cons p ps)
  obtain g xs where p: "p = (g, xs)" by (cases p)
  obtain mx1 rt1 where one: "pull_group Y Ds n remote g xs mx rt = Some (mx1, rt1)"
    and more: "pull_groups Y Ds n remote ps mx1 rt1 = Some (mx', rt')"
    using Cons.prems(1) by (auto simp: p split: Option.bind_splits)
  show ?case
  proof (cases "g = gid")
    case True
    then have "xs = es" "gid \<notin> fst ` set ps" using Cons.prems(2,3) p by force+
    then show ?thesis
      using pull_group_settles [OF one [unfolded True] Cons.prems(4,5)] pull_groups_maps(1) [OF more] by simp
  next
    case False
    then show ?thesis
      using Cons.IH [OF more] Cons.prems pull_group_other(1,2) [OF one, of gid] p by auto
  qed
qed simp

section \<open>Acknowledgements\<close>

lemma RecordSyncAck_quiet:
  assumes "db_faults db = []"
  shows "db_faults (snd (RecordSyncAck now p g a db)) = []"
    and "0 < a \<Longrightarrow> acked (snd (RecordSyncAck now p g a db)) q j = (if q = p \<and> j = g then max (acked db p g) a else acked db q j)"
  using assms by (auto simp: RecordSyncAck_def with_io_quiet acked_def split: option.splits)

lemma record_acks_acked:
  assumes "db_faults db = []" and "distinct (map fst acks)" and "\<forall>(g, a) \<in> set acks. 0 < a" and "gid \<noteq> ''''"
  shows "acked (record_acks now p acks db) p gid = (case map_of acks gid of None \<Rightarrow> acked db p gid | Some a \<Rightarrow> max (acked db p gid) a)"
  using assms(1-3)
proof (induction acks arbitrary: db)
  case (Cons x acks)
  obtain g a where x: "x = (g, a)" by (cases x)
  let ?db = "if g = '''' then db else snd (RecordSyncAck now p g a db)"
  have q: "db_faults ?db = []" using RecordSyncAck_quiet(1) [OF Cons.prems(1)] Cons.prems(1) by simp
  have "acked ?db p gid = (if gid = g then max (acked db p g) a else acked db p gid)"
    using RecordSyncAck_quiet(2) [OF Cons.prems(1), of a now p g p gid] Cons.prems(3) x assms(4) by auto
  moreover have "map_of acks gid = None" if "gid = g"
    using Cons.prems(2) x that by (simp add: map_of_eq_None_iff)
  ultimately show ?case using Cons.IH [OF q] Cons.prems(2,3) x by (auto split: option.splits)
qed simp

lemma ack_groups: "ag_GroupID ` set (sa_Groups (sync_ack mx)) \<subseteq> set (gkeys mx)"
  by (force simp: sync_ack_def gkeys_def)

lemma acked_groups:
  assumes "pull_groups Y Ds n remote ps [] rt = Some (mx, rt')"
  shows "ag_GroupID ` set (sa_Groups (sync_ack mx)) \<subseteq> fst ` set ps"
proof -
  have "g \<in> fst ` set ps" if "ghas mx g" for g
    using pull_groups_maps(1) [OF assms, of g] that by (metis gget_empty ghas_def)
  then show ?thesis using ack_groups [of mx] set_gkeys [of mx] by blast
qed

lemma sync_ack_acks:
  assumes "gmap_ok mx" and "\<forall>g m. gget mx g = Some m \<longrightarrow> 0 < m"
  defines "acks \<equiv> map (\<lambda>ag. (ag_GroupID ag, ag_AckedSeq ag)) (sa_Groups (sync_ack mx))"
  shows "distinct (map fst acks)" "\<forall>(g, a) \<in> set acks. 0 < a" "map_of acks gid = gget mx gid"
proof -
  have pos: "(g, m) \<in> set mx \<Longrightarrow> 0 < m" for g m using assms(1,2) gget_iff_in_set [of mx g m] by auto
  have "filter (\<lambda>(gid, m). \<not> m \<le> 0) mx = mx" using pos by (auto simp: filter_id_conv not_le)
  then have "mset acks = mset (map (\<lambda>ag. (ag_GroupID ag, ag_AckedSeq ag))
      (map (\<lambda>(gid, m). \<lparr>ag_GroupID = gid, ag_AckedSeq = m\<rparr>) mx))"
    by (simp add: acks_def sync_ack_def order_by_def multiset.map_comp)
  then have m: "mset acks = mset mx" by (simp add: o_def case_prod_beta)
  show d: "distinct (map fst acks)"
    using assms(1) m by (metis gmap_ok_def mset_eq_imp_distinct_iff mset_map)
  have e: "set acks = set mx" using m by (metis set_mset_mset)
  then show "\<forall>(g, a) \<in> set acks. 0 < a" using pos by auto
  show "map_of acks gid = gget mx gid"
    using d e assms(1) by (metis gget_def gmap_ok_def map_of_inject_set)
qed

section \<open>A complete exchange\<close>

definition sync_codec_ok :: "SyncDeps \<Rightarrow> string set \<Rightarrow> bool" where
  "sync_codec_ok Y gids \<longleftrightarrow>
    (\<forall>req d. rg_GroupID ` set (rq_Groups req) \<subseteq> gids \<longrightarrow> y_encRequest Y req = Inr d \<longrightarrow> y_decRequest Y d = Inr req) \<and>
    (\<forall>gid \<in> gids. batches_decode Y gid) \<and>
    (\<forall>ack d. ag_GroupID ` set (sa_Groups ack) \<subseteq> gids \<longrightarrow> y_encAck Y ack = Inr d \<longrightarrow> y_decAck Y d = Inr ack)"

definition pull_cursor :: "DB \<Rightarrow> string \<Rightarrow> string \<Rightarrow> int" where
  "pull_cursor db gid remote = (case gget (db_pull db) (gid, remote) of None \<Rightarrow> 0 | Some seq \<Rightarrow> seq)"

lemma request_groups_calm:
  "db_faults db = [] \<Longrightarrow> request_groups gids remote db = (map (\<lambda>g. \<lparr>rg_GroupID = g, rg_AfterSeq = pull_cursor db g remote\<rparr>) gids, db)"
  by (induction gids) (simp_all add: GetOfflinePullCursor_def with_io_quiet pull_cursor_def)

definition request_of :: "SyncDeps \<Rightarrow> peer_id \<Rightarrow> Runtime \<Rightarrow> OfflineSyncRequestV1" where
  "request_of Y remote rt = \<lparr>rq_V = 1, rq_Groups = map (\<lambda>g. \<lparr>rg_GroupID = g, rg_AfterSeq = pull_cursor (rt_db rt) g (y_pidString Y remote)\<rparr>)
     (sort (gkeys (rt_coords rt)))\<rparr>"

lemma pulled:
  assumes "pullOfflineSyncFromPeerOnce Y H Ds n iter now dl room remote s rt = Some (Inr (), w, rt')"
    and "rt_coords rt \<noteq> []" and "db_faults (rt_db rt) = []"
  obtains rt2 w1 room1 w2 b room2 pending mx where
    "w = w1 @ w2" "WriteOfflineJSONFrame (y_encRequest Y) (request_of Y remote rt) = Inr w1"
    "rt_coords rt2 = rt_coords rt" "read_batches Y s [] = Inr pending"
    "pull_groups Y Ds n remote (iter pending) [] rt2 = Some (mx, rt')"
    "write_frame (y_encAck Y) (sync_ack mx) room1 = (b, w2, room2)"
proof -
  have req: "rt_io (request_groups (sort (gkeys (rt_coords rt))) (y_pidString Y remote)) rt = (rq_Groups (request_of Y remote rt), rt)"
    by (simp add: rt_io_def request_groups_calm [OF assms(3)] request_of_def)
  obtain opened rt2 where d: "dial H now dl remote rt = (opened, rt2)" by (metis prod.exhaust)
  then have "rt_coords rt2 = rt_coords rt" by (auto simp: dial_def)
  obtain ok w1 room1 where wr: "write_frame (y_encRequest Y) (request_of Y remote rt) room = (ok, w1, room1)" by (metis prod.exhaust)
  have v: "\<lparr>rq_V = 1, rq_Groups = rq_Groups (request_of Y remote rt)\<rparr> = request_of Y remote rt" by (simp add: request_of_def)
  have "opened" "ok" using assms(1,2) req d wr
    by (auto simp: pullOfflineSyncFromPeerOnce_def Let_def v split: if_splits bool.splits)
  then obtain pending where pending: "read_batches Y s [] = Inr pending"
    using assms(1,2) req d wr by (auto simp: pullOfflineSyncFromPeerOnce_def v split: sum.splits)
  then obtain mx where mx: "pull_groups Y Ds n remote (iter pending) [] rt2 = Some (mx, rt')"
    and w: "w = w1 @ fst (snd (write_frame (y_encAck Y) (sync_ack mx) room1))"
    using assms(1,2) req d wr \<open>opened\<close> \<open>ok\<close>
    by (auto simp: pullOfflineSyncFromPeerOnce_def v Let_def case_prod_beta split: Option.bind_splits)
  have "WriteOfflineJSONFrame (y_encRequest Y) (request_of Y remote rt) = Inr w1"
    using wr \<open>ok\<close> by (auto simp: write_frame_def stream_write_def split: sum.splits)
  then show ?thesis
    using that [of w1 _ rt2 pending mx room1] \<open>rt_coords rt2 = rt_coords rt\<close> pending mx w by (metis prod.collapse)
qed

lemma served:
  assumes "handleOfflineSyncStream Y ap t client s room db = (out, db')"
    and "case ap of None \<Rightarrow> True | Some a \<Rightarrow> IsVerified client a"
    and "ReadOfflineJSONFrame (y_decRequest Y) s = Inr (req, s1)" and "rq_V req = 1"
    and "storage_ok db" "db_faults db = []" "\<forall>g \<in> set (rq_Groups req). batches_decode Y (rg_GroupID g)"
    and "read_batches Y out [] = Inr pending"
  shows "pending = fold (group_got db) (rq_Groups req) []" "db' = sync_acks Y t client s1 db"
proof -
  obtain ok w room1 db1 where sg: "serve_groups Y (rq_Groups req) room db = ((ok, w, room1), db1)" by (metis prod.exhaust)
  have "\<not> (case ap of None \<Rightarrow> False | Some a \<Rightarrow> \<not> IsVerified client a)" using assms(2) by (cases ap) auto
  then have h: "(out, db') = (if ok then if 4 \<le> room1 then (w @ WriteOfflineEndMarker, sync_acks Y t client s1 db1)
      else (w @ take room1 WriteOfflineEndMarker, db1) else (w, db1))"
    using assms(1,3,4) sg by (auto simp: handleOfflineSyncStream_def stream_write_def WriteOfflineEndMarker_def split: bool.splits)
  then have "out = (if ok then w @ take room1 WriteOfflineEndMarker else w)"
    by (auto simp: WriteOfflineEndMarker_def split: if_splits)
  note r = reply_read [OF sg assms(5-7) this assms(8)]
  show "pending = fold (group_got db) (rq_Groups req) []" by (rule r(4))
  show "db' = sync_acks Y t client s1 db" using h r(1-3) by simp
qed

lemma acks_cut:
  assumes "write_frame (y_encAck Y) v room = (False, w, room1)"
  shows "sync_acks Y t client w db = db"
proof (cases "WriteOfflineJSONFrame (y_encAck Y) v")
  case (Inl err)
  then show ?thesis
    using assms by (simp add: write_frame_def sync_acks_def ReadOfflineJSONFrame_def ReadOfflineRawFrame_def ReadFull_def)
next
  case (Inr f)
  then have "w = take room f" "room < length f" using assms by (auto simp: write_frame_def stream_write_def)
  then show ?thesis using read_cut_frame [OF Inr, where dec = "y_decAck Y"] by (simp add: sync_acks_def)
qed

lemma acks_recorded:
  fixes client :: peer_id
  assumes "write_frame (y_encAck Y) (sync_ack mx) room = (b, w, room1)" and "gmap_ok mx"
    and "\<forall>g m. gget mx g = Some m \<longrightarrow> 0 < m" and "\<And>d. y_encAck Y (sync_ack mx) = Inr d \<Longrightarrow> y_decAck Y d = Inr (sync_ack mx)"
    and "db_faults db = []" and "gid \<noteq> ''''"
  defines "p \<equiv> y_pidString Y client"
  shows "acked (sync_acks Y t client w db) p gid =
    (if b then case gget mx gid of None \<Rightarrow> acked db p gid | Some a \<Rightarrow> max (acked db p gid) a else acked db p gid)"
proof (cases b)
  case True
  then obtain f where f: "WriteOfflineJSONFrame (y_encAck Y) (sync_ack mx) = Inr f" "w = f"
    using assms(1) by (auto simp: write_frame_def stream_write_def split: sum.splits)
  then have "ReadOfflineJSONFrame (y_decAck Y) (w @ []) = Inr (sync_ack mx, [])"
    unfolding f(2) by (intro read_written_frame [OF f(1)] assms(4))
  moreover have "sa_V (sync_ack mx) = 1" by (simp add: sync_ack_def)
  ultimately have "sync_acks Y t client w db = record_acks t p (map (\<lambda>ag. (ag_GroupID ag, ag_AckedSeq ag)) (sa_Groups (sync_ack mx))) db"
    by (simp add: sync_acks_def p_def)
  then show ?thesis
    using True record_acks_acked [OF assms(5) sync_ack_acks(1,2) [OF assms(2,3)] assms(6)] sync_ack_acks(3) [OF assms(2,3)]
    by simp
qed (use acks_cut assms(1) in simp)

lemma log_after_positive: "storage_ok db \<Longrightarrow> r \<in> set (log_after gid a db) \<Longrightarrow> 0 < er_Seq r"
  by (auto simp: log_after_def dest: storage_okD)

lemma pull_rows_prefix:
  assumes "storage_ok db" and "rows = log_after gid a db"
    and "pull_entries D k gid (order_by se_Seq (map entry_of rows)) 0 c = Some (l, c')"
  shows "\<exists>i c1. i \<le> length rows \<and> settles D k gid (map entry_of (take i rows)) c c1 \<and>
    (i < length rows \<longrightarrow> (\<forall>c2. \<not> settles_entry D k gid (entry_of (rows ! i)) c1 c2)) \<and>
    l = (if i = 0 then 0 else er_Seq (rows ! (i - 1))) \<and> (i \<noteq> 0 \<longrightarrow> 0 < l)"
proof -
  have seq: "se_Seq \<circ> entry_of = er_Seq" by (simp add: entry_of_def fun_eq_iff)
  then have "order_by se_Seq (map entry_of rows) = map entry_of rows"
    using log_after_sorted [OF assms(1)] assms(2) by (intro order_by_id) simp
  from pull_entries_prefix [OF assms(3) [unfolded this]] obtain i c1 where i: "i \<le> length rows"
    "settles D k gid (take i (map entry_of rows)) c c1"
    "i < length rows \<longrightarrow> (\<forall>c2. \<not> settles_entry D k gid (map entry_of rows ! i) c1 c2)"
    "l = (if i = 0 then 0 else se_Seq (map entry_of rows ! (i - 1)))" by auto
  have "se_Seq (map entry_of rows ! (i - 1)) = er_Seq (rows ! (i - 1)) \<and> 0 < er_Seq (rows ! (i - 1))" if "i \<noteq> 0"
    using that i(1) log_after_positive [OF assms(1), of "rows ! (i - 1)" gid a] assms(2) by (simp add: entry_of_def)
  then show ?thesis using i by (intro exI [of _ i] exI [of _ c1]) (auto simp: take_map)
qed


section \<open>What a peer can get and change\<close>

text \<open>The only change: acknowledgements of the peer itself, and these do not go back.\<close>

definition acks_grow :: "string \<Rightarrow> (string \<times> string, int \<times> int) gomap \<Rightarrow> (string \<times> string, int \<times> int) gomap \<Rightarrow> bool" where
  "acks_grow p m m' \<longleftrightarrow> (\<forall>q g. q \<noteq> p \<longrightarrow> gget m' (q, g) = gget m (q, g)) \<and>
    (\<forall>g a at. gget m (p, g) = Some (a, at) \<longrightarrow> (\<exists>a' at'. gget m' (p, g) = Some (a', at') \<and> a \<le> a'))"

definition only_acks :: "string \<Rightarrow> DB \<Rightarrow> DB \<Rightarrow> bool" where
  "only_acks p db db' \<longleftrightarrow> (\<exists>acks faults. db' = db\<lparr>db_sync_acks := acks, db_faults := faults\<rparr> \<and> acks_grow p (db_sync_acks db) acks)"

lemma acks_grow_refl [simp]: "acks_grow p m m"
  by (simp add: acks_grow_def)

lemma acks_growD:
  "acks_grow p m m' \<Longrightarrow> q \<noteq> p \<Longrightarrow> gget m' (q, g) = gget m (q, g)"
  "acks_grow p m m' \<Longrightarrow> gget m (p, g) = Some (a, at) \<Longrightarrow> \<exists>a' at'. gget m' (p, g) = Some (a', at') \<and> a \<le> a'"
  by (simp_all add: acks_grow_def)

lemma acks_grow_trans:
  assumes "acks_grow p m1 m2" and "acks_grow p m2 m3"
  shows "acks_grow p m1 m3"
proof -
  have "gget m3 (q, g) = gget m1 (q, g)" if "q \<noteq> p" for q g
    using acks_growD(1) [OF assms(1) that] acks_growD(1) [OF assms(2) that] by simp
  moreover have "\<exists>a' at'. gget m3 (p, g) = Some (a', at') \<and> a \<le> a'" if a: "gget m1 (p, g) = Some (a, at)" for g a at
  proof -
    obtain b t where b: "gget m2 (p, g) = Some (b, t)" "a \<le> b" using acks_growD(2) [OF assms(1) a] by auto
    then show ?thesis using acks_growD(2) [OF assms(2) b(1)] by auto
  qed
  ultimately show ?thesis by (simp add: acks_grow_def)
qed

lemma only_acks_refl [simp]: "only_acks p db db" "only_acks p db (unfaulted db)"
  unfolding only_acks_def
  by (rule exI [of _ "db_sync_acks db"], rule exI [of _ "db_faults db"], simp,
      rule exI [of _ "db_sync_acks db"], rule exI [of _ "tl (db_faults db)"], simp add: unfaulted_def)

lemma only_acks_trans:
  assumes "only_acks p a b" and "only_acks p b c"
  shows "only_acks p a c"
proof -
  obtain m f where b: "b = a\<lparr>db_sync_acks := m, db_faults := f\<rparr>" "acks_grow p (db_sync_acks a) m"
    using assms(1) by (auto simp: only_acks_def)
  obtain m' f' where "c = b\<lparr>db_sync_acks := m', db_faults := f'\<rparr>" "acks_grow p (db_sync_acks b) m'"
    using assms(2) by (auto simp: only_acks_def)
  then have "c = a\<lparr>db_sync_acks := m', db_faults := f'\<rparr>" "acks_grow p (db_sync_acks a) m'"
    using b by (auto intro: acks_grow_trans)
  then show ?thesis by (auto simp: only_acks_def)
qed

lemma only_acks_record: "only_acks p db (snd (RecordSyncAck now p g a db))"
proof (cases "take 1 (db_faults db) = [True]")
  case False
  let ?m = "gput (p, g) (case gget (db_sync_acks db) (p, g) of
      None \<Rightarrow> (a, Unix now) | Some (old, _) \<Rightarrow> (if a > old then a else old, Unix now)) (db_sync_acks db)"
  have "snd (RecordSyncAck now p g a db) = db\<lparr>db_sync_acks := ?m, db_faults := tl (db_faults db)\<rparr>"
    using False by (simp add: RecordSyncAck_def with_io_def unfaulted_def)
  moreover have "acks_grow p (db_sync_acks db) ?m" by (auto simp: acks_grow_def)
  ultimately show ?thesis unfolding only_acks_def by blast
qed (simp add: RecordSyncAck_def with_io_def)

lemma only_acks_records: "only_acks p db (record_acks now p acks db)"
proof (induction acks arbitrary: db)
  case (Cons x acks)
  then show ?case by (cases x) (auto intro: only_acks_trans [OF only_acks_record])
qed simp

lemma only_acks_serve_group: "only_acks p db (snd (serve_group Y gid a room db))"
proof (induction Y gid a room db rule: serve_group.induct)
  case (1 Y gid a room db)
  obtain res db1 where g: "GetEnvelopesSince gid a 50 db = (res, db1)" by (metis prod.exhaust)
  have u: "db1 = unfaulted db"
    using g unfolding GetEnvelopesSince_def
    by (cases rule: with_io_cases [of "\<lambda>db. (let n = (if (50::int) < 1 then 50 else 50)
      in (Inr (sql_limit n (log_after gid a db)), db))" db]) (simp_all add: Let_def)
  show ?case
  proof (cases res)
    case (Inr recs)
    obtain ok w r1 where wf: "write_frame (y_encBatch Y) (page_batch gid recs) room = (ok, w, r1)" by (metis prod.exhaust)
    show ?thesis
    proof (cases "ok \<and> \<not> length recs < 50")
      case True
      then have "only_acks p db1 (snd (serve_group Y gid (er_Seq (last recs)) r1 db1))"
        using "1.IH" [OF g [symmetric] Inr wf [symmetric] _ refl] by simp
      then have "only_acks p db (snd (serve_group Y gid (er_Seq (last recs)) r1 db1))"
        unfolding u by (rule only_acks_trans [OF only_acks_refl(2)])
      then show ?thesis
        using True g Inr wf by (simp add: serve_group.simps [of Y gid a] case_prod_beta)
    qed (use g u Inr wf in \<open>cases ok; auto simp: serve_group.simps [of Y gid a]\<close>)
  qed (use g u in \<open>simp add: serve_group.simps [of Y gid a]\<close>)
qed

lemma only_acks_serve_groups: "only_acks p db (snd (serve_groups Y gs room db))"
proof (induction gs arbitrary: room db)
  case (Cons g gs)
  obtain ok w r1 d1 where one: "serve_group Y (rg_GroupID g) (rg_AfterSeq g) room db = ((ok, w, r1), d1)" by (metis prod.exhaust)
  have "only_acks p db d1" using only_acks_serve_group [of p db Y "rg_GroupID g" "rg_AfterSeq g" room] one by simp
  moreover from this have "only_acks p db (snd (serve_groups Y gs r1 d1))" using Cons.IH by (rule only_acks_trans)
  ultimately show ?case using one Cons.IH by (cases ok) (auto simp: case_prod_beta)
qed simp

lemma only_acks_sync: "only_acks (y_pidString Y remote) db (sync_acks Y now remote s db)"
  using only_acks_records by (auto simp: sync_acks_def split: sum.split)

text \<open>
  C17: what a peer can do to the responder. A peer that is not verified is sent nothing and changes nothing, on either
  stream. Whatever a verified peer sends, the database afterwards differs at most in acknowledgements under the
  peer's own name, none of which went back: the log, the messages, the group states and what other peers have
  acknowledged are as before.
\<close>

theorem sync_peer_confined:
  shows "(\<forall>a. ap = Some a \<longrightarrow> \<not> IsVerified remote a \<longrightarrow>
      handleOfflineSyncStream Y ap now remote s room db = ([], db) \<and> handleOfflineDeliveryAckStream Y ap now remote s db = db) \<and>
    only_acks (y_pidString Y remote) db (snd (handleOfflineSyncStream Y ap now remote s room db)) \<and>
    only_acks (y_pidString Y remote) db (handleOfflineDeliveryAckStream Y ap now remote s db)"
proof -
  let ?p = "y_pidString Y remote"
  have "only_acks ?p db (snd (handleOfflineSyncStream Y ap now remote s room db))"
  proof (cases "ReadOfflineJSONFrame (y_decRequest Y) s")
    case (Inr v)
    obtain req s1 where v: "v = (req, s1)" by (cases v)
    obtain ok w r1 d1 where sg: "serve_groups Y (rq_Groups req) room db = ((ok, w, r1), d1)" by (metis prod.exhaust)
    have "only_acks ?p db d1" using only_acks_serve_groups [of ?p db Y "rq_Groups req" room] sg by simp
    moreover from this have "only_acks ?p db (sync_acks Y now remote s1 d1)" using only_acks_sync only_acks_trans by blast
    ultimately show ?thesis
      using Inr v sg by (auto simp: handleOfflineSyncStream_def stream_write_def split: option.splits bool.splits)
  qed (simp add: handleOfflineSyncStream_def)
  moreover have "only_acks ?p db (handleOfflineDeliveryAckStream Y ap now remote s db)"
    using only_acks_records by (auto simp: handleOfflineDeliveryAckStream_def split: sum.split)
  ultimately show ?thesis by (simp add: handleOfflineSyncStream_def handleOfflineDeliveryAckStream_def)
qed

section \<open>Batched messages\<close>

lemma append_row:
  assumes "appendEnvelopeTx sha now gid mt e ts env db = (seq, db')" and "seq \<noteq> 0"
  shows "\<exists>r \<in> set (db_log db'). er_GroupID r = gid \<and> er_Seq r = seq \<and> er_Envelope r = env"
  using assms by (auto simp: appendEnvelopeTx_def insert_log_def Let_def split: if_splits)

lemma batched_row:
  assumes "ApplyBatchedApplication sha ps now rec msgs mt env ts e db = (Inr (True, seq), db')" and "seq \<noteq> 0"
  shows "\<exists>r \<in> set (db_log db'). er_GroupID r = gr_GroupID rec \<and> er_Seq r = seq \<and> er_Envelope r = env"
proof -
  let ?save = "fold (\<lambda>msg. saveMessageTx ps (stamped_message (sha env) msg)) msgs"
  have tx: "apply_tx sha now rec ?save mt env ts e db = (Inr (True, seq), db')"
    using ApplyBatched_shape [of sha ps now rec msgs mt env ts e db] assms(1) by auto
  show ?thesis
    by (cases rule: apply_tx_cases [of sha now rec ?save mt env ts e db]) (use tx append_row assms(2) in auto)
qed

lemma batched_storage_ok:
  assumes "ApplyBatchedApplication sha ps now rec msgs mt env ts e db = (res, db')" and "storage_ok db"
  shows "storage_ok db'"
  using ApplyBatched_shape [of sha ps now rec msgs mt env ts e db] assms
    storage_ok_apply_tx [OF assms(2) storage_ok_fold_messages, where sha = sha and rec = rec and env = env]
  by (auto dest: arg_cong [of _ _ snd])

lemma pull_entries_stop:
  assumes "pull_entries D k gid (es @ e # fs) l c = Some (l', c')" and "\<And>c c'. \<not> settles_entry D k gid e c c'"
  shows "l' = l \<or> l' \<in> se_Seq ` set es"
  using assms(1)
proof (induction es arbitrary: l c)
  case Nil
  then show ?case using assms(2) by (auto simp: pull_entry_settles [symmetric] split: Option.bind_splits if_splits)
next
  case (Cons x es)
  then show ?case by (auto split: Option.bind_splits if_splits)
qed

text \<open>
  C23: a batched message blocks the peers that catch up. Applying a batch writes its envelope to the log, from where it
  is served, but a pull accepts only commits and single messages: no pull from a cursor before the batch, whatever
  the state of the puller, gets its cursor up to the batch, so nothing behind it is ever pulled.
\<close>

theorem batched_message_blocks_pull:
  assumes "ApplyBatchedApplication sha ps now rec msgs MsgApplicationBatched wire ts e sdb = (Inr (True, seq), sdb')"
    and "storage_ok sdb" "seq \<noteq> 0" "a < seq" "gid = gr_GroupID rec"
    and "u_envelope (d_json D) wire = Inr env" "env_Type env = MsgApplicationBatched"
    and "pull_entries D k gid (map entry_of (log_after gid a sdb')) 0 c = Some (l, c')"
  shows "l < seq"
proof -
  have ok: "storage_ok sdb'" using batched_storage_ok assms(1,2) by blast
  obtain q where q: "q \<in> set (db_log sdb')" "er_GroupID q = gid" "er_Seq q = seq" "er_Envelope q = wire"
    using batched_row [OF assms(1,3)] assms(5) by blast
  have "EnvelopeRecord.truncate q \<in> set (log_after gid a sdb')" using q assms(4) by (auto simp: log_after_def)
  then obtain xs ys where rows: "log_after gid a sdb' = xs @ EnvelopeRecord.truncate q # ys" by (meson split_list)
  have "er_Seq x < seq" if "x \<in> set xs" for x
    using log_after_sorted [OF ok, of gid a] that q(3) by (simp add: rows sorted_wrt_append)
  moreover have "\<not> settles_entry D k gid (entry_of (EnvelopeRecord.truncate q)) c1 c2" for c1 c2
    using assms(6,7) q(4) by (simp add: settles_entry_def entry_of_def EnvelopeRecord.defs)
  then have "l = 0 \<or> l \<in> se_Seq ` set (map entry_of xs)"
    using pull_entries_stop [of D k gid "map entry_of xs" "entry_of (EnvelopeRecord.truncate q)" "map entry_of ys" 0 c l c'] assms(8)
    by (simp add: rows)
  moreover have "0 < seq" using storage_okD(7) [OF ok q(1)] q(3) by simp
  ultimately show ?thesis by (auto simp: entry_of_def)
qed

section \<open>A group that is stuck\<close>

lemma block_record_sel [simp]:
  "rv_progressed (fst (block_record gid rec st err reason b rv c)) = b"
  "rv_applied (fst (block_record gid rec st err reason b rv c)) = rv_applied rv"
  "c_epoch (snd (block_record gid rec st err reason b rv c)) = c_epoch c"
  "c_syncRetryAttempts (snd (block_record gid rec st err reason b rv c)) = c_syncRetryAttempts c"
  "c_view (snd (block_record gid rec st err reason b rv c)) = c_view c"
  by (simp_all add: block_record_def emitReplayBlocked_def on_db_def case_prod_beta)

text \<open>The states after which the loop goes on.\<close>

definition replay_goes_on :: "ReplayEnvelopeState \<Rightarrow> bool" where
  "replay_goes_on state \<longleftrightarrow> state \<in> {ReplayStateApplied, ReplayStateDuplicateApplied, ReplayStateStaleEpoch, ReplayStateDecryptFailed}"

lemma replay_outcome_stops:
  assumes "\<not> replay_goes_on st"
  shows "\<not> rv_progressed (fst (replay_outcome gid rec st rv c))" "rv_applied (fst (replay_outcome gid rec st rv c)) = rv_applied rv"
    "c_epoch (snd (replay_outcome gid rec st rv c)) = c_epoch c"
    "c_syncRetryAttempts (snd (replay_outcome gid rec st rv c)) = c_syncRetryAttempts c"
    "c_view (snd (replay_outcome gid rec st rv c)) = c_view c"
  using assms by (simp_all add: replay_outcome_def replay_goes_on_def)


section \<open>A small exchange\<close>

definition server_db :: DB where
  "server_db = snd (AppendEnvelope (\<lambda>b. b) 0 ''g'' MsgApplication 3 (HLCTimestamp 900 0 ''B'') [1, 2] empty_db)"

definition sync_sample :: SyncDeps where
  "sync_sample =
    (let req = \<lparr>rq_V = 1, rq_Groups = [\<lparr>rg_GroupID = ''g'', rg_AfterSeq = 0\<rparr>]\<rparr>;
         batch = \<lparr>sb_GroupID = ''g'', sb_Entries = [\<lparr>se_Seq = 1, se_Envelope = [1, 2]\<rparr>], sb_HasMore = False\<rparr>;
         ack = \<lparr>sa_V = 1, sa_Groups = [\<lparr>ag_GroupID = ''g'', ag_AckedSeq = 1\<rparr>]\<rparr>;
         bad = Inl (ErrMsg ''json'')
     in \<lparr>y_encRequest = (\<lambda>r. if r = req then Inr [9] else bad), y_decRequest = (\<lambda>d. if d = [9] then Inr req else Inl (ErrMsg ''json'')),
         y_encBatch = (\<lambda>b. if b = batch then Inr [3] else bad), y_decBatch = (\<lambda>d. if d = [3] then Inr batch else Inl (ErrMsg ''json'')),
         y_encAck = (\<lambda>a. if a = ack then Inr [6] else bad), y_decAck = (\<lambda>d. if d = [6] then Inr ack else Inl (ErrMsg ''json'')),
         y_encDelivery = (\<lambda>a. bad), y_decDelivery = (\<lambda>d. Inl (ErrMsg ''json'')), y_pidString = (\<lambda>p. p)\<rparr>)"

definition sync_node :: Runtime where
  "sync_node = \<lparr>rt_db = empty_db, rt_auth = None, rt_localID = ''A'', rt_coords = [(''g'', sample_node)], rt_tasks = []\<rparr>"

definition sync_dial :: Dial where
  "sync_dial = \<lparr>dl_hsOpened = True, dl_hsSent = True, dl_conn = '''', dl_conns = [], dl_hsReply = [], dl_opened = True\<rparr>"

definition sync_row :: EnvelopeRecord where
  "sync_row = \<lparr>er_Seq = 1, er_GroupID = ''g'', er_MsgType = MsgApplication, er_Epoch = 3,
    er_Envelope = [1, 2], er_Timestamp = HLCTimestamp 900 0 ''B'', er_EnvelopeHash = [1, 2], er_SourcePath = ''local'',
    er_ApplyState = ''pending'', er_LastApplyError = '''', er_LastApplyAttemptAt = 0, er_AppliedAt = 0, er_FirstSeenAtMs = 0,
    er_ReceivedAtMs = 0\<rparr>"

lemma sample_rows: "log_after ''g'' 0 server_db = [sync_row]"
  by code_simp

lemma server_calm: "db_faults server_db = []"
  by code_simp

lemma server_ok: "storage_ok server_db"
  using storage_ok_db_run [OF storage_ok_empty, of "\<lambda>b. b" "\<lambda>p. p"
      "[OpAppend 0 ''g'' MsgApplication 3 (HLCTimestamp 900 0 ''B'') [1, 2] ''local'']"]
  by (simp add: db_run_def server_db_def AppendEnvelope_def Let_def case_prod_beta)

lemma be_bytes_one: "be_bytes 4 (Suc 0) = [0, 0, 0, 1]"
proof -
  have four: "4 = Suc (Suc (Suc (Suc 0)))" by simp
  show ?thesis by (simp only: four be_bytes.simps) simp
qed

lemma write_one: "marshal v = Inr [d] \<Longrightarrow> WriteOfflineJSONFrame marshal v = Inr [0, 0, 0, 1, d]"
  by (simp add: WriteOfflineJSONFrame_def offlineMaxFrame_def be_bytes_one)

lemma read_one: "ReadOfflineJSONFrame dec (0 # 0 # 0 # 1 # d # s) = (case dec [d] of Inl e \<Rightarrow> Inl e | Inr v \<Rightarrow> Inr (v, s))"
proof -
  have "ReadFull 4 (0 # 0 # 0 # 1 # d # s) = Inr (be_bytes 4 (Suc 0), d # s)"
    using ReadFull_append [of "be_bytes 4 (Suc 0)" 4 "d # s"] by (simp add: be_bytes_one)
  moreover have "ReadFull (Suc 0) (d # s) = Inr ([d], s)" using ReadFull_append [of "[d]" "Suc 0" s] by simp
  ultimately show ?thesis
    by (simp add: ReadOfflineJSONFrame_def ReadOfflineRawFrame_def offlineMaxFrame_def Let_def)
qed

lemma read_stop: "ReadOfflineJSONFrame dec [0, 0, 0, 0] = Inl ErrOfflineStreamEnd"
  using read_end_marker [of dec "[]"] by (simp add: WriteOfflineEndMarker_def)

lemma sync_sample_sel:
  "y_encRequest sync_sample \<lparr>rq_V = 1, rq_Groups = [\<lparr>rg_GroupID = ''g'', rg_AfterSeq = 0\<rparr>]\<rparr> = Inr [9]"
  "y_decRequest sync_sample [9] = Inr \<lparr>rq_V = 1, rq_Groups = [\<lparr>rg_GroupID = ''g'', rg_AfterSeq = 0\<rparr>]\<rparr>"
  "y_encBatch sync_sample \<lparr>sb_GroupID = ''g'', sb_Entries = [\<lparr>se_Seq = 1, se_Envelope = [1, 2]\<rparr>], sb_HasMore = False\<rparr> = Inr [3]"
  "y_decBatch sync_sample [3] = Inr \<lparr>sb_GroupID = ''g'', sb_Entries = [\<lparr>se_Seq = 1, se_Envelope = [1, 2]\<rparr>], sb_HasMore = False\<rparr>"
  "y_encAck sync_sample \<lparr>sa_V = 1, sa_Groups = [\<lparr>ag_GroupID = ''g'', ag_AckedSeq = 1\<rparr>]\<rparr> = Inr [6]"
  "y_decAck sync_sample [6] = Inr \<lparr>sa_V = 1, sa_Groups = [\<lparr>ag_GroupID = ''g'', ag_AckedSeq = 1\<rparr>]\<rparr>"
  "y_pidString sync_sample p = p"
  by (simp_all add: sync_sample_def Let_def)

lemma sync_sample_codec: "sync_codec_ok sync_sample gids"
  by (simp add: sync_codec_ok_def batches_decode_def sync_sample_def Let_def)

lemma served_sample:
  "serve_group sync_sample ''g'' 0 room server_db = (stream_write [0, 0, 0, 1, 3] room, server_db)" if "5 \<le> room"
proof -
  have "GetEnvelopesSince ''g'' 0 50 server_db = (Inr [sync_row], server_db)"
    by (simp add: GetEnvelopesSince_def with_io_quiet [OF server_calm] sql_limit_def sample_rows)
  moreover have "page_batch ''g'' [sync_row] = \<lparr>sb_GroupID = ''g'', sb_Entries = [\<lparr>se_Seq = 1, se_Envelope = [1, 2]\<rparr>], sb_HasMore = False\<rparr>"
    by (simp add: page_batch_def entry_of_def sync_row_def)
  ultimately show ?thesis
    using that by (simp add: serve_group.simps write_frame_def write_one [of "y_encBatch sync_sample", OF sync_sample_sel(3)] stream_write_def)
qed

lemma handled_sample:
  "handleOfflineSyncStream sync_sample None 0 ''A'' [0, 0, 0, 1, 9, 0, 0, 0, 1, 6] 100 server_db =
    ([0, 0, 0, 1, 3, 0, 0, 0, 0], snd (RecordSyncAck 0 ''A'' ''g'' 1 server_db))"
  by (simp add: handleOfflineSyncStream_def read_one sync_sample_sel served_sample stream_write_def WriteOfflineEndMarker_def
      sync_acks_def)

lemma settled_sample:
  "map_option fst (pull_entry message_deps (reenter message_deps 0) ''g'' \<lparr>se_Seq = 1, se_Envelope = [1, 2]\<rparr> sample_node) = Some True"
  by code_simp

lemma pulled_sample:
  "\<exists>rt'. pullOfflineSyncFromPeerOnce sync_sample sample_wire (\<lambda>_. message_deps) 0 (\<lambda>m. m) 0 sync_dial
     100 ''B'' [0, 0, 0, 1, 3, 0, 0, 0, 0] sync_node = Some (Inr (), [0, 0, 0, 1, 9, 0, 0, 0, 1, 6], rt')"
proof -
  let ?e = "\<lparr>se_Seq = 1, se_Envelope = [1, 2]\<rparr>"
  obtain c where c: "pull_entry message_deps (reenter message_deps 0) ''g'' ?e sample_node = Some (True, c)"
    using settled_sample by auto
  have rb: "read_batches sync_sample [0, 0, 0, 1, 3, 0, 0, 0, 0] [] = Inr [(''g'', [?e])]"
    by (simp add: read_batches.simps read_one read_stop sync_sample_sel add_batch_def gput_def)
  have co: "checkout ''g'' sync_node = Some sample_node" by (simp add: checkout_def sync_node_def gget_def sample_node_def)
  have ob: "order_by se_Seq [?e] = [?e]" by (simp add: order_by_id)
  obtain rt where pg: "pull_groups sync_sample (\<lambda>_. message_deps) 0 ''B'' [(''g'', [?e])] [] sync_node = Some ([(''g'', 1)], rt)"
    by (simp add: pull_group_def co ob c gput_def)
  have "db_faults empty_db = []" by (simp add: empty_db_def)
  then have rq: "rt_io (request_groups (sort (gkeys (rt_coords sync_node))) ''B'') sync_node = ([\<lparr>rg_GroupID = ''g'', rg_AfterSeq = 0\<rparr>], sync_node)"
    by (simp add: rt_io_def sync_node_def gkeys_def request_groups_calm pull_cursor_def del: request_groups.simps) (simp add: empty_db_def)
  have ack: "sync_ack [(''g'', 1)] = \<lparr>sa_V = 1, sa_Groups = [\<lparr>ag_GroupID = ''g'', ag_AckedSeq = 1\<rparr>]\<rparr>"
    by (simp add: sync_ack_def order_by_id)
  have dl: "dial sample_wire 0 sync_dial ''B'' sync_node = (True, sync_node)" by (simp add: dial_def sync_dial_def sync_node_def)
  have ne: "rt_coords sync_node \<noteq> []" by (simp add: sync_node_def)
  show ?thesis
    by (simp add: pullOfflineSyncFromPeerOnce_def ne sync_sample_sel(7) rq dl write_frame_def rb pg ack
        write_one [of "y_encRequest sync_sample", OF sync_sample_sel(1)] write_one [of "y_encAck sync_sample", OF sync_sample_sel(5)]
        stream_write_def del: pull_groups.simps)
qed


theorem sync_peer_confined_witness:
  "handleOfflineSyncStream sync_sample (Some old_client) 0 ''A'' [0, 0, 0, 1, 9, 0, 0, 0, 1, 6] 100 server_db = ([], server_db) \<and>
   only_acks ''A'' server_db (snd (handleOfflineSyncStream sync_sample None 0 ''A'' [0, 0, 0, 1, 9, 0, 0, 0, 1, 6] 100 server_db)) \<and>
   acked (snd (handleOfflineSyncStream sync_sample None 0 ''A'' [0, 0, 0, 1, 9, 0, 0, 0, 1, 6] 100 server_db)) ''A'' ''g'' = 1"
proof -
  have "\<not> IsVerified ''A'' old_client" by (simp add: IsVerified_def old_client_def New_sel ghas_def)
  moreover have "acked (snd (RecordSyncAck 0 ''A'' ''g'' 1 server_db)) ''A'' ''g'' = 1" by code_simp
  ultimately show ?thesis
    using sync_peer_confined [of "Some old_client" "''A''" sync_sample 0 "[0, 0, 0, 1, 9, 0, 0, 0, 1, 6]" 100 server_db]
      sync_peer_confined [of None "''A''" sync_sample 0 "[0, 0, 0, 1, 9, 0, 0, 0, 1, 6]" 100 server_db]
    by (simp add: handled_sample sync_sample_sel(7))
qed

definition batch_deps :: Deps where
  "batch_deps = sample_deps\<lparr>d_json := sample_codecs\<lparr>u_envelope := (\<lambda>b. Inr (sample_envelope\<lparr>env_Type := MsgApplicationBatched\<rparr>))\<rparr>\<rparr>"

definition batch_call :: "(error + bool \<times> int) \<times> DB" where
  "batch_call = ApplyBatchedApplication (\<lambda>b. b) (\<lambda>p. p) 0 sample_group [sample_message, sample_message] MsgApplicationBatched [4, 4]
     (HLCTimestamp 6 0 ''p1'') 1 empty_db"

theorem batched_message_blocks_pull_witness:
  "fst batch_call = Inr (True, 1) \<and> (\<exists>l c'. pull_entries batch_deps (reenter batch_deps 0) ''g1''
     (map entry_of (log_after ''g1'' 0 (snd batch_call))) 0 sample_node = Some (l, c') \<and> l < 1)"
proof -
  have call: "fst batch_call = Inr (True, 1)" "map se_Envelope (map entry_of (log_after ''g1'' 0 (snd batch_call))) = [[4, 4]]" by code_simp+
  obtain e where e: "map entry_of (log_after ''g1'' 0 (snd batch_call)) = [e]" using call(2) by (auto simp: map_eq_Cons_conv)
  have u: "u_envelope (d_json batch_deps) w = Inr (sample_envelope\<lparr>env_Type := MsgApplicationBatched\<rparr>)" for w by (simp add: batch_deps_def)
  have p: "pull_entries batch_deps (reenter batch_deps 0) ''g1'' (map entry_of (log_after ''g1'' 0 (snd batch_call))) 0 sample_node
      = Some (0, sample_node)"
    unfolding e by (simp add: pull_entry_def u)
  have "ApplyBatchedApplication (\<lambda>b. b) (\<lambda>p. p) 0 sample_group [sample_message, sample_message] MsgApplicationBatched [4, 4]
     (HLCTimestamp 6 0 ''p1'') 1 empty_db = (Inr (True, 1), snd batch_call)"
    using call(1) by (metis batch_call_def prod.collapse)
  from batched_message_blocks_pull [OF this storage_ok_empty _ _ _ u _ p]
  have "(0 :: int) < 1" by (simp add: sample_group_def)
  then show ?thesis using call(1) p by auto
qed

definition future_deps :: Deps where
  "future_deps = sample_deps\<lparr>d_json := sample_codecs\<lparr>u_envelope :=
     (\<lambda>b. Inr (sample_envelope\<lparr>env_Type := MsgApplication, env_Epoch := 7\<rparr>))\<rparr>\<rparr>"

definition stuck_node :: Runtime where
  "stuck_node = sync_node\<lparr>rt_db := server_db, rt_coords := [(''g'', sample_node\<lparr>c_syncRetryAttempts := 2\<rparr>)]\<rparr>"

lemma stuck_sample:
  "case on_db (GetPendingEnvelopes ''g'' 100) (sample_node\<lparr>c_syncRetryAttempts := 2, c_db := server_db, c_mode := ModeCatchingUp\<rparr>) of
     (Inr (rec # recs), c1) \<Rightarrow>
       (case ReplayEnvelopesDetailed future_deps (reenter future_deps 0) [er_Envelope rec] c1 of
          Some (Inr (r # rs), c2) \<Rightarrow> \<not> replay_goes_on (rr_State r) \<and> c_epoch c2 = 3 \<and> c_syncRetryAttempts c2 = 2
        | _ \<Rightarrow> False)
   | _ \<Rightarrow> False"
  by code_simp


end
